theory Spec2Isabelle
  imports Complex_Main
begin

section \<open>Python primitives used by \<open>awacs.py\<close>\<close>

text \<open>
  Python floats are modelled as \<^typ>\<open>real\<close> (exact arithmetic, no NaN, no infinities, no
  signed zero) and Python ints as \<^typ>\<open>int\<close>.  The functions of the \<open>math\<close> module
  (\<open>atan2\<close>, \<open>hypot\<close>, \<open>sin\<close>, \<open>cos\<close>, \<open>degrees\<close>, \<open>radians\<close>) are their real-number
  meaning.  Strings are byte strings; the whitespace and case predicates cover ASCII.
\<close>

definition py_round :: "real \<Rightarrow> int" where
  \<comment> \<open>\<open>round(x)\<close>: nearest integer, ties to the even neighbour\<close>
  "py_round x =
     (let f = \<lfloor>x\<rfloor>; d = x - of_int f
      in if d < 1/2 then f else if 1/2 < d then f + 1 else if even f then f else f + 1)"

definition py_int :: "real \<Rightarrow> int" where
  \<comment> \<open>\<open>int(x)\<close> on a float: truncation towards zero\<close>
  "py_int x = (if 0 \<le> x then \<lfloor>x\<rfloor> else \<lceil>x\<rceil>)"

definition py_fmod :: "real \<Rightarrow> real \<Rightarrow> real" where
  \<comment> \<open>\<open>x % m\<close> on floats, for a positive modulus\<close>
  "py_fmod x m = x - m * of_int \<lfloor>x / m\<rfloor>"

definition hypot :: "real \<Rightarrow> real \<Rightarrow> real" where
  "hypot x y = sqrt (x * x + y * y)"

definition atan2 :: "real \<Rightarrow> real \<Rightarrow> real" where
  \<comment> \<open>\<open>math.atan2(y, x)\<close>\<close>
  "atan2 y x =
     (if 0 < x then arctan (y / x)
      else if x < 0 then (if 0 \<le> y then arctan (y / x) + pi else arctan (y / x) - pi)
      else if 0 < y then pi / 2
      else if y < 0 then - (pi / 2)
      else 0)"

definition degrees :: "real \<Rightarrow> real" where
  "degrees r = r * 180 / pi"

definition radians :: "real \<Rightarrow> real" where
  "radians d = d * pi / 180"

definition is_space :: "char \<Rightarrow> bool" where
  "is_space c = (c \<in> set [CHR '' '', CHR 0x09, CHR 0x0A, CHR 0x0B, CHR 0x0C, CHR 0x0D,
                            CHR 0x1C, CHR 0x1D, CHR 0x1E, CHR 0x1F])"

definition is_digit :: "char \<Rightarrow> bool" where
  "is_digit c = (c \<in> set ''0123456789'')"

definition is_upper :: "char \<Rightarrow> bool" where
  "is_upper c = (c \<in> set ''ABCDEFGHIJKLMNOPQRSTUVWXYZ'')"

definition is_lower :: "char \<Rightarrow> bool" where
  "is_lower c = (c \<in> set ''abcdefghijklmnopqrstuvwxyz'')"

definition is_alpha :: "char \<Rightarrow> bool" where
  "is_alpha c = (is_upper c \<or> is_lower c)"

definition lower_char :: "char \<Rightarrow> char" where
  "lower_char c =
     (case map_of (zip ''ABCDEFGHIJKLMNOPQRSTUVWXYZ'' ''abcdefghijklmnopqrstuvwxyz'') c of
        Some d \<Rightarrow> d | None \<Rightarrow> c)"

definition lower :: "string \<Rightarrow> string" where
  "lower s = map lower_char s"

definition strip :: "string \<Rightarrow> string" where
  "strip s = rev (dropWhile is_space (rev (dropWhile is_space s)))"

fun startswith :: "string \<Rightarrow> string \<Rightarrow> bool" where
  "startswith s [] = True"
| "startswith [] (p # ps) = False"
| "startswith (c # cs) (p # ps) = (c = p \<and> startswith cs ps)"

fun py_in :: "string \<Rightarrow> string \<Rightarrow> bool" where
  \<comment> \<open>\<open>needle in hay\<close> on strings: substring test\<close>
  "py_in needle [] = (needle = [])"
| "py_in needle (h # hs) = (startswith (h # hs) needle \<or> py_in needle hs)"

fun digits :: "nat \<Rightarrow> string" where
  "digits n = (if n < 10 then [''0123456789'' ! n]
               else digits (n div 10) @ [''0123456789'' ! (n mod 10)])"

declare digits.simps [simp del]

definition str_int :: "int \<Rightarrow> string" where
  \<comment> \<open>\<open>str(n)\<close> and \<open>f"{n}"\<close> on an int\<close>
  "str_int n = (if n < 0 then ''-'' @ digits (nat (- n)) else digits (nat n))"

definition fmt_03d :: "int \<Rightarrow> string" where
  \<comment> \<open>\<open>f"{n:03d}"\<close>: zero padding to width three, the sign counted in the width\<close>
  "fmt_03d n =
     (if n < 0 then ''-'' @ replicate (2 - length (digits (nat (- n)))) CHR ''0'' @ digits (nat (- n))
      else replicate (3 - length (digits (nat n))) CHR ''0'' @ digits (nat n))"

fun group3 :: "string \<Rightarrow> string" where
  "group3 (a # b # c # d # rest) = a # b # c # CHR '','' # group3 (d # rest)"
| "group3 xs = xs"

definition fmt_comma :: "int \<Rightarrow> string" where
  \<comment> \<open>\<open>f"{n:,}"\<close>: thousands separators\<close>
  "fmt_comma n =
     (if n < 0 then ''-'' @ rev (group3 (rev (digits (nat (- n)))))
      else rev (group3 (rev (digits (nat n)))))"

section \<open>Constants\<close>

definition EARTH_M_PER_NM :: real where "EARTH_M_PER_NM = 1852"
definition M_TO_FT :: real where "M_TO_FT = 3.280839895"

definition BLUE_HINTS :: "string list" where
  "BLUE_HINTS = [''Allies'', ''Blue'', ''NATO'', ''USA'', ''USAF'', ''USN'', ''USMC'', ''U.S.'',
                 ''United States'', ''ROK'', ''Training'', ''Allied'', ''Player'', ''Friendly'']"

definition RED_HINTS :: "string list" where
  "RED_HINTS = [''Enemies'', ''Red'', ''OPFOR'', ''Aggressor'', ''DPRK'', ''Russia'', ''China'',
                ''Serbia'', ''Hostile'', ''Adversary'']"

definition TANKER_HINTS :: "string list" where
  "TANKER_HINTS = [''KC-135'', ''KC135'', ''KC-10'', ''KC10'', ''KC-46'', ''KC46'', ''Tanker'',
                   ''Texaco'', ''Shell'', ''Arco'']"

definition MISSILE_HINTS :: "string list" where
  "MISSILE_HINTS = [''AIM-'', ''R-'', ''AA-'', ''AMRAAM'', ''Sparrow'', ''Sidewinder'', ''Adder'',
                    ''Alamo'', ''Archer'', ''Vympel'', ''PL-'', ''SD-'', ''Meteor'', ''Fox'']"

definition HOT_MAX :: real where "HOT_MAX = 45"
definition BEAM_MIN :: real where "BEAM_MIN = 70"
definition BEAM_MAX :: real where "BEAM_MAX = 110"
definition COLD_MIN :: real where "COLD_MIN = 135"

definition MERGED_NM :: real where "MERGED_NM = 3"
definition MISSILE_ALERT_MAX_RANGE_NM :: real where "MISSILE_ALERT_MAX_RANGE_NM = 30"

section \<open>Math helpers\<close>

definition norm_head :: "real option \<Rightarrow> real option" where
  "norm_head h = (case h of None \<Rightarrow> None
                  | Some x \<Rightarrow> Some (py_fmod (py_fmod x 360 + 360) 360))"

definition bearing_deg :: "real \<Rightarrow> real \<Rightarrow> real" where
  "bearing_deg dx dy = py_fmod (degrees (atan2 dx dy) + 360) 360"

definition brg_rng_from_xy :: "real \<Rightarrow> real \<Rightarrow> real \<Rightarrow> real \<Rightarrow> int \<times> real" where
  "brg_rng_from_xy ou ov tu tv =
     (let dx = tu - ou; dy = tv - ov;
          brg = bearing_deg dx dy;
          rng_nm = hypot dx dy / EARTH_M_PER_NM
      in (py_round brg mod 360, rng_nm))"

definition bulls_to_uv :: "real \<Rightarrow> real \<Rightarrow> real \<Rightarrow> real \<Rightarrow> real \<times> real" where
  "bulls_to_uv bu bv brg_deg rng_nm =
     (let r = radians brg_deg;
          du = sin r * (rng_nm * EARTH_M_PER_NM);
          dv = cos r * (rng_nm * EARTH_M_PER_NM)
      in (bu + du, bv + dv))"

definition threat_alt_phrase :: "real option \<Rightarrow> string" where
  "threat_alt_phrase alt_m =
     (case alt_m of None \<Rightarrow> ''ALT UNKNOWN''
      | Some a \<Rightarrow>
          (let ft = a * M_TO_FT
           in if 18000 \<le> ft then ''FL'' @ str_int (py_round (ft / 100))
              else fmt_comma (py_round (ft / 100) * 100) @ '' FT''))"

definition dirs :: "string list" where
  "dirs = [''north'', ''northeast'', ''east'', ''southeast'', ''south'', ''southwest'', ''west'',
           ''northwest'']"

definition dir_word_from_heading :: "real option \<Rightarrow> string option" where
  "dir_word_from_heading hdg =
     (case hdg of None \<Rightarrow> None
      | Some h \<Rightarrow> Some (dirs ! nat (\<lfloor>(py_fmod h 360 + 22.5) / 45\<rfloor> mod 8)))"

definition aspect_word :: "real option \<Rightarrow> int option \<Rightarrow> string" where
  "aspect_word hdg brg_from_fighter =
     (case (hdg, brg_from_fighter) of
        (Some h, Some b) \<Rightarrow>
          (let diff = \<bar>py_fmod (h - of_int b + 540) 360 - 180\<bar>
           in if BEAM_MIN \<le> diff \<and> diff \<le> BEAM_MAX
                then strip (''beam '' @ (case dir_word_from_heading hdg of None \<Rightarrow> '''' | Some w \<Rightarrow> w))
              else if diff < HOT_MAX then ''HOT''
              else if COLD_MIN < diff then ''COLD''
              else strip (''flank '' @ (case dir_word_from_heading hdg of None \<Rightarrow> '''' | Some w \<Rightarrow> w)))
      | _ \<Rightarrow> ''UNK'')"

section \<open>Telemetry objects\<close>

text \<open>
  Modelled from the spec: the classes of \<open>acmi_parse.py\<close>, which is not among the sources.
  An entity carries an identifier and optional properties; a property the feed did not
  report is \<open>None\<close>.  Every entity has the attribute \<open>T\<close>, whose value is a transform
  record or \<open>None\<close>; each field of a transform is optional.
\<close>

record transform =
  U :: "real option"
  V :: "real option"
  Longitude :: "real option"
  Latitude :: "real option"
  Altitude :: "real option"
  Heading :: "real option"

record acmi_object =
  object_id :: string
  Type :: "string option"
  Coalition :: "string option"
  Color :: "string option"
  Name :: "string option"
  Callsign :: "string option"
  Pilot :: "string option"
  Group :: "string option"
  Unit :: "string option"
  T :: "transform option"

definition str_or :: "string option \<Rightarrow> string \<Rightarrow> string" where
  \<comment> \<open>\<open>getattr(o, name, "") or d\<close>: the default also replaces an empty string\<close>
  "str_or x d = (case x of None \<Rightarrow> d | Some v \<Rightarrow> (if v = [] then d else v))"

definition t_attr :: "acmi_object \<Rightarrow> (transform \<Rightarrow> real option) \<Rightarrow> real option" where
  \<comment> \<open>\<open>getattr(o.T, name, None)\<close>\<close>
  "t_attr o' f = (case T o' of None \<Rightarrow> None | Some t \<Rightarrow> f t)"

datatype xy_mode = UV real real | LL real real

definition get_xy_mode :: "acmi_object \<Rightarrow> xy_mode option" where
  "get_xy_mode obj =
     (case T obj of None \<Rightarrow> None
      | Some t \<Rightarrow>
          if U t \<notin> {None, Some 0} \<or> V t \<notin> {None, Some 0}
          then Some (UV (case U t of None \<Rightarrow> 0 | Some u \<Rightarrow> u) (case V t of None \<Rightarrow> 0 | Some v \<Rightarrow> v))
          else (case (Longitude t, Latitude t) of
                  (Some lon, Some lat) \<Rightarrow> Some (LL lon lat)
                | _ \<Rightarrow> None))"

definition uv_of :: "acmi_object \<Rightarrow> (real \<times> real) option" where
  "uv_of obj = (case get_xy_mode obj of Some (UV u v) \<Rightarrow> Some (u, v) | _ \<Rightarrow> None)"

section \<open>Labels\<close>

definition ends_digit_dash_digit :: "string \<Rightarrow> bool" where
  \<comment> \<open>\<open>re.search(r'\\d-\\d$', p)\<close> on a stripped string\<close>
  "ends_digit_dash_digit p =
     (case rev p of d2 # dash # d1 # _ \<Rightarrow> is_digit d1 \<and> dash = CHR ''-'' \<and> is_digit d2
      | _ \<Rightarrow> False)"

definition is_sep :: "char \<Rightarrow> bool" where
  \<comment> \<open>the class \<open>[\\s\\-_]\<close>\<close>
  "is_sep c = (is_space c \<or> c = CHR ''-'' \<or> c = CHR ''_'')"

definition match_two_digits :: "string \<Rightarrow> (string \<times> char \<times> char) option" where
  \<comment> \<open>\<open>re.match(r'^([A-Za-z]+)[\\s\\-_]*?(\\d)\\s*[-]?\\s*(\\d)\\s*$', p)\<close>: the three groups\<close>
  "match_two_digits p =
     (let name = takeWhile is_alpha p;
          r1 = dropWhile is_sep (dropWhile is_alpha p)
      in if name = [] then None
         else (case r1 of [] \<Rightarrow> None
               | d1 # r2 \<Rightarrow>
                   if \<not> is_digit d1 then None
                   else (let r3 = dropWhile is_space r2;
                             r4 = (case r3 of [] \<Rightarrow> [] | c # cs \<Rightarrow> if c = CHR ''-'' then cs else c # cs);
                             r5 = dropWhile is_space r4
                         in (case r5 of [] \<Rightarrow> None
                             | d2 # r6 \<Rightarrow>
                                 if is_digit d2 \<and> list_all is_space r6 then Some (name, d1, d2)
                                 else None))))"

definition match_one_digit :: "string \<Rightarrow> (string \<times> char) option" where
  \<comment> \<open>\<open>re.match(r'^([A-Za-z]+)[\\s\\-_]*?(\\d)\\s*$', p)\<close>: the two groups\<close>
  "match_one_digit p =
     (let name = takeWhile is_alpha p;
          r1 = dropWhile is_sep (dropWhile is_alpha p)
      in if name = [] then None
         else (case r1 of [] \<Rightarrow> None
               | d1 # r2 \<Rightarrow> if is_digit d1 \<and> list_all is_space r2 then Some (name, d1) else None))"

definition pilot_to_callsign :: "string \<Rightarrow> string option" where
  "pilot_to_callsign p0 =
     (if p0 = [] then None
      else (let p = strip p0
            in if ends_digit_dash_digit p then Some p
               else (case match_two_digits p of
                       Some (n, a, b) \<Rightarrow> Some (n @ '' '' @ [a] @ ''-'' @ [b])
                     | None \<Rightarrow>
                         (case match_one_digit p of
                            Some (n, a) \<Rightarrow> Some (n @ '' '' @ [a])
                          | None \<Rightarrow> Some p))))"

definition airframe_looks_generic :: "string \<Rightarrow> bool" where
  \<comment> \<open>\<open>^(?:[A-Z]{1,3}-)?[A-Za-z0-9\\-]+$\<close> on a stripped string: the optional group only
      takes characters of the final class, so the match is a non-empty run of that class\<close>
  "airframe_looks_generic s =
     (s \<noteq> [] \<and> list_all (\<lambda>c. is_alpha c \<or> is_digit c \<or> c = CHR ''-'') s)"

definition nonblank :: "string option \<Rightarrow> bool" where
  \<comment> \<open>\<open>v and str(v).strip()\<close>\<close>
  "nonblank v = (case v of None \<Rightarrow> False | Some s \<Rightarrow> s \<noteq> [] \<and> strip s \<noteq> [])"

definition stripped :: "string option \<Rightarrow> string" where
  \<comment> \<open>\<open>str(v).strip()\<close> of a property that is present\<close>
  "stripped v = (case v of None \<Rightarrow> [] | Some s \<Rightarrow> strip s)"

definition airframe_label :: "acmi_object \<Rightarrow> string" where
  \<comment> \<open>the tail of \<open>friendly_label\<close>: Group, Unit, then the cleaned display name\<close>
  "airframe_label o' =
     (if nonblank (Group o') then stripped (Group o')
      else if nonblank (Unit o') then stripped (Unit o')
      else if nonblank (Name o') then
        (let s = stripped (Name o')
         in if airframe_looks_generic s \<and>
               list_ex (\<lambda>x. py_in x s)
                 [''F-'', ''MiG'', ''Su-'', ''KC-'', ''B-'', ''C-'', ''Mirage'', ''J-'', ''PL-'']
            then ''Fighter'' else s)
      else ''Fighter'')"

definition friendly_label :: "acmi_object \<Rightarrow> string" where
  "friendly_label o' =
     (if nonblank (Callsign o') then stripped (Callsign o')
      else (case (case Pilot o' of None \<Rightarrow> None | Some p \<Rightarrow> pilot_to_callsign p) of
              Some lbl \<Rightarrow> if lbl \<noteq> [] then lbl else airframe_label o'
            | None \<Rightarrow> airframe_label o'))"

section \<open>World state\<close>

text \<open>
  A Python dict is an association list in insertion order: assigning to a key that is
  present keeps its place, a new key goes to the end.  A Python set of identifiers is a
  list without duplicates (the order in which Python iterates over a set is arbitrary).
\<close>

fun dict_set :: "('k \<times> 'v) list \<Rightarrow> 'k \<Rightarrow> 'v \<Rightarrow> ('k \<times> 'v) list" where
  "dict_set [] k v = [(k, v)]"
| "dict_set ((k', v') # d) k v = (if k' = k then (k, v) # d else (k', v') # dict_set d k v)"

definition dict_pop :: "('k \<times> 'v) list \<Rightarrow> 'k \<Rightarrow> ('k \<times> 'v) list" where
  "dict_pop d k = filter (\<lambda>kv. fst kv \<noteq> k) d"

definition dict_get :: "('k \<times> 'v) list \<Rightarrow> 'k \<Rightarrow> 'v option" where
  "dict_get d k = map_of d k"

definition dict_values :: "('k \<times> 'v) list \<Rightarrow> 'v list" where
  "dict_values d = map snd d"

definition set_add :: "'a list \<Rightarrow> 'a \<Rightarrow> 'a list" where
  "set_add s x = (if x \<in> set s then s else s @ [x])"

definition set_discard :: "'a list \<Rightarrow> 'a \<Rightarrow> 'a list" where
  "set_discard s x = filter (\<lambda>y. y \<noteq> x) s"

record track_wrap =
  obj :: acmi_object
  home_uv :: "(real \<times> real) option"
  last_u :: "real option"
  last_v :: "real option"
  last_t :: "real option"
  spd_mps :: real

definition TrackWrap :: "acmi_object \<Rightarrow> track_wrap" where
  "TrackWrap ob =
     \<lparr>obj = ob, home_uv = None, last_u = t_attr ob U, last_v = t_attr ob V,
      last_t = None, spd_mps = 0\<rparr>"

definition update_speed :: "track_wrap \<Rightarrow> real \<Rightarrow> track_wrap" where
  "update_speed tr now =
     (case T (obj tr) of None \<Rightarrow> tr
      | Some t \<Rightarrow>
          (case last_t tr of
             None \<Rightarrow> tr\<lparr>last_t := Some now, last_u := U t, last_v := V t\<rparr>
           | Some lt \<Rightarrow>
               (case (U t, V t, last_u tr, last_v tr) of
                  (Some u, Some v, Some lu, Some lv) \<Rightarrow>
                    (let dt = max (1 / 10 ^ 6) (now - lt)
                     in tr\<lparr>spd_mps := hypot ((u - lu) / dt) ((v - lv) / dt),
                           last_t := Some now, last_u := Some u, last_v := Some v\<rparr>)
                | _ \<Rightarrow> tr)))"

record cap_site =
  name :: string
  center_uv :: "real \<times> real"
  radius_nm :: real
  alt_lo_ft :: real
  alt_hi_ft :: real
  assigned_ids :: "string list"

definition CAPSite :: "string \<Rightarrow> real \<times> real \<Rightarrow> real \<Rightarrow> real \<Rightarrow> real \<Rightarrow> cap_site" where
  "CAPSite nm c r lo hi =
     \<lparr>name = nm, center_uv = c, radius_nm = r, alt_lo_ft = lo, alt_hi_ft = hi, assigned_ids = []\<rparr>"

record push_plan =
  active :: bool
  brg :: "int option"
  rng :: "int option"
  target_uv :: "(real \<times> real) option"
  exec_time :: "real option"
  created_at :: "real option"

definition PushPlan :: push_plan where
  "PushPlan = \<lparr>active = False, brg = None, rng = None, target_uv = None, exec_time = None,
               created_at = None\<rparr>"

record world_state =
  time :: real
  objects :: "(string \<times> acmi_object) list"
  tracks :: "(string \<times> track_wrap) list"
  last_seen :: "(string \<times> real) list"
  bullseye_by_coal :: "(string \<times> string) list"
  global_props :: "(string \<times> string) list"
  ttl :: real
  missiles :: "(string \<times> acmi_object) list"
  missile_alerted_ids :: "string list"
  cap_sites :: "(string \<times> cap_site) list"
  push_plan :: push_plan

definition WorldState :: world_state where
  "WorldState = \<lparr>time = 0, objects = [], tracks = [], last_seen = [], bullseye_by_coal = [],
                  global_props = [], ttl = 10, missiles = [], missile_alerted_ids = [], cap_sites = [],
                  push_plan = PushPlan\<rparr>"

definition coalition_of :: "acmi_object \<Rightarrow> string" where
  "coalition_of o' =
     (let c = str_or (Coalition o') ''''
      in if list_ex (\<lambda>tag. py_in tag c) BLUE_HINTS then ''Blue''
         else if list_ex (\<lambda>tag. py_in tag c) RED_HINTS then ''Red''
         else (let color = lower (str_or (Color o') '''')
               in if color \<in> set [''blue'', ''lightblue'', ''cyan'', ''turquoise''] then ''Blue''
                  else if color \<in> set [''red'', ''orange'', ''maroon''] then ''Red''
                  else if list_ex (\<lambda>h. py_in h (str_or (Name o') '''')) TANKER_HINTS then ''Blue''
                  else ''Unknown''))"

definition is_missile :: "acmi_object \<Rightarrow> bool" where
  \<comment> \<open>the test shared by \<open>upsert\<close> and \<open>_check_missile_birth\<close>\<close>
  "is_missile ob =
     (let t = str_or (Type ob) ''''
      in (py_in ''Weapon'' t \<and> (py_in ''Missile'' t \<or> py_in ''Guided'' t))
         \<or> list_ex (\<lambda>h. py_in h (str_or (Name ob) '''')) MISSILE_HINTS)"

definition learn_home :: "track_wrap \<Rightarrow> acmi_object \<Rightarrow> track_wrap" where
  \<comment> \<open>the home-plate block of \<open>upsert\<close>, on the entity's track\<close>
  "learn_home tr ob =
     (case (home_uv tr, t_attr ob U, t_attr ob V, t_attr ob Altitude) of
        (None, Some u, Some v, Some alt) \<Rightarrow>
          (let kts = spd_mps tr * 1.943844492
           in if kts < 60 \<and> (alt < 300 \<or> alt \<noteq> alt) then tr\<lparr>home_uv := Some (u, v)\<rparr> else tr)
      | _ \<Rightarrow> tr)"

definition upsert :: "world_state \<Rightarrow> acmi_object \<Rightarrow> real \<Rightarrow> world_state" where
  "upsert ws ob now =
     (let oid = object_id ob;
          ws1 = ws\<lparr>objects := dict_set (objects ws) oid ob,
                   last_seen := dict_set (last_seen ws) oid now\<rparr>;
          tr0 = (case dict_get (tracks ws1) oid of
                   None \<Rightarrow> TrackWrap ob
                 | Some tr \<Rightarrow> tr\<lparr>obj := ob\<rparr>);
          ws2 = ws1\<lparr>tracks := dict_set (tracks ws1) oid tr0\<rparr>;
          t = str_or (Type ob) '''';
          ws3 = (if py_in ''Navaid+Static+Bullseye'' t \<or> py_in ''Navaid+Bullseye'' t
                 then ws2\<lparr>bullseye_by_coal :=
                             dict_set (bullseye_by_coal ws2) (str_or (Coalition ob) ''Unknown'') oid\<rparr>
                 else ws2);
          ws4 = (if py_in ''Air'' t
                 then ws3\<lparr>tracks := dict_set (tracks ws3) oid (learn_home tr0 ob)\<rparr>
                 else ws3)
      in if is_missile ob then ws4\<lparr>missiles := dict_set (missiles ws4) oid ob\<rparr> else ws4)"

definition remove :: "world_state \<Rightarrow> string \<Rightarrow> world_state" where
  "remove ws oid =
     ws\<lparr>objects := dict_pop (objects ws) oid,
        tracks := dict_pop (tracks ws) oid,
        last_seen := dict_pop (last_seen ws) oid,
        missiles := dict_pop (missiles ws) oid,
        bullseye_by_coal := filter (\<lambda>kv. snd kv \<noteq> oid) (bullseye_by_coal ws),
        cap_sites := map (\<lambda>(k, cap). (k, cap\<lparr>assigned_ids := set_discard (assigned_ids cap) oid\<rparr>))
                         (cap_sites ws)\<rparr>"

definition cull_stale :: "world_state \<Rightarrow> real \<Rightarrow> world_state" where
  "cull_stale ws now =
     fold (\<lambda>(oid, t) w. if ttl w < now - t then remove w oid else w) (last_seen ws) ws"

definition get_air :: "world_state \<Rightarrow> acmi_object list" where
  "get_air ws = filter (\<lambda>o'. py_in ''Air'' (str_or (Type o') '''')) (dict_values (objects ws))"

definition blues :: "world_state \<Rightarrow> acmi_object list" where
  "blues ws = filter (\<lambda>o'. coalition_of o' = ''Blue'') (get_air ws)"

definition reds :: "world_state \<Rightarrow> acmi_object list" where
  "reds ws = filter (\<lambda>o'. coalition_of o' = ''Red'') (get_air ws)"

definition unks :: "world_state \<Rightarrow> acmi_object list" where
  "unks ws = filter (\<lambda>o'. coalition_of o' = ''Unknown'') (get_air ws)"

fun first_some :: "('a \<Rightarrow> 'b option) \<Rightarrow> 'a list \<Rightarrow> 'b option" where
  \<comment> \<open>a \<open>for\<close> loop that returns at the first hit\<close>
  "first_some f [] = None"
| "first_some f (x # xs) = (case f x of Some y \<Rightarrow> Some y | None \<Rightarrow> first_some f xs)"

definition find_bull :: "world_state \<Rightarrow> acmi_object option" where
  "find_bull ws =
     (case first_some
             (\<lambda>pref. case dict_get (bullseye_by_coal ws) pref of
                        None \<Rightarrow> None
                      | Some oid \<Rightarrow> if oid \<noteq> [] then dict_get (objects ws) oid else None)
             [''Allies'', ''Blue'', ''ROK'', ''NATO'', ''Training'', ''USA'', ''U.S.''] of
        Some b \<Rightarrow> Some b
      | None \<Rightarrow>
          (case first_some (\<lambda>oid. dict_get (objects ws) oid) (dict_values (bullseye_by_coal ws)) of
             Some b \<Rightarrow> Some b
           | None \<Rightarrow> (case blues ws of [] \<Rightarrow> None | b # _ \<Rightarrow> Some b)))"

definition nearest_tanker :: "world_state \<Rightarrow> acmi_object option" where
  "nearest_tanker ws =
     (case filter (\<lambda>o'. list_ex (\<lambda>h. py_in h (str_or (Name o') '''')) TANKER_HINTS) (blues ws) of
        [] \<Rightarrow> None | c # _ \<Rightarrow> Some c)"

section \<open>Grouping and picture\<close>

record item =
  it_o :: acmi_object
  it_u :: real
  it_v :: real
  it_alt_ft :: "real option"

definition make_items :: "acmi_object list \<Rightarrow> item list" where
  \<comment> \<open>the first loop of \<open>group_contacts\<close>: contacts without a planar position are skipped\<close>
  "make_items contacts =
     concat (map (\<lambda>o'. case get_xy_mode o' of
                          Some (UV u v) \<Rightarrow>
                            [\<lparr>it_o = o', it_u = u, it_v = v,
                              it_alt_ft = (case t_attr o' Altitude of None \<Rightarrow> None
                                           | Some alt_m \<Rightarrow> Some (alt_m * M_TO_FT))\<rparr>]
                        | _ \<Rightarrow> []) contacts)"

definition or0 :: "real option \<Rightarrow> real" where
  \<comment> \<open>\<open>x or 0\<close>\<close>
  "or0 x = (case x of None \<Rightarrow> 0 | Some v \<Rightarrow> v)"

definition close :: "real \<Rightarrow> real \<Rightarrow> item \<Rightarrow> item \<Rightarrow> bool" where
  "close rng_nm alt_ft a b =
     (let dr_nm = hypot (it_u a - it_u b) (it_v a - it_v b) / EARTH_M_PER_NM;
          dz_ft = \<bar>or0 (it_alt_ft a) - or0 (it_alt_ft b)\<bar>
      in dr_nm \<le> rng_nm \<and> dz_ft \<le> alt_ft)"

definition near :: "item list \<Rightarrow> real \<Rightarrow> real \<Rightarrow> nat \<Rightarrow> nat list \<Rightarrow> bool" where
  \<comment> \<open>\<open>j not in cluster\<close> and \<open>any(close(items[j], items[k]) for k in list(cluster))\<close>\<close>
  "near items rng_nm alt_ft j c =
     (j \<notin> set c \<and> list_ex (\<lambda>k. close rng_nm alt_ft (items ! j) (items ! k)) c)"

definition sweep_over :: "item list \<Rightarrow> real \<Rightarrow> real \<Rightarrow> nat list \<Rightarrow> nat list \<Rightarrow> nat list" where
  \<comment> \<open>the body of the \<open>for j\<close> loop, over the indices \<open>js\<close>\<close>
  "sweep_over items rng_nm alt_ft js cluster =
     fold (\<lambda>j c. if near items rng_nm alt_ft j c then c @ [j] else c) js cluster"

definition sweep :: "item list \<Rightarrow> real \<Rightarrow> real \<Rightarrow> nat list \<Rightarrow> nat list" where
  \<comment> \<open>one pass of \<open>for j in range(len(items))\<close> over the growing cluster\<close>
  "sweep items rng_nm alt_ft cluster = sweep_over items rng_nm alt_ft [0..<length items] cluster"

lemma sweep_over_Nil [simp]: "sweep_over items r a [] c = c"
  by (simp add: sweep_over_def)

lemma sweep_over_Cons [simp]:
  "sweep_over items r a (j # js) c =
     sweep_over items r a js (if near items r a j c then c @ [j] else c)"
  by (simp add: sweep_over_def)

lemma sweep_over_grows: "set c \<subseteq> set (sweep_over items r a js c)"
proof (induction js arbitrary: c)
  case Nil
  show ?case by simp
next
  case (Cons j js)
  show ?case using Cons.IH [of "if near items r a j c then c @ [j] else c"]
    by (auto split: if_splits)
qed

lemma sweep_over_bound: "set (sweep_over items r a js c) \<subseteq> set c \<union> set js"
proof (induction js arbitrary: c)
  case Nil
  show ?case by simp
next
  case (Cons j js)
  show ?case using Cons.IH [of "if near items r a j c then c @ [j] else c"]
    by (auto split: if_splits)
qed

lemma sweep_over_length: "length c \<le> length (sweep_over items r a js c)"
proof (induction js arbitrary: c)
  case Nil
  show ?case by simp
next
  case (Cons j js)
  show ?case using Cons.IH [of "if near items r a j c then c @ [j] else c"]
    by (auto split: if_splits)
qed

lemma sweep_over_same:
  "length (sweep_over items r a js c) = length c \<Longrightarrow> sweep_over items r a js c = c"
proof (induction js arbitrary: c)
  case Nil
  show ?case by simp
next
  case (Cons j js)
  show ?case
  proof (cases "near items r a j c")
    case True
    have "length (c @ [j]) \<le> length (sweep_over items r a js (c @ [j]))"
      by (rule sweep_over_length)
    with Cons.prems True show ?thesis by simp
  next
    case False
    with Cons show ?thesis by simp
  qed
qed

lemma sweep_over_distinct:
  "distinct c \<Longrightarrow> distinct (sweep_over items r a js c)"
proof (induction js arbitrary: c)
  case Nil
  then show ?case by simp
next
  case (Cons j js)
  show ?case
  proof (cases "near items r a j c")
    case True
    then have "distinct (c @ [j])" using Cons.prems by (auto simp: near_def)
    from Cons.IH [OF this] True show ?thesis by simp
  next
    case False
    with Cons show ?thesis by simp
  qed
qed

lemma sweep_over_new:
  "sweep_over items r a js c \<noteq> c
   \<Longrightarrow> \<exists>j \<in> set js. j \<notin> set c \<and> j \<in> set (sweep_over items r a js c)"
proof (induction js arbitrary: c)
  case Nil
  then show ?case by simp
next
  case (Cons j js)
  show ?case
  proof (cases "near items r a j c")
    case True
    have "set (c @ [j]) \<subseteq> set (sweep_over items r a js (c @ [j]))"
      by (rule sweep_over_grows)
    with True show ?thesis by (auto simp: near_def)
  next
    case False
    with Cons.prems have "sweep_over items r a js c \<noteq> c" by simp
    from Cons.IH [OF this] False show ?thesis by auto
  qed
qed

function grow :: "item list \<Rightarrow> real \<Rightarrow> real \<Rightarrow> nat list \<Rightarrow> nat list" where
  \<comment> \<open>the loop \<open>while changed\<close>: passes are repeated until one adds nothing\<close>
  "grow items rng_nm alt_ft cluster =
     (let c' = sweep items rng_nm alt_ft cluster
      in if c' = cluster then cluster else grow items rng_nm alt_ft c')"
  by pat_completeness auto
termination
proof (relation "measure (\<lambda>(items, r, a, c). card ({0..<length items} - set c))")
  show "wf (measure (\<lambda>(items, r, a, c). card ({0..<length items} - set c)))" by simp
next
  fix items :: "item list" and rng_nm alt_ft :: real and cluster c' :: "nat list"
  assume c': "c' = sweep items rng_nm alt_ft cluster" and ne: "c' \<noteq> cluster"
  have sub: "set cluster \<subseteq> set c'" unfolding c' sweep_def by (rule sweep_over_grows)
  obtain j where j: "j < length items" "j \<notin> set cluster" "j \<in> set c'"
    using sweep_over_new [of items rng_nm alt_ft "[0..<length items]" cluster] ne
    unfolding c' sweep_def by auto
  have "{0..<length items} - set c' \<subset> {0..<length items} - set cluster"
    using sub j by auto
  then have "card ({0..<length items} - set c') < card ({0..<length items} - set cluster)"
    by (intro psubset_card_mono) auto
  then show "((items, rng_nm, alt_ft, c'), (items, rng_nm, alt_ft, cluster))
        \<in> measure (\<lambda>(items, r, a, c). card ({0..<length items} - set c))"
    by simp
qed

declare grow.simps [simp del]

fun group_loop :: "item list \<Rightarrow> real \<Rightarrow> real \<Rightarrow> nat list \<Rightarrow> nat list \<Rightarrow> nat list list" where
  \<comment> \<open>the loop \<open>for i in range(len(items))\<close> with the set \<open>used\<close>; a group is the sorted
      list of the indices of its items\<close>
  "group_loop items rng_nm alt_ft [] used = []"
| "group_loop items rng_nm alt_ft (i # rest) used =
     (if i \<in> set used then group_loop items rng_nm alt_ft rest used
      else (let cluster = grow items rng_nm alt_ft [i]
            in sort cluster # group_loop items rng_nm alt_ft rest (used @ cluster)))"

definition group_indices :: "item list \<Rightarrow> real \<Rightarrow> real \<Rightarrow> nat list list" where
  "group_indices items rng_nm alt_ft = group_loop items rng_nm alt_ft [0..<length items] []"

definition group_contacts :: "acmi_object list \<Rightarrow> real \<Rightarrow> real \<Rightarrow> item list list" where
  "group_contacts contacts rng_nm alt_ft =
     (let items = make_items contacts
      in map (map (\<lambda>k. items ! k)) (group_indices items rng_nm alt_ft))"

record summary =
  s_size :: nat
  s_brg :: int
  s_rng_nm :: real
  s_lo_ang :: "int option"
  s_hi_ang :: "int option"
  s_aspect :: string
  s_id :: string
  s_centroid_uv :: "real \<times> real"

definition ident_of :: "bool \<Rightarrow> string \<Rightarrow> string" where
  "ident_of wfree coal =
     (if wfree \<and> coal = ''Red'' then ''Hostile''
      else if coal = ''Blue'' then ''Friendly''
      else if coal = ''Red'' then ''Bandit'' else ''Bogey'')"

definition count_ident :: "(string \<times> nat) list \<Rightarrow> string \<Rightarrow> (string \<times> nat) list" where
  \<comment> \<open>\<open>id_counts[ident] += 1\<close> on a \<open>defaultdict(int)\<close>\<close>
  "count_ident d k = dict_set d k (case dict_get d k of None \<Rightarrow> 1 | Some n \<Rightarrow> n + 1)"

fun max_count :: "(string \<times> nat) list \<Rightarrow> (string \<times> nat) option" where
  \<comment> \<open>\<open>max(items, key=lambda kv: kv[1])\<close>: the first entry with the largest count\<close>
  "max_count [] = None"
| "max_count (kv # rest) =
     (case max_count rest of
        None \<Rightarrow> Some kv
      | Some best \<Rightarrow> if snd kv < snd best then Some best else Some kv)"

definition summarize_group :: "real \<times> real \<Rightarrow> bool \<Rightarrow> item list \<Rightarrow> summary" where
  \<comment> \<open>the body of the loop of \<open>summarize_groups\<close>; a group is never empty\<close>
  "summarize_group bull_uv wfree g =
     (let sz = length g;
          cu = sum_list (map it_u g) / real sz;
          cv = sum_list (map it_v g) / real sz;
          br = brg_rng_from_xy (fst bull_uv) (snd bull_uv) cu cv;
          alts = concat (map (\<lambda>it. case it_alt_ft it of None \<Rightarrow> [] | Some a \<Rightarrow> [a]) g);
          lo = (if alts = [] then None else Some (py_round (Min (set alts) / 1000)));
          hi = (if alts = [] then None else Some (py_round (Max (set alts) / 1000)));
          id_counts = fold (\<lambda>it d. count_ident d (ident_of wfree (coalition_of (it_o it)))) g [];
          hdgs = concat (map (\<lambda>it. case norm_head (t_attr (it_o it) Heading) of
                                        None \<Rightarrow> [] | Some h \<Rightarrow> [h]) g);
          ident = (case max_count id_counts of None \<Rightarrow> ''Bogey'' | Some kv \<Rightarrow> fst kv);
          avg_hdg = (if hdgs = [] then None else Some (sum_list hdgs / real (length hdgs)))
      in \<lparr>s_size = sz, s_brg = fst br, s_rng_nm = snd br, s_lo_ang = lo, s_hi_ang = hi,
          s_aspect = aspect_word avg_hdg (Some (fst br)), s_id = ident,
          s_centroid_uv = (cu, cv)\<rparr>)"

definition summarize_groups :: "item list list \<Rightarrow> real \<times> real \<Rightarrow> bool \<Rightarrow> summary list" where
  \<comment> \<open>\<open>summaries.sort(key=...)\<close> is a stable sort, as \<open>sort_key\<close> is\<close>
  "summarize_groups groups bull_uv wfree = sort_key s_rng_nm (map (summarize_group bull_uv wfree) groups)"

definition size_word :: "nat \<Rightarrow> string" where
  "size_word n =
     (if n = 1 then ''single'' else if n = 2 then ''two-ship'' else if n = 3 then ''three-ship''
      else if n = 4 then ''four-ship'' else str_int (int n) @ ''-ship'')"

definition labels :: "string list" where
  "labels = [''Nearest group'', ''Second group'', ''Third group'', ''Fourth group'', ''Fifth group'']"

definition group_line :: "string \<Rightarrow> summary \<Rightarrow> string" where
  \<comment> \<open>the line appended for one group in \<open>format_picture\<close>\<close>
  "group_line label g =
     (let sz = size_word (s_size g);
          heavy = (if 3 \<le> s_size g then '' HEAVY'' else []);
          ang = (case (s_lo_ang g, s_hi_ang g) of
                   (Some lo, Some hi) \<Rightarrow>
                     if lo = hi then ''angels '' @ str_int lo
                     else ''angels '' @ str_int lo @ ''-'' @ str_int hi
                 | _ \<Rightarrow> ''angels UNK'')
      in label @ '' BULLS '' @ fmt_03d (s_brg g) @ '' for '' @ str_int (py_round (s_rng_nm g))
         @ '', '' @ sz @ heavy @ '', '' @ lower (s_id g) @ '', '' @ ang @ '', '' @ s_aspect g @ ''. '')"

definition format_picture :: "summary list \<Rightarrow> string" where
  "format_picture summaries =
     (let interest = filter (\<lambda>s. s_id s \<in> set [''Bogey'', ''Bandit'', ''Hostile'']) summaries
      in if interest = [] then ''PICTURE: CLEAN.''
         else (let n = length interest;
                   lead = (if n = 1 then ''single group'' else if n = 2 then ''two groups''
                           else if n = 3 then ''three groups'' else str_int (int n) @ '' groups'')
               in strip (concat ((''PICTURE: '' @ lead @ ''. '')
                                 # map (\<lambda>(l, g). group_line l g) (zip labels (take 5 interest))))))"

section \<open>Fighter-centric operations\<close>

definition py_norm :: "string \<Rightarrow> string" where
  \<comment> \<open>\<open>_norm\<close>: lower case, then only \<open>[a-z0-9]\<close> is kept\<close>
  "py_norm s = filter (\<lambda>c. is_lower c \<or> is_digit c) (lower s)"

definition fields_of :: "acmi_object \<Rightarrow> string list" where
  \<comment> \<open>the generator \<open>fields(o)\<close> of \<open>find_callsign\<close>\<close>
  "fields_of o' =
     str_or (Name o') []
     # concat (map (\<lambda>v. case v of None \<Rightarrow> [] | Some s \<Rightarrow> if s = [] then [] else [s])
                   [Callsign o', Pilot o', Unit o', Group o'])"

definition find_callsign :: "acmi_object list \<Rightarrow> string option \<Rightarrow> acmi_object option" where
  "find_callsign objs callsign_substr =
     (case callsign_substr of
        None \<Rightarrow> None
      | Some cs \<Rightarrow>
          if cs = [] then None
          else (let q = py_norm cs
                in first_some (\<lambda>o'. if list_ex (\<lambda>s. q \<noteq> [] \<and> py_in q (py_norm s)) (fields_of o')
                                      then Some o' else None) objs))"

definition nearest_from :: "real \<times> real \<Rightarrow> acmi_object list \<Rightarrow> acmi_object option \<times> real" where
  \<comment> \<open>the loop shared by \<open>nearest_threat_to_fighter\<close>, \<open>declare_bulls\<close> and
      \<open>_check_missile_birth\<close>: \<open>best = None; best_rng = 1e18\<close>, then the strictly nearer wins\<close>
  "nearest_from p objs =
     fold (\<lambda>o' (best, best_rng).
             case uv_of o' of
               None \<Rightarrow> (best, best_rng)
             | Some ouv \<Rightarrow>
                 (let r = snd (brg_rng_from_xy (fst p) (snd p) (fst ouv) (snd ouv))
                  in if r < best_rng then (Some o', r) else (best, best_rng)))
          objs (None, 10 ^ 18)"

definition nearest_threat_to_fighter :: "world_state \<Rightarrow> acmi_object \<Rightarrow> acmi_object option" where
  "nearest_threat_to_fighter w fighter =
     (case uv_of fighter of
        None \<Rightarrow> None
      | Some fuv \<Rightarrow> fst (nearest_from fuv (reds w @ unks w)))"

definition braa_from_fighter_to_target :: "acmi_object \<Rightarrow> acmi_object \<Rightarrow> string option" where
  "braa_from_fighter_to_target fighter target =
     (case (uv_of fighter, uv_of target) of
        (Some fuv, Some tuv) \<Rightarrow>
          (let br = brg_rng_from_xy (fst fuv) (snd fuv) (fst tuv) (snd tuv);
               alt_txt = threat_alt_phrase (t_attr target Altitude);
               hdg = norm_head (t_attr target Heading);
               asp = aspect_word hdg (Some (fst br))
           in Some (''BRAA '' @ fmt_03d (fst br) @ ''/'' @ str_int (py_round (snd br)) @ '', ''
                    @ alt_txt @ '', '' @ asp @ ''.''))
      | _ \<Rightarrow> None)"

definition vector_from_fighter_to_uv :: "acmi_object \<Rightarrow> (real \<times> real) option \<Rightarrow> string option" where
  "vector_from_fighter_to_uv fighter tuv =
     (case (uv_of fighter, tuv) of
        (Some fuv, Some t) \<Rightarrow>
          (let br = brg_rng_from_xy (fst fuv) (snd fuv) (fst t) (snd t)
           in Some (''VECTOR '' @ fmt_03d (fst br) @ '', '' @ str_int (py_round (snd br)) @ '' miles.''))
      | _ \<Rightarrow> None)"

definition buv_of :: "world_state \<Rightarrow> (real \<times> real) option" where
  \<comment> \<open>\<open>bull = ws.find_bull(); buv = uv_of(bull) if bull else None\<close>\<close>
  "buv_of w = (case find_bull w of None \<Rightarrow> None | Some bull \<Rightarrow> uv_of bull)"

definition alpha_check_to_uv :: "world_state \<Rightarrow> (real \<times> real) option \<Rightarrow> string option" where
  "alpha_check_to_uv w tuv =
     (case (buv_of w, tuv) of
        (Some buv, Some t) \<Rightarrow>
          (let br = brg_rng_from_xy (fst buv) (snd buv) (fst t) (snd t)
           in Some (''ALPHA CHECK: BULLS '' @ fmt_03d (fst br) @ '' for '' @ str_int (py_round (snd br)) @ ''.''))
      | _ \<Rightarrow> None)"

section \<open>CAP and PUSH helpers\<close>

fun nat_of_digits :: "nat \<Rightarrow> string \<Rightarrow> nat" where
  \<comment> \<open>\<open>int(s)\<close> on a string of decimal digits, with an accumulator\<close>
  "nat_of_digits acc [] = acc"
| "nat_of_digits acc (c # cs) =
     nat_of_digits (10 * acc + length (takeWhile (\<lambda>d. d \<noteq> c) ''0123456789'')) cs"

definition parse_alt_block :: "string \<Rightarrow> real \<times> real" where
  \<comment> \<open>\<open>_parse_alt_block\<close>, the pattern \<open>^\\s*(\\d{1,2})\\s*-\\s*(\\d{1,2})\\s*$\<close>\<close>
  "parse_alt_block txt =
     (let r0 = dropWhile is_space txt;
          g1 = takeWhile is_digit r0;
          r1 = dropWhile is_space (dropWhile is_digit r0)
      in (case r1 of
            [] \<Rightarrow> (20000, 40000)
          | c # r2 \<Rightarrow>
              (let r3 = dropWhile is_space r2;
                   g2 = takeWhile is_digit r3;
                   r4 = dropWhile is_digit r3
               in if c = CHR ''-'' \<and> length g1 \<in> {1, 2} \<and> length g2 \<in> {1, 2} \<and> list_all is_space r4
                  then (let lo = real (max 0 (nat_of_digits 0 g1)) * 1000;
                            hi = max (lo + 1000) (real (nat_of_digits 0 g2) * 1000)
                        in (lo, hi))
                  else (20000, 40000))))"

definition all_digits :: "string \<Rightarrow> bool" where
  \<comment> \<open>the pattern \<open>^(\\d+)$\<close>\<close>
  "all_digits s = (s \<noteq> [] \<and> list_all is_digit s)"

definition digits_then :: "char \<Rightarrow> string \<Rightarrow> string option" where
  \<comment> \<open>the patterns \<open>^(\\d+)\\s*s$\<close> and \<open>^(\\d+)\\s*m$\<close>: the group\<close>
  "digits_then u s =
     (let g = takeWhile is_digit s
      in if g \<noteq> [] \<and> dropWhile is_space (dropWhile is_digit s) = [u] then Some g else None)"

definition min_sec :: "string \<Rightarrow> (string \<times> string) option" where
  \<comment> \<open>the pattern \<open>^(\\d+):(\\d{1,2})$\<close>: the two groups\<close>
  "min_sec s =
     (let g1 = takeWhile is_digit s
      in (case dropWhile is_digit s of
            [] \<Rightarrow> None
          | c # g2 \<Rightarrow>
              if g1 \<noteq> [] \<and> c = CHR '':'' \<and> length g2 \<in> {1, 2} \<and> list_all is_digit g2
              then Some (g1, g2) else None))"

definition parse_time_offset :: "string option \<Rightarrow> real option" where
  \<comment> \<open>\<open>_parse_time_offset\<close>\<close>
  "parse_time_offset tstr =
     (case tstr of
        None \<Rightarrow> None
      | Some s \<Rightarrow>
          if s = [] then None
          else (let t = lower (strip s);
                    in_part =
                      (if startswith t ''in '' then
                         (let t2 = strip (drop 3 t)
                          in (case digits_then CHR ''s'' t2 of
                                Some g \<Rightarrow> Some (real (nat_of_digits 0 g))
                              | None \<Rightarrow>
                                  (case digits_then CHR ''m'' t2 of
                                     Some g \<Rightarrow> Some (real (nat_of_digits 0 g) * 60)
                                   | None \<Rightarrow>
                                       if all_digits t2 then Some (real (nat_of_digits 0 t2)) else None)))
                       else None);
                    at_part =
                      (if startswith t ''at +'' then
                         (let t2 = strip (drop 4 t)
                          in (case min_sec t2 of
                                Some (g1, g2) \<Rightarrow>
                                  Some (real (nat_of_digits 0 g1) * 60 + real (nat_of_digits 0 g2))
                              | None \<Rightarrow>
                                  if all_digits t2 then Some (real (nat_of_digits 0 t2)) else None))
                       else None)
                in (case in_part of
                      Some x \<Rightarrow> Some x
                    | None \<Rightarrow>
                        (case at_part of
                           Some x \<Rightarrow> Some x
                         | None \<Rightarrow>
                             if t \<in> set [''now'', ''immediately'', ''0'', ''+0''] then Some 0 else None))))"

section \<open>Controller\<close>

datatype py_error = ValueError | AttributeError | TypeError

record controller =
  ws :: world_state
  hz :: real
  grp_range_nm :: real
  grp_alt_ft :: real
  weapons_free :: bool
  last_emit_tick :: int
  printed :: "string list"
  console_log :: "string list"
  known_ids :: "string list"
  last_merged_tick :: int
  merged_cooldown :: int
  connected :: bool

definition Controller :: controller where
  \<comment> \<open>\<open>Controller.__init__\<close>; \<open>printed\<close> is the standard output written by \<open>log\<close>\<close>
  "Controller =
     \<lparr>ws = WorldState, hz = 1, grp_range_nm = 5, grp_alt_ft = 2000, weapons_free = False,
      last_emit_tick = - 1, printed = [], console_log = [], known_ids = [],
      last_merged_tick = - 9999, merged_cooldown = 10, connected = False\<rparr>"

definition log :: "controller \<Rightarrow> string \<Rightarrow> controller" where
  \<comment> \<open>\<open>print(s)\<close> and the append to a \<open>deque(maxlen=800)\<close>\<close>
  "log c s =
     c\<lparr>printed := printed c @ [s],
       console_log := (let l = console_log c @ [s] in drop (length l - 800) l)\<rparr>"

definition merged_scan :: "acmi_object list \<Rightarrow> acmi_object list \<Rightarrow> string option" where
  \<comment> \<open>the two nested loops of \<open>_check_merged\<close> over \<open>reds\<close> and \<open>blues\<close>, leaving at the
      first pair in range\<close>
  "merged_scan rs bs =
     first_some
       (\<lambda>e. case uv_of e of
               None \<Rightarrow> None
             | Some euv \<Rightarrow>
                 first_some
                   (\<lambda>b. case uv_of b of
                           None \<Rightarrow> None
                         | Some buv \<Rightarrow>
                             if snd (brg_rng_from_xy (fst euv) (snd euv) (fst buv) (snd buv)) \<le> MERGED_NM
                             then Some (''MERGED, '' @ threat_alt_phrase (t_attr e Altitude) @ ''.'')
                             else None)
                   bs)
       rs"

definition check_merged :: "controller \<Rightarrow> int \<Rightarrow> controller" where
  "check_merged c tick_now =
     (if blues (ws c) = [] \<or> reds (ws c) = [] then c
      else (case merged_scan (reds (ws c)) (blues (ws c)) of
              None \<Rightarrow> c
            | Some merged_line \<Rightarrow>
                if merged_cooldown c \<le> tick_now - last_merged_tick c
                then (log c merged_line)\<lparr>last_merged_tick := tick_now\<rparr>
                else c))"

definition check_missile_birth :: "controller \<Rightarrow> acmi_object \<Rightarrow> controller" where
  "check_missile_birth c ob =
     (let oid = object_id ob
      in if oid \<in> set (known_ids c) then c
         else (let c1 = c\<lparr>known_ids := set_add (known_ids c) oid\<rparr>
               in if \<not> is_missile ob then c1
                  else if coalition_of ob = ''Blue'' then c1
                  else (case uv_of ob of
                          None \<Rightarrow> c1
                        | Some muv \<Rightarrow>
                            (case nearest_from muv (blues (ws c1)) of
                               (Some best, best_rng) \<Rightarrow>
                                 if best_rng \<le> MISSILE_ALERT_MAX_RANGE_NM
                                 then (case uv_of best of
                                         None \<Rightarrow> c1
                                       | Some buv \<Rightarrow>
                                           (let br = brg_rng_from_xy (fst buv) (snd buv) (fst muv) (snd muv)
                                            in log c1 (friendly_label best
                                                       @ '', DEFEND! Missile inbound, BRAA ''
                                                       @ fmt_03d (fst br) @ ''/''
                                                       @ str_int (py_round (snd br)) @ ''.'')))
                                 else c1
                             | (None, _) \<Rightarrow> c1))))"

definition recipients :: "world_state \<Rightarrow> string list" where
  \<comment> \<open>\<open>recips |= set(cap.assigned_ids)\<close> over all CAP sites\<close>
  "recipients w = fold (\<lambda>cap r. fold (\<lambda>oid r'. set_add r' oid) (assigned_ids cap) r)
                       (dict_values (cap_sites w)) []"

definition push_line :: "push_plan \<Rightarrow> acmi_object \<Rightarrow> py_error + string" where
  \<comment> \<open>the broadcast line; formatting \<open>None\<close> with \<open>03d\<close>, and \<open>int(None)\<close>, raise\<close>
  "push_line p o' =
     (case (brg p, rng p) of
        (Some b, Some r) \<Rightarrow>
          Inr (friendly_label o' @ '', PUSH, BULLS '' @ fmt_03d b @ '' for '' @ str_int r @ ''.'')
      | _ \<Rightarrow> Inl TypeError)"

fun log_all :: "controller \<Rightarrow> (py_error + string) list \<Rightarrow> py_error + controller" where
  \<comment> \<open>logging line after line; the first line that raises ends the loop\<close>
  "log_all c [] = Inr c"
| "log_all c (Inl e # rest) = Inl e"
| "log_all c (Inr s # rest) = log_all (log c s) rest"

definition try_execute_push :: "controller \<Rightarrow> controller \<times> py_error option" where
  \<comment> \<open>\<open>_try_execute_push\<close>: the state it leaves, and the exception if it raised\<close>
  "try_execute_push c =
     (let p = push_plan (ws c)
      in if \<not> active p then (c, None)
         else if time (ws c) < or0 (exec_time p) then (c, None)
         else (let recips = recipients (ws c)
               in if recips = []
                  then ((log c ''PUSH: no assigned flights.'')
                          \<lparr>ws := (ws c)\<lparr>push_plan := p\<lparr>active := False\<rparr>\<rparr>\<rparr>, None)
                  else (case log_all c
                               (concat (map (\<lambda>oid. case dict_get (objects (ws c)) oid of
                                                       None \<Rightarrow> []
                                                     | Some o' \<Rightarrow> [push_line p o'])
                                            recips)) of
                          Inl e \<Rightarrow> (c, Some e)
                        | Inr c1 \<Rightarrow> (c1\<lparr>ws := (ws c1)\<lparr>push_plan := p\<lparr>active := False\<rparr>\<rparr>\<rparr>, None))))"

section \<open>The ingest loop\<close>

datatype event =
    ACTION_TIME "real option"
  | ACTION_GLOBAL "(string \<times> string) list option"
  | ACTION_REMOVE string
  | ACTION_UPDATE acmi_object

definition norm_heading_of :: "acmi_object \<Rightarrow> acmi_object" where
  \<comment> \<open>\<open>T.Heading = norm_head(T.Heading)\<close>\<close>
  "norm_heading_of ob =
     (case T ob of None \<Rightarrow> ob
      | Some t \<Rightarrow> ob\<lparr>T := Some (t\<lparr>Heading := norm_head (Heading t)\<rparr>)\<rparr>)"

definition on_time :: "controller \<Rightarrow> real option \<Rightarrow> controller \<times> py_error option" where
  \<comment> \<open>the \<open>ACTION_TIME\<close> branch of \<open>_run_loop\<close>\<close>
  "on_time c timestamp =
     (let t = (case timestamp of None \<Rightarrow> time (ws c) | Some x \<Rightarrow> if x = 0 then time (ws c) else x);
          w1 = (ws c)\<lparr>time := t\<rparr>;
          w2 = w1\<lparr>tracks := map (\<lambda>(k, tr). (k, update_speed tr t)) (tracks w1)\<rparr>;
          w3 = cull_stale w2 t;
          c1 = c\<lparr>ws := w3\<rparr>;
          tick = py_int (t * hz c1)
      in if tick \<noteq> last_emit_tick c1
         then try_execute_push (check_merged (c1\<lparr>last_emit_tick := tick\<rparr>) tick)
         else (c1, None))"

definition step :: "controller \<Rightarrow> event \<Rightarrow> controller \<times> py_error option" where
  \<comment> \<open>one pass of the body of the loop of \<open>_run_loop\<close>, on a decoded line\<close>
  "step c ent =
     (case ent of
        ACTION_TIME timestamp \<Rightarrow> on_time c timestamp
      | ACTION_GLOBAL props \<Rightarrow>
          (case props of
             None \<Rightarrow> (c, None)
           | Some ps \<Rightarrow>
               (c\<lparr>ws := (ws c)\<lparr>global_props := fold (\<lambda>(k, v) d. dict_set d k v) ps (global_props (ws c))\<rparr>\<rparr>,
                None))
      | ACTION_REMOVE oid \<Rightarrow> (c\<lparr>ws := remove (ws c) oid\<rparr>, None)
      | ACTION_UPDATE ent0 \<Rightarrow>
          (let ob = norm_heading_of ent0;
               c1 = check_missile_birth c ob
           in (c1\<lparr>ws := upsert (ws c1) ob (time (ws c1))\<rparr>, None)))"

fun run_loop :: "controller \<Rightarrow> event list \<Rightarrow> controller" where
  \<comment> \<open>\<open>_run_loop\<close> over the decoded lines; an exception is logged and ends the loop\<close>
  "run_loop c [] = c"
| "run_loop c (ent # rest) =
     (case step c ent of
        (c1, None) \<Rightarrow> run_loop c1 rest
      | (c1, Some e) \<Rightarrow> (log c1 ''[error] run loop'')\<lparr>connected := False\<rparr>)"

section \<open>Command processing\<close>

text \<open>
  The regular expressions of \<open>parse_command\<close> are not embedded.  A value of \<open>parsed\<close> is
  one of its \<open>return\<close> statements, with the values that statement puts in the triple
  \<open>(cmd, cs, target)\<close>, in the order in which that statement lists them.  Cap and callsign
  slots hold \<open>None\<close> or a string.
\<close>

datatype parsed =
    Who
  | WhoAll
  | WhoUnk
  | Alpha "string option" "string option"
  | Vector "string option" string
  | Snap "string option"
  | DeclareBulls "string option" int int
  | Declare "string option"
  | BogeyDope "string option"
  | Picture "string option"
  | CapAddBulls string int int real string
  | CapAddAtFighter string string real string
  | CapAssign string string
  | CapStatus "string option"
  | CapClear string
  | PushSet "int \<times> int" string
  | PushStatus
  | PushCancel
  | PushExecute

definition em_dash :: string where
  \<comment> \<open>the character U+2014 of the source's replies, in UTF-8\<close>
  "em_dash = [CHR 0xE2, CHR 0x80, CHR 0x94]"

fun join :: "string \<Rightarrow> string list \<Rightarrow> string" where
  "join sep [] = []"
| "join sep [x] = x"
| "join sep (x # y # rest) = x @ sep @ join sep (y # rest)"

definition truthy :: "string option \<Rightarrow> bool" where
  \<comment> \<open>\<open>if cs\<close> on \<open>None\<close> or a string\<close>
  "truthy v = (case v of None \<Rightarrow> False | Some s \<Rightarrow> s \<noteq> [])"

definition with_cs :: "string option \<Rightarrow> string \<Rightarrow> string" where
  \<comment> \<open>\<open>f"{cs}, {line}" if cs else line\<close>\<close>
  "with_cs cs line = (case cs of None \<Rightarrow> line | Some s \<Rightarrow> if s = [] then line else s @ '', '' @ line)"

definition pick_friendly :: "world_state \<Rightarrow> string option \<Rightarrow> acmi_object option" where
  \<comment> \<open>\<open>find_callsign(blues, cs) if cs else (blues[0] if blues else None)\<close>\<close>
  "pick_friendly w cs =
     (if truthy cs then find_callsign (blues w) cs
      else (case blues w of [] \<Rightarrow> None | b # _ \<Rightarrow> Some b))"

definition who_line :: "world_state \<Rightarrow> string" where
  "who_line w =
     (let its = map (\<lambda>o'. friendly_label o' @ '' ('' @ (case Name o' of None \<Rightarrow> ''?'' | Some n \<Rightarrow> n) @ '')'')
                    (take 50 (blues w))
      in ''Blue tracks: '' @ (if its = [] then ''none'' else join '', '' its))"

definition fmt_track :: "acmi_object \<Rightarrow> string" where
  \<comment> \<open>\<open>fmt\<close> and \<open>fmtu\<close>, which are the same\<close>
  "fmt_track o' =
     (case Name o' of None \<Rightarrow> ''(no Name)'' | Some n \<Rightarrow> n)
     @ '' [Coal='' @ (case Coalition o' of None \<Rightarrow> ''?'' | Some x \<Rightarrow> x)
     @ '', Color='' @ (case Color o' of None \<Rightarrow> ''?'' | Some x \<Rightarrow> x)
     @ '', Type='' @ (case Type o' of None \<Rightarrow> ''?'' | Some x \<Rightarrow> x) @ '']''"

definition whoall_line :: "world_state \<Rightarrow> string" where
  "whoall_line w =
     (let reds_l = map fmt_track (take 12 (reds w));
          blues_l = map fmt_track (take 12 (blues w));
          unk_l = map fmt_track (take 12 (unks w))
      in ''Seen '' @ em_dash @ '' Blue:'' @ str_int (int (length (blues w)))
         @ '' Red:'' @ str_int (int (length (reds w)))
         @ '' Unknown:'' @ str_int (int (length (unks w))) @ [CHR 0x0A]
         @ ''Blue:    '' @ (if blues_l = [] then em_dash else join '', '' blues_l) @ [CHR 0x0A]
         @ ''Red:     '' @ (if reds_l = [] then em_dash else join '', '' reds_l) @ [CHR 0x0A]
         @ ''Unknown: '' @ (if unk_l = [] then em_dash else join '', '' unk_l))"

definition picture_line :: "controller \<Rightarrow> string" where
  \<comment> \<open>\<open>pic_line\<close> of the \<open>picture\<close> branch\<close>
  "picture_line c =
     (let w = ws c; interest = reds w @ unks w
      in (case buv_of w of
            Some buv \<Rightarrow>
              if interest \<noteq> []
              then format_picture
                     (summarize_groups (group_contacts interest (grp_range_nm c) (grp_alt_ft c))
                        buv (weapons_free c))
              else ''PICTURE: CLEAN.''
          | None \<Rightarrow>
              if interest = [] then ''PICTURE: CLEAN.''
              else ''PICTURE: no bullseye available yet.''))"

definition cs_or_fighter :: "string option \<Rightarrow> string" where
  \<comment> \<open>\<open>cs or 'Fighter'\<close>\<close>
  "cs_or_fighter cs = (case cs of None \<Rightarrow> ''Fighter'' | Some s \<Rightarrow> if s = [] then ''Fighter'' else s)"

definition declare_ident :: "acmi_object \<Rightarrow> string" where
  "declare_ident tgt =
     (let coal = coalition_of tgt
      in if coal = ''Blue'' then ''Friendly'' else if coal = ''Red'' then ''Bandit'' else ''Bogey'')"

definition bogeydope_reply :: "world_state \<Rightarrow> string option \<Rightarrow> string" where
  "bogeydope_reply w cs =
     (case pick_friendly w cs of
        None \<Rightarrow> cs_or_fighter cs @ '', UNABLE: no friendly reference available.''
      | Some fr \<Rightarrow>
          (case nearest_threat_to_fighter w fr of
             None \<Rightarrow> friendly_label fr @ '', PICTURE: CLEAN.''
           | Some tgt \<Rightarrow>
               friendly_label fr @ '', BOGEY DOPE: ''
               @ (case braa_from_fighter_to_target fr tgt of None \<Rightarrow> ''None'' | Some b \<Rightarrow> b)))"

definition declare_reply :: "world_state \<Rightarrow> string option \<Rightarrow> string" where
  "declare_reply w cs =
     (case pick_friendly w cs of
        None \<Rightarrow> cs_or_fighter cs @ '', UNABLE: declare (no friendly reference).''
      | Some fr \<Rightarrow>
          (case nearest_threat_to_fighter w fr of
             None \<Rightarrow> ''DECLARE: no factor.''
           | Some tgt \<Rightarrow> ''DECLARE: '' @ declare_ident tgt @ ''.''))"

definition declare_bulls_reply :: "world_state \<Rightarrow> int \<Rightarrow> int \<Rightarrow> string" where
  "declare_bulls_reply w b r =
     (case buv_of w of
        None \<Rightarrow> ''DECLARE: no bullseye available.''
      | Some buv \<Rightarrow>
          (let t = bulls_to_uv (fst buv) (snd buv) (of_int b) (of_int r)
           in (case nearest_from t ((reds w @ unks w) @ blues w) of
                 (Some best, best_rng) \<Rightarrow>
                   if 6 < best_rng then ''DECLARE: no factor.''
                   else ''DECLARE: '' @ declare_ident best @ ''.''
               | (None, _) \<Rightarrow> ''DECLARE: no factor.'')))"

definition snap_reply :: "world_state \<Rightarrow> string option \<Rightarrow> string" where
  "snap_reply w cs =
     (case pick_friendly w cs of
        None \<Rightarrow> cs_or_fighter cs @ '', UNABLE: snap (no friendly reference).''
      | Some fr \<Rightarrow>
          (case nearest_threat_to_fighter w fr of
             None \<Rightarrow> friendly_label fr @ '', SNAP: no factor.''
           | Some tgt \<Rightarrow>
               (case vector_from_fighter_to_uv fr (uv_of tgt) of
                  Some line \<Rightarrow> friendly_label fr @ '', '' @ line
                | None \<Rightarrow> ''UNABLE: snap.'')))"

definition home_or_own :: "world_state \<Rightarrow> acmi_object \<Rightarrow> (real \<times> real) option" where
  \<comment> \<open>\<open>tr.home_uv if tr and tr.home_uv else uv_of(fr)\<close>\<close>
  "home_or_own w fr =
     (case dict_get (tracks w) (object_id fr) of
        None \<Rightarrow> uv_of fr
      | Some tr \<Rightarrow> (case home_uv tr of Some h \<Rightarrow> Some h | None \<Rightarrow> uv_of fr))"

definition vector_reply :: "world_state \<Rightarrow> string option \<Rightarrow> string \<Rightarrow> string" where
  "vector_reply w cs target =
     (case pick_friendly w cs of
        None \<Rightarrow> cs_or_fighter cs @ '', UNABLE: vector (no friendly reference).''
      | Some fr \<Rightarrow>
          (let tgt_name = lower (strip target)
           in if py_in ''home'' tgt_name then
                (case vector_from_fighter_to_uv fr (home_or_own w fr) of
                   Some line \<Rightarrow> friendly_label fr @ '', '' @ line
                 | None \<Rightarrow> ''UNABLE: vector home.'')
              else if py_in ''tanker'' tgt_name then
                (case nearest_tanker w of
                   None \<Rightarrow> ''UNABLE: no tanker.''
                 | Some tnk \<Rightarrow>
                     (case vector_from_fighter_to_uv fr (uv_of tnk) of
                        Some line \<Rightarrow> friendly_label fr @ '', '' @ line
                      | None \<Rightarrow> ''UNABLE: vector tanker.''))
              else
                (case find_callsign (blues w) (Some target) of
                   None \<Rightarrow> ''UNABLE: target not found.''
                 | Some tgt \<Rightarrow>
                     (case vector_from_fighter_to_uv fr (uv_of tgt) of
                        Some line \<Rightarrow> friendly_label fr @ '', '' @ line
                      | None \<Rightarrow> ''UNABLE: vector.''))))"

definition alpha_reply :: "world_state \<Rightarrow> string option \<Rightarrow> string option \<Rightarrow> string" where
  "alpha_reply w cs target =
     (case buv_of w of
        None \<Rightarrow> ''ALPHA CHECK: no bullseye available.''
      | Some buv \<Rightarrow>
          (let tgt_key = lower (filter (\<lambda>ch. ch \<noteq> CHR '' '') (case target of None \<Rightarrow> [] | Some t \<Rightarrow> t));
               fr = pick_friendly w cs;
               tgt_uv =
                 (if tgt_key \<in> set [''home'', ''homeplate'', ''homebase'']
                  then (case fr of None \<Rightarrow> None | Some f \<Rightarrow> home_or_own w f)
                  else if tgt_key = ''tanker''
                  then (case nearest_tanker w of None \<Rightarrow> None | Some tnk \<Rightarrow> uv_of tnk)
                  else (case fr of None \<Rightarrow> None | Some f \<Rightarrow> uv_of f))
           in (case alpha_check_to_uv w tgt_uv of
                 Some line \<Rightarrow>
                   if truthy cs then (case cs of None \<Rightarrow> line | Some s \<Rightarrow> s @ '', '' @ line)
                   else (case fr of Some f \<Rightarrow> friendly_label f @ '', '' @ line | None \<Rightarrow> line)
               | None \<Rightarrow>
                   (if truthy cs then cs_or_fighter cs
                    else (case fr of Some f \<Rightarrow> friendly_label f | None \<Rightarrow> ''Fighter''))
                   @ '', UNABLE: alpha check.'')))"

definition cap_reply_tail :: "real \<Rightarrow> real \<Rightarrow> real \<Rightarrow> string" where
  \<comment> \<open>\<open>radius {int(data['radius'])} nm, alt {int(lo/1000)}-{int(hi/1000)}.\<close>\<close>
  "cap_reply_tail radius lo hi =
     ''radius '' @ str_int (py_int radius) @ '' nm, alt '' @ str_int (py_int (lo / 1000))
     @ ''-'' @ str_int (py_int (hi / 1000)) @ ''.''"

definition cap_add_bulls :: "world_state \<Rightarrow> string \<Rightarrow> int \<Rightarrow> int \<Rightarrow> real \<Rightarrow> string \<Rightarrow> world_state \<times> string" where
  "cap_add_bulls w cs b r radius alt =
     (case buv_of w of
        None \<Rightarrow> (w, ''CAP: UNABLE '' @ em_dash @ '' no bullseye.'')
      | Some buv \<Rightarrow>
          (let cuv = bulls_to_uv (fst buv) (snd buv) (of_int b) (of_int r);
               lh = parse_alt_block alt
           in (w\<lparr>cap_sites := dict_set (cap_sites w) cs (CAPSite cs cuv radius (fst lh) (snd lh))\<rparr>,
               ''CAP: '' @ cs @ '' set at BULLS '' @ fmt_03d b @ ''/'' @ str_int r @ '', ''
               @ cap_reply_tail radius (fst lh) (snd lh))))"

definition cap_add_at_fighter :: "world_state \<Rightarrow> string \<Rightarrow> string \<Rightarrow> real \<Rightarrow> string \<Rightarrow> world_state \<times> string" where
  "cap_add_at_fighter w cs fcs radius alt =
     (case find_callsign (blues w) (Some fcs) of
        None \<Rightarrow> (w, ''CAP: UNABLE '' @ em_dash @ '' fighter not found.'')
      | Some f \<Rightarrow>
          (case uv_of f of
             None \<Rightarrow> (w, ''CAP: UNABLE '' @ em_dash @ '' fighter pos unknown.'')
           | Some fuv \<Rightarrow>
               (let lh = parse_alt_block alt
                in (w\<lparr>cap_sites := dict_set (cap_sites w) cs (CAPSite cs fuv radius (fst lh) (snd lh))\<rparr>,
                    ''CAP: '' @ cs @ '' set at '' @ friendly_label f @ '' position, ''
                    @ cap_reply_tail radius (fst lh) (snd lh)))))"

definition cap_assign :: "world_state \<Rightarrow> string \<Rightarrow> string \<Rightarrow> world_state \<times> string" where
  "cap_assign w cs target =
     (case find_callsign (blues w) (Some cs) of
        None \<Rightarrow> (w, ''CAP: UNABLE '' @ em_dash @ '' fighter not found.'')
      | Some fighter \<Rightarrow>
          (case dict_get (cap_sites w) target of
             None \<Rightarrow> (w, ''CAP: '' @ target @ '' not found.'')
           | Some cap \<Rightarrow>
               (w\<lparr>cap_sites := dict_set (cap_sites w) target
                                  (cap\<lparr>assigned_ids := set_add (assigned_ids cap) (object_id fighter)\<rparr>)\<rparr>,
                ''CAP: assigned '' @ friendly_label fighter @ '' to '' @ name cap @ ''.'')))"

definition cap_show :: "cap_site \<Rightarrow> acmi_object \<Rightarrow> string" where
  \<comment> \<open>the entry of one assigned entity that is still in the object map\<close>
  "cap_show cap o' =
     (case uv_of o' of
        Some ouv \<Rightarrow>
          (let r = snd (brg_rng_from_xy (fst (center_uv cap)) (snd (center_uv cap)) (fst ouv) (snd ouv));
               on = (r \<le> radius_nm cap \<and>
                     (case t_attr o' Altitude of
                        None \<Rightarrow> False
                      | Some alt_m \<Rightarrow> alt_lo_ft cap \<le> alt_m * M_TO_FT \<and> alt_m * M_TO_FT \<le> alt_hi_ft cap))
           in friendly_label o' @ '' '' @ em_dash @ '' '' @ str_int (py_round r) @ '' nm off center, ''
              @ (if on then ''on-station'' else ''off-station''))
      | None \<Rightarrow> friendly_label o' @ '' '' @ em_dash @ '' pos unknown'')"

definition cap_one :: "world_state \<Rightarrow> cap_site \<Rightarrow> cap_site \<times> string" where
  \<comment> \<open>\<open>one(cap)\<close>: the text, and the site after the pruning of entities that are gone\<close>
  "cap_one w cap =
     (let header = name cap @ '': radius '' @ str_int (py_round (radius_nm cap)) @ '' nm, alt ''
                   @ str_int (py_int (alt_lo_ft cap / 1000)) @ ''-''
                   @ str_int (py_int (alt_hi_ft cap / 1000)) @ ''.'';
          kept = filter (\<lambda>oid. dict_get (objects w) oid \<noteq> None) (assigned_ids cap);
          shows = concat (map (\<lambda>oid. case dict_get (objects w) oid of
                                        None \<Rightarrow> [] | Some o' \<Rightarrow> [cap_show cap o'])
                              (assigned_ids cap))
      in (cap\<lparr>assigned_ids := kept\<rparr>,
          join [CHR 0x0A]
            [header, if shows = [] then ''   assigned: none''
                     else ''   assigned: '' @ join ''; '' shows]))"

definition cap_status_line :: "world_state \<Rightarrow> string option \<Rightarrow> world_state \<times> string" where
  "cap_status_line w nm =
     (if cap_sites w = [] then (w, ''CAP: none.'')
      else if truthy nm then
        (case nm of
           None \<Rightarrow> (w, [])
         | Some n \<Rightarrow>
             (case dict_get (cap_sites w) n of
                None \<Rightarrow> (w, ''CAP: '' @ n @ '' not found.'')
              | Some cap \<Rightarrow>
                  (w\<lparr>cap_sites := dict_set (cap_sites w) n (fst (cap_one w cap))\<rparr>,
                   snd (cap_one w cap))))
      else (w\<lparr>cap_sites := map (\<lambda>(k, cap). (k, fst (cap_one w cap))) (cap_sites w)\<rparr>,
            join [CHR 0x0A] (map (\<lambda>cap. snd (cap_one w cap)) (dict_values (cap_sites w)))))"

definition cap_clear :: "world_state \<Rightarrow> string \<Rightarrow> world_state \<times> string" where
  "cap_clear w cs =
     (if cs = ''all'' then (w\<lparr>cap_sites := []\<rparr>, ''CAP: cleared all.'')
      else if dict_get (cap_sites w) cs \<noteq> None
      then (w\<lparr>cap_sites := dict_pop (cap_sites w) cs\<rparr>, ''CAP: cleared '' @ cs @ ''.'')
      else (w, ''CAP: '' @ cs @ '' not found.''))"

definition push_status_line :: "world_state \<Rightarrow> py_error + string" where
  \<comment> \<open>\<open>_push_status_line\<close>; a field that is \<open>None\<close> cannot be formatted\<close>
  "push_status_line w =
     (let p = push_plan w
      in if \<not> active p then Inr ''PUSH: no plan.''
         else (case (brg p, rng p, exec_time p) of
                 (Some b, Some r, Some et) \<Rightarrow>
                   Inr (''PUSH: BULLS '' @ fmt_03d b @ '' for '' @ str_int r @ '', exec at T+''
                        @ str_int (py_int (max 0 (et - time w))) @ ''s.'')
               | _ \<Rightarrow> Inl TypeError))"

definition arm_plan :: "world_state \<Rightarrow> real \<times> real \<Rightarrow> int \<Rightarrow> int \<Rightarrow> real \<Rightarrow> world_state \<times> string" where
  \<comment> \<open>the statements of the \<open>push_set\<close> branch that store the plan, given the bullseye, an
      integer bearing and range and a parsed offset\<close>
  "arm_plan w buv b r offs =
     (w\<lparr>push_plan :=
          \<lparr>active = True, brg = Some b, rng = Some r,
           target_uv = Some (bulls_to_uv (fst buv) (snd buv) (of_int b) (of_int r)),
           exec_time = Some (time w + offs), created_at = Some (time w)\<rparr>\<rparr>,
      ''PUSH: set BULLS '' @ fmt_03d b @ ''/'' @ str_int r @ '', exec ''
      @ (if offs = 0 then ''now'' else ''T+'' @ str_int (py_int offs) @ ''s'') @ ''.'')"

definition push_set :: "controller \<Rightarrow> int \<times> int \<Rightarrow> string \<Rightarrow> controller \<times> (py_error + string)" where
  \<comment> \<open>the \<open>push_set\<close> branch on the triple that \<open>parse_command\<close> returns for it,
      \<open>("push_set", (brg, rng), phrase)\<close>: \<open>cs\<close> is the pair and \<open>target\<close> is the time phrase.
      \<open>brg, rng = target\<close> unpacks the phrase, which raises unless it has two characters;
      \<open>_parse_time_offset(cs)\<close> then calls \<open>strip\<close> on the pair, which raises.  The statements
      of \<open>arm_plan\<close> come after both.\<close>
  "push_set c cs target =
     (case buv_of (ws c) of
        None \<Rightarrow> (c, Inr (''PUSH: UNABLE '' @ em_dash @ '' no bullseye.''))
      | Some buv \<Rightarrow>
          if length target \<noteq> 2 then (c, Inl ValueError)
          else (c, Inl AttributeError))"

definition push_execute :: "controller \<Rightarrow> controller \<times> (py_error + string)" where
  "push_execute c =
     (if \<not> active (push_plan (ws c)) then (c, Inr ''PUSH: no plan.'')
      else (let c1 = c\<lparr>ws := (ws c)\<lparr>push_plan := (push_plan (ws c))\<lparr>exec_time := Some (time (ws c))\<rparr>\<rparr>\<rparr>
            in (case try_execute_push c1 of
                  (c2, None) \<Rightarrow> (c2, Inr ''PUSH: executed.'')
                | (c2, Some e) \<Rightarrow> (c2, Inl e))))"

definition on_ws :: "controller \<Rightarrow> world_state \<times> string \<Rightarrow> controller \<times> (py_error + string)" where
  "on_ws c r = (c\<lparr>ws := fst r\<rparr>, Inr (snd r))"

definition handle_text :: "controller \<Rightarrow> parsed \<Rightarrow> controller \<times> (py_error + string)" where
  \<comment> \<open>\<open>handle_text\<close> after its first statement, \<open>cmd, cs, target = parse_command(text)\<close>:
      the state it leaves, and the reply or the exception it raises\<close>
  "handle_text c p =
     (case p of
        Who \<Rightarrow> (c, Inr (who_line (ws c)))
      | WhoAll \<Rightarrow> (c, Inr (whoall_line (ws c)))
      | WhoUnk \<Rightarrow>
          (c, Inr (''Unknown tracks: ''
                   @ (if unks (ws c) = [] then ''none''
                      else join '', '' (map fmt_track (take 25 (unks (ws c)))))))
      | Picture cs \<Rightarrow> (c, Inr (with_cs cs (picture_line c)))
      | BogeyDope cs \<Rightarrow> (c, Inr (bogeydope_reply (ws c) cs))
      | Declare cs \<Rightarrow> (c, Inr (declare_reply (ws c) cs))
      | DeclareBulls cs b r \<Rightarrow> (c, Inr (declare_bulls_reply (ws c) b r))
      | Snap cs \<Rightarrow> (c, Inr (snap_reply (ws c) cs))
      | Vector cs target \<Rightarrow> (c, Inr (vector_reply (ws c) cs target))
      | Alpha cs target \<Rightarrow> (c, Inr (alpha_reply (ws c) cs target))
      | CapAddBulls cs b r radius alt \<Rightarrow> on_ws c (cap_add_bulls (ws c) cs b r radius alt)
      | CapAddAtFighter cs fcs radius alt \<Rightarrow> on_ws c (cap_add_at_fighter (ws c) cs fcs radius alt)
      | CapAssign cs target \<Rightarrow> on_ws c (cap_assign (ws c) cs target)
      | CapStatus cs \<Rightarrow> on_ws c (cap_status_line (ws c) cs)
      | CapClear cs \<Rightarrow> on_ws c (cap_clear (ws c) cs)
      | PushSet cs target \<Rightarrow> push_set c cs target
      | PushStatus \<Rightarrow> (c, push_status_line (ws c))
      | PushCancel \<Rightarrow> (c\<lparr>ws := (ws c)\<lparr>push_plan := PushPlan\<rparr>\<rparr>, Inr ''PUSH: canceled.'')
      | PushExecute \<Rightarrow> push_execute c)"

section \<open>Entities at the planar origin\<close>

lemma first_some_append:
  "first_some f (xs @ ys) = (case first_some f xs of Some y \<Rightarrow> Some y | None \<Rightarrow> first_some f ys)"
  by (induction xs) (auto split: option.splits)

lemma uv_of_origin:
  assumes "T ob = Some t" "U t \<in> {None, Some 0}" "V t \<in> {None, Some 0}"
  shows "uv_of ob = None"
  using assms by (auto simp: uv_of_def get_xy_mode_def split: option.splits)






definition origin_entity :: acmi_object where
  \<comment> \<open>an aircraft reported at the planar origin, with a geographic position as well\<close>
  "origin_entity =
     \<lparr>object_id = ''a01'', Type = Some ''Air+FixedWing'', Coalition = Some ''Enemies'',
      Color = Some ''Red'', Name = Some ''MiG-29'', Callsign = None, Pilot = None, Group = None,
      Unit = None,
      T = Some \<lparr>U = Some 0, V = Some 0, Longitude = Some 30, Latitude = Some 40,
               Altitude = Some 5000, Heading = Some 90\<rparr>\<rparr>"



section \<open>Staleness eviction\<close>

definition stale_world :: world_state where
  \<comment> \<open>one entity, last seen at time 50, that is a bullseye reference and assigned to a CAP\<close>
  "stale_world =
     WorldState
       \<lparr>time := 100,
        objects := [(''a01'', origin_entity)],
        tracks := [(''a01'', TrackWrap origin_entity)],
        last_seen := [(''a01'', 50)],
        bullseye_by_coal := [(''Enemies'', ''a01'')],
        missiles := [(''a01'', origin_entity)],
        cap_sites := [(''cap1'', (CAPSite ''cap1'' (1000, 1000) 10 20000 40000)\<lparr>assigned_ids := [''a01'']\<rparr>)]\<rparr>"

definition gone :: "world_state \<Rightarrow> string \<Rightarrow> bool" where
  \<comment> \<open>the identifier is in no map, no bullseye slot and no CAP assignment\<close>
  "gone w oid =
     (oid \<notin> fst ` set (objects w) \<and> oid \<notin> fst ` set (tracks w)
      \<and> oid \<notin> fst ` set (last_seen w) \<and> oid \<notin> fst ` set (missiles w)
      \<and> oid \<notin> snd ` set (bullseye_by_coal w)
      \<and> (\<forall>cap \<in> set (dict_values (cap_sites w)). oid \<notin> set (assigned_ids cap)))"

lemma keys_dict_pop: "fst ` set (dict_pop d k) = fst ` set d - {k}"
  by (auto simp: dict_pop_def image_iff)

lemma remove_gone: "gone (remove w oid) oid"
  unfolding gone_def remove_def
  by (simp add: keys_dict_pop dict_values_def set_discard_def image_iff split_beta)

lemma remove_keeps_gone: "gone w oid \<Longrightarrow> gone (remove w k) oid"
  unfolding gone_def remove_def
  by (simp add: keys_dict_pop dict_values_def set_discard_def image_iff split_beta)

lemma remove_ttl [simp]: "ttl (remove w k) = ttl w"
  by (simp add: remove_def)

lemma cull_fold_keeps_gone:
  "gone w oid \<Longrightarrow>
   gone (fold (\<lambda>(k, t) w. if ttl w < now - t then remove w k else w) snap w) oid"
proof (induction snap arbitrary: w)
  case Nil
  then show ?case by simp
next
  case (Cons kt snap)
  obtain k t where kt: "kt = (k, t)" by (cases kt)
  have "gone (if ttl w < now - t then remove w k else w) oid"
    using Cons.prems by (simp add: remove_keeps_gone)
  from Cons.IH [OF this] kt show ?case by simp
qed

lemma cull_fold_ttl:
  "ttl (fold (\<lambda>(k, t) w. if ttl w < now - t then remove w k else w) snap w) = ttl w"
  by (induction snap arbitrary: w) (auto split: prod.splits)

lemma cull_fold_gone:
  "(oid, t) \<in> set snap \<Longrightarrow> ttl w < now - t \<Longrightarrow>
   gone (fold (\<lambda>(k, t) w. if ttl w < now - t then remove w k else w) snap w) oid"
proof (induction snap arbitrary: w)
  case Nil
  then show ?case by simp
next
  case (Cons kt snap)
  obtain k t' where kt: "kt = (k, t')" by (cases kt)
  let ?w1 = "if ttl w < now - t' then remove w k else w"
  have ttl1: "ttl ?w1 = ttl w" by simp
  show ?case
  proof (cases "kt = (oid, t)")
    case True
    with kt Cons.prems have "gone ?w1 oid" by (simp add: remove_gone)
    then have "gone (fold (\<lambda>(k, t) w. if ttl w < now - t then remove w k else w) snap ?w1) oid"
      by (rule cull_fold_keeps_gone)
    with kt show ?thesis by simp
  next
    case False
    with Cons.prems have mem: "(oid, t) \<in> set snap" by auto
    have "ttl ?w1 < now - t" using Cons.prems(2) ttl1 by simp
    from Cons.IH [OF mem this] kt show ?thesis by simp
  qed
qed

lemma get_air_subset: "set (get_air w) \<subseteq> snd ` set (objects w)"
  by (auto simp: get_air_def dict_values_def)

lemma map_of_None_iff: "(dict_get d k = None) = (k \<notin> fst ` set d)"
  by (simp add: dict_get_def map_of_eq_None_iff)

lemma set_add_fold: "set (fold (\<lambda>oid r'. set_add r' oid) xs r) = set r \<union> set xs"
  by (induction xs arbitrary: r) (auto simp: set_add_def)

lemma recipients_fold:
  "set (fold (\<lambda>cap r. fold (\<lambda>oid r'. set_add r' oid) (assigned_ids cap) r) caps r0)
   = set r0 \<union> (\<Union>cap \<in> set caps. set (assigned_ids cap))"
  by (induction caps arbitrary: r0) (auto simp: set_add_fold)

lemma set_recipients:
  "set (recipients w) = (\<Union>cap \<in> set (dict_values (cap_sites w)). set (assigned_ids cap))"
  by (simp add: recipients_def recipients_fold)

text \<open>
  C4.  An entity whose last-seen time is older than the TTL (\<open>now - t > ttl\<close>) is, after
  \<open>cull_stale\<close>, in none of the object, track, missile and last-seen maps, in no
  bullseye-reference slot and in no CAP site's assigned set; every air entity a registry
  query returns is stored under another identifier, and the entity is not among the PUSH
  recipients.
\<close>

theorem cull_stale_removes_everywhere:
  assumes "(oid, t) \<in> set (last_seen w)" and "ttl w < now - t"
  shows "dict_get (objects (cull_stale w now)) oid = None
       \<and> dict_get (tracks (cull_stale w now)) oid = None
       \<and> dict_get (missiles (cull_stale w now)) oid = None
       \<and> dict_get (last_seen (cull_stale w now)) oid = None
       \<and> oid \<notin> set (dict_values (bullseye_by_coal (cull_stale w now)))
       \<and> (\<forall>cap \<in> set (dict_values (cap_sites (cull_stale w now))). oid \<notin> set (assigned_ids cap))
       \<and> (\<forall>o' \<in> set (get_air (cull_stale w now)). \<exists>k. k \<noteq> oid \<and> (k, o') \<in> set (objects (cull_stale w now)))
       \<and> oid \<notin> set (recipients (cull_stale w now))"
proof -
  define w' where "w' = cull_stale w now"
  have g: "gone w' oid"
    unfolding w'_def cull_stale_def using assms by (rule cull_fold_gone)
  have c1: "dict_get (objects w') oid = None" using g by (simp add: gone_def map_of_None_iff)
  have c2: "dict_get (tracks w') oid = None" using g by (simp add: gone_def map_of_None_iff)
  have c3: "dict_get (missiles w') oid = None" using g by (simp add: gone_def map_of_None_iff)
  have c4: "dict_get (last_seen w') oid = None" using g by (simp add: gone_def map_of_None_iff)
  have c5: "oid \<notin> set (dict_values (bullseye_by_coal w'))"
    using g by (simp add: gone_def dict_values_def)
  have c6: "\<forall>cap \<in> set (dict_values (cap_sites w')). oid \<notin> set (assigned_ids cap)"
    using g by (simp add: gone_def)
  have c7: "\<forall>o' \<in> set (get_air w'). \<exists>k. k \<noteq> oid \<and> (k, o') \<in> set (objects w')"
  proof
    fix o' assume "o' \<in> set (get_air w')"
    then have "o' \<in> snd ` set (objects w')" using get_air_subset by blast
    then obtain k where k: "(k, o') \<in> set (objects w')" by auto
    then have "k \<in> fst ` set (objects w')" by (rule image_eqI [rotated]) simp
    moreover have "oid \<notin> fst ` set (objects w')" using g by (simp add: gone_def)
    ultimately have "k \<noteq> oid" by blast
    with k show "\<exists>k. k \<noteq> oid \<and> (k, o') \<in> set (objects w')" by blast
  qed
  have c8: "oid \<notin> set (recipients w')"
    using c6 by (simp add: set_recipients)
  from c1 c2 c3 c4 c5 c6 c7 c8 show ?thesis unfolding w'_def by blast
qed

theorem cull_stale_removes_everywhere_witness:
  "(''a01'', 50) \<in> set (last_seen stale_world)
   \<and> ttl stale_world < 100 - 50
   \<and> dict_get (objects stale_world) ''a01'' = Some origin_entity
   \<and> dict_get (objects (cull_stale stale_world 100)) ''a01'' = None
   \<and> dict_get (tracks (cull_stale stale_world 100)) ''a01'' = None
   \<and> dict_get (missiles (cull_stale stale_world 100)) ''a01'' = None
   \<and> dict_get (last_seen (cull_stale stale_world 100)) ''a01'' = None
   \<and> ''a01'' \<notin> set (dict_values (bullseye_by_coal (cull_stale stale_world 100)))
   \<and> ''a01'' \<notin> set (recipients (cull_stale stale_world 100))"
proof -
  have h1: "(''a01'', 50) \<in> set (last_seen stale_world)"
    by (simp add: stale_world_def WorldState_def)
  have h2: "ttl stale_world < 100 - 50"
    by (simp add: stale_world_def WorldState_def)
  have h3: "dict_get (objects stale_world) ''a01'' = Some origin_entity"
    by (simp add: stale_world_def WorldState_def dict_get_def)
  from h1 h2 h3 cull_stale_removes_everywhere [OF h1 h2] show ?thesis by blast
qed

section \<open>Home plate\<close>

definition blue_fighter :: acmi_object where
  \<comment> \<open>a friendly aircraft, slow and low at the planar point (9000, 9000)\<close>
  "blue_fighter =
     \<lparr>object_id = ''b01'', Type = Some ''Air+FixedWing'', Coalition = Some ''Allies'',
      Color = Some ''Blue'', Name = Some ''F-16C'', Callsign = Some ''Viper 1-1'', Pilot = None,
      Group = None, Unit = None,
      T = Some \<lparr>U = Some 9000, V = Some 9000, Longitude = None, Latitude = None,
               Altitude = Some 100, Heading = Some 0\<rparr>\<rparr>"

definition home_world :: world_state where
  \<comment> \<open>the friendly aircraft is tracked and its home plate is already (1000, 2000)\<close>
  "home_world =
     WorldState
       \<lparr>objects := [(''b01'', blue_fighter)],
        tracks := [(''b01'', (TrackWrap blue_fighter)\<lparr>home_uv := Some (1000, 2000)\<rparr>)],
        last_seen := [(''b01'', 0)]\<rparr>"

lemma dict_get_dict_set:
  "dict_get (dict_set d k v) k' = (if k' = k then Some v else dict_get d k')"
  by (induction d) (auto simp: dict_get_def)

lemma dict_get_dict_pop:
  "dict_get (dict_pop d k) k' = (if k' = k then None else dict_get d k')"
  by (induction d) (auto simp: dict_get_def dict_pop_def)

lemma dict_get_map_values:
  "dict_get (map (\<lambda>(k, v). (k, f v)) d) k' = map_option f (dict_get d k')"
  by (induction d) (auto simp: dict_get_def)

lemma learn_home_keeps: "home_uv tr = Some h \<Longrightarrow> learn_home tr ob = tr"
  by (simp add: learn_home_def)

lemma tracks_upsert:
  "tracks (upsert w ob now) =
     (let tr0 = (case dict_get (tracks w) (object_id ob) of
                   None \<Rightarrow> TrackWrap ob | Some tr \<Rightarrow> tr\<lparr>obj := ob\<rparr>)
      in if py_in ''Air'' (str_or (Type ob) [])
         then dict_set (dict_set (tracks w) (object_id ob) tr0) (object_id ob) (learn_home tr0 ob)
         else dict_set (tracks w) (object_id ob) tr0)"
  by (simp add: upsert_def Let_def)

lemma learn_home_sets:
  assumes "home_uv tr = None" and "t_attr ob U = Some u" and "t_attr ob V = Some v"
    and "t_attr ob Altitude = Some alt" and "spd_mps tr * 1.943844492 < 60" and "alt < 300"
  shows "home_uv (learn_home tr ob) = Some (u, v)"
  using assms by (simp add: learn_home_def)

lemma upsert_keeps_home:
  assumes "dict_get (tracks w) oid = Some tr" and "home_uv tr = Some h"
  shows "\<exists>tr'. dict_get (tracks (upsert w ob now)) oid = Some tr' \<and> home_uv tr' = Some h"
proof (cases "oid = object_id ob")
  case True
  have "learn_home (tr\<lparr>obj := ob\<rparr>) ob = tr\<lparr>obj := ob\<rparr>"
    using assms(2) by (simp add: learn_home_keeps)
  with True assms show ?thesis
    by (simp add: tracks_upsert dict_get_dict_set Let_def)
next
  case False
  with assms show ?thesis
    by (simp add: tracks_upsert dict_get_dict_set Let_def)
qed

lemma upserts_keep_home:
  assumes "dict_get (tracks w) oid = Some tr" and "home_uv tr = Some h"
  shows "\<exists>tr'. dict_get (tracks (fold (\<lambda>(ob, now) w. upsert w ob now) ups w)) oid = Some tr'
               \<and> home_uv tr' = Some h"
  using assms
proof (induction ups arbitrary: w tr)
  case Nil
  then show ?case by simp
next
  case (Cons u ups)
  obtain ob now where u: "u = (ob, now)" by (cases u)
  from upsert_keeps_home [OF Cons.prems, of ob now]
  obtain tr1 where "dict_get (tracks (upsert w ob now)) oid = Some tr1" "home_uv tr1 = Some h"
    by blast
  from Cons.IH [OF this] u show ?case by simp
qed

lemma update_speed_home [simp]: "home_uv (update_speed tr now) = home_uv tr"
  by (simp add: update_speed_def Let_def split: option.splits)

lemma tracks_remove: "tracks (remove w k) = dict_pop (tracks w) k"
  by (simp add: remove_def)

lemma cull_fold_tracks:
  "dict_get (tracks (fold (\<lambda>(k, t) w. if ttl w < now - t then remove w k else w) snap w)) oid = Some tr
   \<Longrightarrow> dict_get (tracks w) oid = Some tr"
proof (induction snap arbitrary: w)
  case Nil
  then show ?case by simp
next
  case (Cons kt snap)
  obtain k t where kt: "kt = (k, t)" by (cases kt)
  from Cons.prems kt
  have "dict_get (tracks (if ttl w < now - t then remove w k else w)) oid = Some tr"
    using Cons.IH by simp
  then show ?case
    by (auto simp: tracks_remove dict_get_dict_pop split: if_splits)
qed

lemma log_ws [simp]: "ws (log c s) = ws c"
  by (simp add: log_def)

lemma check_merged_ws [simp]: "ws (check_merged c t) = ws c"
  by (simp add: check_merged_def split: option.splits)

lemma log_all_ws: "log_all c ls = Inr c' \<Longrightarrow> ws c' = ws c"
  by (induction c ls rule: log_all.induct) auto

lemma try_execute_push_tracks [simp]: "tracks (ws (fst (try_execute_push c))) = tracks (ws c)"
  by (auto simp: try_execute_push_def Let_def dest: log_all_ws split: sum.splits)

lemma check_missile_birth_ws [simp]: "ws (check_missile_birth c ob) = ws c"
  by (simp add: check_missile_birth_def Let_def split: option.splits prod.splits)

lemma step_keeps_home:
  assumes "dict_get (tracks (ws c)) oid = Some tr" and "home_uv tr = Some h"
    and "dict_get (tracks (ws (fst (step c ev)))) oid = Some tr'"
  shows "home_uv tr' = Some h"
proof (cases ev)
  case (ACTION_TIME ts)
  define t where "t = (case ts of None \<Rightarrow> time (ws c) | Some x \<Rightarrow> if x = 0 then time (ws c) else x)"
  define w2 where "w2 = (ws c)\<lparr>time := t, tracks := map (\<lambda>(k, tr). (k, update_speed tr t)) (tracks (ws c))\<rparr>"
  have "tracks (ws (fst (step c ev))) = tracks (cull_stale w2 t)"
    using ACTION_TIME by (simp add: step_def on_time_def Let_def t_def w2_def)
  with assms(3) have "dict_get (tracks (cull_stale w2 t)) oid = Some tr'" by simp
  then have "dict_get (tracks w2) oid = Some tr'"
    unfolding cull_stale_def by (rule cull_fold_tracks)
  then have "map_option (\<lambda>tr. update_speed tr t) (dict_get (tracks (ws c)) oid) = Some tr'"
    by (simp add: w2_def dict_get_map_values)
  with assms(1,2) show ?thesis by auto
next
  case (ACTION_GLOBAL props)
  with assms show ?thesis by (auto simp: step_def split: option.splits)
next
  case (ACTION_REMOVE k)
  with assms show ?thesis
    by (auto simp: step_def tracks_remove dict_get_dict_pop split: if_splits)
next
  case (ACTION_UPDATE ent0)
  from upsert_keeps_home [OF assms(1,2), of "norm_heading_of ent0" "time (ws c)"]
  obtain tr1 where
    "dict_get (tracks (upsert (ws c) (norm_heading_of ent0) (time (ws c)))) oid = Some tr1"
    "home_uv tr1 = Some h" by blast
  with assms(3) ACTION_UPDATE show ?thesis by (simp add: step_def Let_def)
qed

text \<open>
  C9.  Once the home plate of a track is set, no upsert overwrites it: after any sequence
  of upserts (for this or any other entity) the track is still there with the same home
  position; and after any event of the ingest loop, the track either is gone or has the
  same home position.
\<close>

theorem home_plate_set_once:
  assumes "dict_get (tracks w) oid = Some tr" and "home_uv tr = Some h"
  shows "(\<exists>tr'. dict_get (tracks (fold (\<lambda>(ob, now) w. upsert w ob now) ups w)) oid = Some tr'
                \<and> home_uv tr' = Some h)
       \<and> (\<forall>c ev tr'. ws c = w \<and> dict_get (tracks (ws (fst (step c ev)))) oid = Some tr'
                      \<longrightarrow> home_uv tr' = Some h)"
proof -
  have a: "\<exists>tr'. dict_get (tracks (fold (\<lambda>(ob, now) w. upsert w ob now) ups w)) oid = Some tr'
                \<and> home_uv tr' = Some h"
    using assms by (rule upserts_keep_home)
  have b: "home_uv tr' = Some h"
    if "ws c = w" "dict_get (tracks (ws (fst (step c ev)))) oid = Some tr'" for c ev tr'
    using step_keeps_home [of c oid tr h ev tr'] assms that by simp
  from a b show ?thesis by blast
qed

theorem home_plate_set_once_witness:
  "dict_get (tracks home_world) ''b01'' = Some ((TrackWrap blue_fighter)\<lparr>home_uv := Some (1000, 2000)\<rparr>)
   \<and> t_attr blue_fighter U = Some 9000 \<and> t_attr blue_fighter Altitude = Some 100
   \<and> (\<exists>tr'. dict_get (tracks (upsert home_world blue_fighter 5)) ''b01'' = Some tr'
              \<and> home_uv tr' = Some (1000, 2000))"
proof -
  have h1: "dict_get (tracks home_world) ''b01'' = Some ((TrackWrap blue_fighter)\<lparr>home_uv := Some (1000, 2000)\<rparr>)"
    by (simp add: home_world_def WorldState_def dict_get_def)
  have h2: "home_uv ((TrackWrap blue_fighter)\<lparr>home_uv := Some (1000, 2000)\<rparr>) = Some (1000, 2000)"
    by simp
  have h3: "t_attr blue_fighter U = Some 9000 \<and> t_attr blue_fighter Altitude = Some 100"
    by (simp add: t_attr_def blue_fighter_def)
  from home_plate_set_once [OF h1 h2, of "[(blue_fighter, 5)]"] h1 h3 show ?thesis by simp
qed

section \<open>Grouping is a transitive closure\<close>

definition contact_at :: "string \<Rightarrow> real \<Rightarrow> real \<Rightarrow> acmi_object" where
  \<comment> \<open>a hostile aircraft at a planar point, at 7000 m, heading west\<close>
  "contact_at oid u v =
     \<lparr>object_id = oid, Type = Some ''Air+FixedWing'', Coalition = Some ''Enemies'',
      Color = Some ''Red'', Name = Some ''MiG-29'', Callsign = None, Pilot = None, Group = None,
      Unit = None,
      T = Some \<lparr>U = Some u, V = Some v, Longitude = None, Latitude = None,
               Altitude = Some 7000, Heading = Some 270\<rparr>\<rparr>"


definition linked :: "item list \<Rightarrow> real \<Rightarrow> real \<Rightarrow> (nat \<times> nat) set" where
  \<comment> \<open>the pairwise closeness relation on the indices of the items\<close>
  "linked items r a =
     {(x, y). x < length items \<and> y < length items \<and> close r a (items ! x) (items ! y)}"

lemma hypot_commute: "hypot (x - y) (u - v) = hypot (y - x) (v - u)"
proof -
  have "(x - y) * (x - y) = (y - x) * (y - x)" by (simp add: algebra_simps)
  moreover have "(u - v) * (u - v) = (v - u) * (v - u)" by (simp add: algebra_simps)
  ultimately show ?thesis by (simp add: hypot_def)
qed

lemma close_sym: "close r a x y = close r a y x"
  by (simp add: close_def Let_def hypot_commute [of "it_u x" "it_u y"] abs_minus_commute)

lemma sweep_over_fixed:
  "sweep_over items r a js c = c \<Longrightarrow> j \<in> set js \<Longrightarrow> \<not> near items r a j c"
proof (induction js arbitrary: c)
  case Nil
  then show ?case by simp
next
  case (Cons j' js)
  show ?case
  proof (cases "near items r a j' c")
    case True
    have "length (c @ [j']) \<le> length (sweep_over items r a js (c @ [j']))"
      by (rule sweep_over_length)
    with Cons.prems(1) True show ?thesis by simp
  next
    case False
    with Cons show ?thesis by auto
  qed
qed

lemma grow_fixed: "sweep items r a (grow items r a c) = grow items r a c"
proof (induction items r a c rule: grow.induct)
  case (1 items r a c)
  show ?case
  proof (cases "sweep items r a c = c")
    case True
    then show ?thesis by (simp add: grow.simps)
  next
    case False
    with "1" show ?thesis by (simp add: grow.simps [of items r a c])
  qed
qed

lemma grow_contains: "set c \<subseteq> set (grow items r a c)"
proof (induction items r a c rule: grow.induct)
  case (1 items r a c)
  show ?case
  proof (cases "sweep items r a c = c")
    case True
    then show ?thesis by (simp add: grow.simps)
  next
    case False
    have "set c \<subseteq> set (sweep items r a c)" unfolding sweep_def by (rule sweep_over_grows)
    moreover have "set (sweep items r a c) \<subseteq> set (grow items r a (sweep items r a c))"
      using "1" False by simp
    ultimately show ?thesis using False by (simp add: grow.simps [of items r a c])
  qed
qed

lemma grow_closed:
  assumes "j < length items" and "k \<in> set (grow items r a c)"
    and "close r a (items ! j) (items ! k)"
  shows "j \<in> set (grow items r a c)"
proof (rule ccontr)
  assume nj: "j \<notin> set (grow items r a c)"
  have "sweep_over items r a [0..<length items] (grow items r a c) = grow items r a c"
    using grow_fixed [of items r a c] by (simp add: sweep_def)
  then have "\<not> near items r a j (grow items r a c)"
    by (rule sweep_over_fixed) (use assms(1) in simp)
  with nj assms(2,3) show False by (auto simp: near_def list_ex_iff)
qed

lemma group_loop_covers:
  "i \<in> set is \<Longrightarrow> i \<in> set used \<or> (\<exists>g \<in> set (group_loop items r a is used). i \<in> set g)"
proof (induction "is" arbitrary: used)
  case Nil
  then show ?case by simp
next
  case (Cons i' rest)
  show ?case
  proof (cases "i' \<in> set used")
    case True
    with Cons show ?thesis by auto
  next
    case False
    have seed: "i' \<in> set (grow items r a [i'])" using grow_contains [of "[i']" items r a] by simp
    show ?thesis
    proof (cases "i = i'")
      case True
      with False seed show ?thesis by (simp add: Let_def)
    next
      case neq: False
      with Cons.prems have "i \<in> set rest" by simp
      from Cons.IH [OF this, of "used @ grow items r a [i']"] False
      show ?thesis by (auto simp: Let_def)
    qed
  qed
qed

lemma group_loop_closed:
  assumes "g \<in> set (group_loop items r a is used)" and "j < length items"
    and "k \<in> set g" and "close r a (items ! j) (items ! k)"
  shows "j \<in> set g"
  using assms(1)
proof (induction "is" arbitrary: used)
  case Nil
  then show ?case by simp
next
  case (Cons i' rest)
  show ?case
  proof (cases "i' \<in> set used")
    case True
    with Cons show ?thesis by simp
  next
    case False
    with Cons.prems have "g = sort (grow items r a [i']) \<or>
        g \<in> set (group_loop items r a rest (used @ grow items r a [i']))"
      by (simp add: Let_def)
    then show ?thesis
    proof
      assume g: "g = sort (grow items r a [i'])"
      with assms(3) have "k \<in> set (grow items r a [i'])" by simp
      from grow_closed [OF assms(2) this assms(4)] g show ?thesis by simp
    next
      assume "g \<in> set (group_loop items r a rest (used @ grow items r a [i']))"
      then show ?thesis by (rule Cons.IH)
    qed
  qed
qed

lemma group_indices_chain:
  assumes "i < length items" and "j < length items" and "k < length items"
    and "close r a (items ! i) (items ! j)" and "close r a (items ! j) (items ! k)"
  shows "\<exists>g \<in> set (group_indices items r a). i \<in> set g \<and> j \<in> set g \<and> k \<in> set g"
proof -
  have "i \<in> set [0..<length items]" using assms(1) by simp
  from group_loop_covers [OF this, of "[]" items r a]
  obtain g where g: "g \<in> set (group_indices items r a)" "i \<in> set g"
    by (auto simp: group_indices_def)
  have gl: "g \<in> set (group_loop items r a [0..<length items] [])"
    using g(1) by (simp add: group_indices_def)
  have "close r a (items ! j) (items ! i)" using assms(4) by (simp add: close_sym)
  from group_loop_closed [OF gl assms(2) g(2) this] have j: "j \<in> set g" .
  have "close r a (items ! k) (items ! j)" using assms(5) by (simp add: close_sym)
  from group_loop_closed [OF gl assms(3) j this] have k: "k \<in> set g" .
  from g j k show ?thesis by blast
qed













lemma group_loop_closed_rtrancl:
  assumes "g \<in> set (group_loop items r a is used)" and "(x, y) \<in> (linked items r a)\<^sup>*"
    and "x \<in> set g"
  shows "y \<in> set g"
  using assms(2,3)
proof (induction rule: rtrancl_induct)
  case base
  then show ?case by simp
next
  case (step y z)
  then have "y \<in> set g" by simp
  moreover from step.hyps(2) have "z < length items" "close r a (items ! z) (items ! y)"
    by (auto simp: linked_def close_sym)
  ultimately show ?case using group_loop_closed [OF assms(1)] by blast
qed

lemma hypot_zero: "hypot x 0 = \<bar>x\<bar>"
  by (simp add: hypot_def)















section \<open>The MERGED alert\<close>

definition unknown_at :: "string \<Rightarrow> real \<Rightarrow> real \<Rightarrow> acmi_object" where
  \<comment> \<open>an aircraft of no known coalition at a planar point\<close>
  "unknown_at oid u v =
     \<lparr>object_id = oid, Type = Some ''Air+FixedWing'', Coalition = None,
      Color = None, Name = Some ''Unknown'', Callsign = None, Pilot = None, Group = None,
      Unit = None,
      T = Some \<lparr>U = Some u, V = Some v, Longitude = None, Latitude = None,
               Altitude = Some 7000, Heading = Some 270\<rparr>\<rparr>"


lemma rng_of: "snd (brg_rng_from_xy ou ov tu tv) = hypot (tu - ou) (tv - ov) / EARTH_M_PER_NM"
  by (simp add: brg_rng_from_xy_def Let_def)

lemma coalition_red [simp]: "coalition_of (contact_at oid u v) = ''Red''"
  by (simp add: coalition_of_def contact_at_def str_or_def BLUE_HINTS_def RED_HINTS_def)

lemma coalition_blue [simp]: "coalition_of blue_fighter = ''Blue''"
  by (simp add: coalition_of_def blue_fighter_def str_or_def BLUE_HINTS_def RED_HINTS_def)

lemma coalition_unknown [simp]: "coalition_of (unknown_at oid u v) = ''Unknown''"
  by (simp add: coalition_of_def unknown_at_def str_or_def BLUE_HINTS_def RED_HINTS_def
      TANKER_HINTS_def lower_def)

lemma not_missile_red [simp]: "\<not> is_missile (contact_at oid u v)"
  by (simp add: is_missile_def contact_at_def str_or_def MISSILE_HINTS_def)

lemma not_missile_blue [simp]: "\<not> is_missile blue_fighter"
  by (simp add: is_missile_def blue_fighter_def str_or_def MISSILE_HINTS_def)

lemma not_missile_unknown [simp]: "\<not> is_missile (unknown_at oid u v)"
  by (simp add: is_missile_def unknown_at_def str_or_def MISSILE_HINTS_def)

lemma is_air_fixtures [simp]:
  "py_in ''Air'' (str_or (Type (contact_at oid u v)) [])"
  "py_in ''Air'' (str_or (Type (unknown_at oid u v)) [])"
  "py_in ''Air'' (str_or (Type blue_fighter) [])"
  by (simp_all add: contact_at_def unknown_at_def blue_fighter_def str_or_def)

lemma not_bullseye_fixtures [simp]:
  "\<not> py_in ''Navaid+Static+Bullseye'' (str_or (Type (contact_at oid u v)) [])"
  "\<not> py_in ''Navaid+Bullseye'' (str_or (Type (contact_at oid u v)) [])"
  "\<not> py_in ''Navaid+Static+Bullseye'' (str_or (Type (unknown_at oid u v)) [])"
  "\<not> py_in ''Navaid+Bullseye'' (str_or (Type (unknown_at oid u v)) [])"
  "\<not> py_in ''Navaid+Static+Bullseye'' (str_or (Type blue_fighter) [])"
  "\<not> py_in ''Navaid+Bullseye'' (str_or (Type blue_fighter) [])"
  by (simp_all add: contact_at_def unknown_at_def blue_fighter_def str_or_def)

lemma uv_of_fixtures [simp]:
  "u \<noteq> 0 \<or> v \<noteq> 0 \<Longrightarrow> uv_of (contact_at oid u v) = Some (u, v)"
  "u \<noteq> 0 \<or> v \<noteq> 0 \<Longrightarrow> uv_of (unknown_at oid u v) = Some (u, v)"
  "uv_of blue_fighter = Some (9000, 9000)"
  by (auto simp: uv_of_def get_xy_mode_def contact_at_def unknown_at_def blue_fighter_def)


definition merge_world :: world_state where
  \<comment> \<open>a friendly aircraft and a hostile one 1 NM east of it\<close>
  "merge_world =
     WorldState
       \<lparr>time := 100,
        objects := [(''b01'', blue_fighter), (''r01'', contact_at ''r01'' 10852 9000)],
        tracks := [(''b01'', TrackWrap blue_fighter), (''r01'', TrackWrap (contact_at ''r01'' 10852 9000))],
        last_seen := [(''b01'', 100), (''r01'', 100)]\<rparr>"

definition merge_ctl :: controller where
  "merge_ctl = Controller\<lparr>ws := merge_world, last_emit_tick := 100\<rparr>"







lemma check_merged_none:
  "merged_scan (reds (ws c)) (blues (ws c)) = None \<Longrightarrow> check_merged c tick = c"
  by (simp add: check_merged_def)

lemma merged_scan_Nil [simp]: "merged_scan [] bs = None"
  by (simp add: merged_scan_def)

lemma first_some_const_None [simp]: "first_some (\<lambda>x. None) xs = None"
  by (induction xs) auto

lemma merged_scan_Nil2 [simp]: "merged_scan rs [] = None"
  unfolding merged_scan_def by (induction rs) (auto split: option.splits)


lemma log_fields [simp]:
  "last_merged_tick (log c s) = last_merged_tick c"
  "merged_cooldown (log c s) = merged_cooldown c"
  "known_ids (log c s) = known_ids c"
  "last_emit_tick (log c s) = last_emit_tick c"
  "printed (log c s) = printed c @ [s]"
  by (simp_all add: log_def)

lemma log_all_fields:
  "log_all c ls = Inr c' \<Longrightarrow>
     last_merged_tick c' = last_merged_tick c \<and> merged_cooldown c' = merged_cooldown c
     \<and> known_ids c' = known_ids c \<and> last_emit_tick c' = last_emit_tick c"
  by (induction c ls rule: log_all.induct) auto

lemma try_execute_push_fields [simp]:
  "last_merged_tick (fst (try_execute_push c)) = last_merged_tick c"
  "merged_cooldown (fst (try_execute_push c)) = merged_cooldown c"
  "known_ids (fst (try_execute_push c)) = known_ids c"
  by (auto simp: try_execute_push_def Let_def dest: log_all_fields split: sum.splits)

lemma try_execute_push_inactive:
  "\<not> active (push_plan (ws c)) \<Longrightarrow> try_execute_push c = (c, None)"
  by (simp add: try_execute_push_def)

lemma check_merged_fields [simp]:
  "merged_cooldown (check_merged c t) = merged_cooldown c"
  "known_ids (check_merged c t) = known_ids c"
  by (simp_all add: check_merged_def split: option.splits)


lemma check_missile_birth_fields [simp]:
  "last_merged_tick (check_missile_birth c ob) = last_merged_tick c"
  "merged_cooldown (check_missile_birth c ob) = merged_cooldown c"
  by (simp_all add: check_missile_birth_def Let_def split: option.splits prod.splits)

lemma step_cooldown [simp]: "merged_cooldown (fst (step c ev)) = merged_cooldown c"
  by (cases ev) (simp_all add: step_def on_time_def Let_def split: option.splits)


lemma run_loop_cooldown [simp]: "merged_cooldown (run_loop c evs) = merged_cooldown c"
proof (induction evs arbitrary: c)
  case Nil
  show ?case by simp
next
  case (Cons ev evs)
  obtain c1 e where s: "step c ev = (c1, e)" by (cases "step c ev")
  have "merged_cooldown c1 = merged_cooldown c" using step_cooldown [of c ev] s by simp
  with Cons s show ?case by (cases e) simp_all
qed


lemma cull_fold_fresh:
  "\<forall>kt \<in> set snap. \<not> ttl w < now - snd kt \<Longrightarrow>
   fold (\<lambda>(k, t) w. if ttl w < now - t then remove w k else w) snap w = w"
  by (induction snap) (auto split: prod.splits)

lemma cull_stale_fresh:
  "\<forall>kt \<in> set (last_seen w). \<not> ttl w < now - snd kt \<Longrightarrow> cull_stale w now = w"
  unfolding cull_stale_def by (rule cull_fold_fresh)

lemma air_lists_objects:
  "objects w' = objects w \<Longrightarrow> reds w' = reds w \<and> blues w' = blues w \<and> unks w' = unks w"
  by (simp add: reds_def blues_def unks_def get_air_def)

lemma on_time_quiet:
  assumes "t \<noteq> 0"
    and "\<forall>kt \<in> set (last_seen (ws c)). \<not> ttl (ws c) < t - snd kt"
    and "\<not> active (push_plan (ws c))"
    and "merged_scan (reds (ws c)) (blues (ws c)) = None"
  shows "printed (fst (on_time c (Some t))) = printed c"
proof -
  define w2 where "w2 = (ws c)\<lparr>time := t, tracks := map (\<lambda>(k, tr). (k, update_speed tr t)) (tracks (ws c))\<rparr>"
  have fresh: "\<forall>kt \<in> set (last_seen w2). \<not> ttl w2 < t - snd kt" using assms(2) by (simp add: w2_def)
  have cull: "cull_stale w2 t = w2" using fresh by (rule cull_stale_fresh)
  have lists: "reds w2 = reds (ws c) \<and> blues w2 = blues (ws c) \<and> unks w2 = unks (ws c)"
    by (rule air_lists_objects) (simp add: w2_def)
  define c2 where "c2 = c\<lparr>ws := w2, last_emit_tick := py_int (t * hz c)\<rparr>"
  have scan: "merged_scan (reds (ws c2)) (blues (ws c2)) = None"
    using assms(4) lists by (simp add: c2_def)
  have cm: "check_merged c2 (py_int (t * hz c)) = c2" using scan by (rule check_merged_none)
  have inactive: "\<not> active (push_plan (ws c2))" using assms(3) by (simp add: c2_def w2_def)
  have tp: "try_execute_push c2 = (c2, None)" using inactive by (rule try_execute_push_inactive)
  have "fst (on_time c (Some t)) =
          (if py_int (t * hz c) \<noteq> last_emit_tick c then c2 else c\<lparr>ws := w2\<rparr>)"
    using assms(1) cull cm tp by (simp add: on_time_def Let_def w2_def [symmetric] c2_def [symmetric])
  then show ?thesis by (simp add: c2_def)
qed



section \<open>The missile-birth DEFEND alert\<close>

definition missile_at :: "string \<Rightarrow> real \<Rightarrow> real \<Rightarrow> acmi_object" where
  \<comment> \<open>a hostile missile at a planar point\<close>
  "missile_at oid u v =
     \<lparr>object_id = oid, Type = Some ''Weapon+Missile'', Coalition = Some ''Enemies'',
      Color = Some ''Red'', Name = Some ''R-77'', Callsign = None, Pilot = None, Group = None,
      Unit = None,
      T = Some \<lparr>U = Some u, V = Some v, Longitude = None, Latitude = None,
               Altitude = Some 7000, Heading = Some 270\<rparr>\<rparr>"

definition defend_ctl :: controller where
  \<comment> \<open>the friendly aircraft alone, already seen by the loop\<close>
  "defend_ctl =
     Controller
       \<lparr>ws := WorldState
                \<lparr>time := 100,
                 objects := [(''b01'', blue_fighter)],
                 tracks := [(''b01'', TrackWrap blue_fighter)],
                 last_seen := [(''b01'', 100)]\<rparr>,
        last_emit_tick := 100, known_ids := [''b01'']\<rparr>"

definition planar_range :: "real \<times> real \<Rightarrow> real \<times> real \<Rightarrow> real" where
  \<comment> \<open>the range component of \<open>brg_rng_from_xy\<close>, in NM\<close>
  "planar_range p q = snd (brg_rng_from_xy (fst p) (snd p) (fst q) (snd q))"

definition nearest_step :: "real \<times> real \<Rightarrow> acmi_object \<Rightarrow> acmi_object option \<times> real \<Rightarrow> acmi_object option \<times> real" where
  "nearest_step p o' st =
     (case uv_of o' of
        None \<Rightarrow> st
      | Some ouv \<Rightarrow> if planar_range p ouv < snd st then (Some o', planar_range p ouv) else st)"

lemma nearest_from_fold: "nearest_from p objs = fold (nearest_step p) objs (None, 10 ^ 18)"
proof -
  have "(\<lambda>o' (best, best_rng).
             case uv_of o' of
               None \<Rightarrow> (best, best_rng)
             | Some ouv \<Rightarrow>
                 (let r = snd (brg_rng_from_xy (fst p) (snd p) (fst ouv) (snd ouv))
                  in if r < best_rng then (Some o', r) else (best, best_rng))) = nearest_step p"
    by (intro ext) (simp add: nearest_step_def planar_range_def Let_def split: option.splits prod.splits)
  then show ?thesis by (simp add: nearest_from_def)
qed

lemma nearest_fold_props:
  assumes "fold (nearest_step p) objs (b0, r0) = (b, r)"
  shows "r \<le> r0
       \<and> (\<forall>o' \<in> set objs. \<forall>q. uv_of o' = Some q \<longrightarrow> r \<le> planar_range p q)
       \<and> ((b = b0 \<and> r = r0)
            \<or> (\<exists>o' \<in> set objs. b = Some o' \<and> (\<exists>q. uv_of o' = Some q \<and> r = planar_range p q)))"
  using assms
proof (induction objs arbitrary: b0 r0)
  case Nil
  then show ?case by simp
next
  case (Cons x xs)
  obtain b1 r1 where s: "nearest_step p x (b0, r0) = (b1, r1)" by (cases "nearest_step p x (b0, r0)")
  from Cons.prems s have f: "fold (nearest_step p) xs (b1, r1) = (b, r)" by simp
  note ih = Cons.IH [OF f]
  have le: "r1 \<le> r0" using s by (auto simp: nearest_step_def split: option.splits if_splits)
  have xq: "\<forall>q. uv_of x = Some q \<longrightarrow> r1 \<le> planar_range p q"
    using s by (auto simp: nearest_step_def split: option.splits if_splits)
  have first: "(b1 = b0 \<and> r1 = r0) \<or> (b1 = Some x \<and> (\<exists>q. uv_of x = Some q \<and> r1 = planar_range p q))"
    using s by (auto simp: nearest_step_def split: option.splits if_splits)
  have a: "r \<le> r0" using ih le by linarith
  have b: "\<forall>o' \<in> set (x # xs). \<forall>q. uv_of o' = Some q \<longrightarrow> r \<le> planar_range p q"
  proof (intro ballI allI impI)
    fix o' q assume o': "o' \<in> set (x # xs)" and q: "uv_of o' = Some q"
    show "r \<le> planar_range p q"
    proof (cases "o' = x")
      case True
      with xq q have "r1 \<le> planar_range p q" by blast
      with ih show ?thesis by linarith
    next
      case False
      with o' have "o' \<in> set xs" by simp
      with ih q show ?thesis by blast
    qed
  qed
  have c: "(b = b0 \<and> r = r0)
            \<or> (\<exists>o' \<in> set (x # xs). b = Some o' \<and> (\<exists>q. uv_of o' = Some q \<and> r = planar_range p q))"
    using ih first by auto
  from a b c show ?case by blast
qed

lemma nearest_from_props:
  assumes "nearest_from p objs = (b, r)"
  shows "(\<forall>o' \<in> set objs. \<forall>q. uv_of o' = Some q \<longrightarrow> r \<le> planar_range p q)
       \<and> ((b = None \<and> r = 10 ^ 18)
            \<or> (\<exists>o' \<in> set objs. b = Some o' \<and> (\<exists>q. uv_of o' = Some q \<and> r = planar_range p q)))"
  using nearest_fold_props [of p objs None "10 ^ 18" b r] assms by (simp add: nearest_from_fold)

lemma nearest_from_finds:
  assumes "o' \<in> set objs" and "uv_of o' = Some q" and "planar_range p q < 10 ^ 18"
  shows "\<exists>best r. nearest_from p objs = (Some best, r) \<and> best \<in> set objs
           \<and> (\<exists>bq. uv_of best = Some bq \<and> r = planar_range p bq)
           \<and> (\<forall>x \<in> set objs. \<forall>xq. uv_of x = Some xq \<longrightarrow> r \<le> planar_range p xq)"
proof -
  obtain b r where br: "nearest_from p objs = (b, r)" by (cases "nearest_from p objs")
  note pr = nearest_from_props [OF br]
  from pr assms(1,2) have "r \<le> planar_range p q" by blast
  with assms(3) have "r \<noteq> 10 ^ 18" by linarith
  with pr obtain best where "best \<in> set objs" "b = Some best"
    "\<exists>bq. uv_of best = Some bq \<and> r = planar_range p bq" by blast
  with br pr show ?thesis by blast
qed

lemma known_ids_birth:
  "known_ids (check_missile_birth c ob) =
     (if object_id ob \<in> set (known_ids c) then known_ids c else known_ids c @ [object_id ob])"
  by (simp add: check_missile_birth_def Let_def set_add_def split: option.splits prod.splits)

lemma birth_seen: "object_id ob \<in> set (known_ids c) \<Longrightarrow> check_missile_birth c ob = c"
  by (simp add: check_missile_birth_def)

lemma step_known_ids: "set (known_ids c) \<subseteq> set (known_ids (fst (step c ev)))"
  by (cases ev) (auto simp: step_def on_time_def Let_def known_ids_birth split: option.splits)

lemma step_update_known:
  "object_id ob \<in> set (known_ids (fst (step c (ACTION_UPDATE ob))))"
  by (simp add: step_def Let_def known_ids_birth norm_heading_of_def split: option.splits)

lemma run_loop_known_ids: "set (known_ids c) \<subseteq> set (known_ids (run_loop c evs))"
proof (induction evs arbitrary: c)
  case Nil
  show ?case by simp
next
  case (Cons ev evs)
  obtain c1 e where s: "step c ev = (c1, e)" by (cases "step c ev")
  have sub: "set (known_ids c) \<subseteq> set (known_ids c1)" using step_known_ids [of c ev] s by simp
  show ?case
  proof (cases e)
    case None
    with s sub Cons.IH [of c1] show ?thesis by auto
  next
    case (Some err)
    with s sub show ?thesis by simp
  qed
qed

lemma birth_quiet:
  assumes "object_id ob \<notin> set (known_ids c)"
    and "\<not> is_missile ob \<or> coalition_of ob = ''Blue'' \<or> uv_of ob = None
         \<or> (\<exists>muv. uv_of ob = Some muv \<and>
               (\<forall>x \<in> set (blues (ws c)). \<forall>xq. uv_of x = Some xq
                   \<longrightarrow> MISSILE_ALERT_MAX_RANGE_NM < planar_range muv xq))"
  shows "check_missile_birth c ob = c\<lparr>known_ids := known_ids c @ [object_id ob]\<rparr>"
proof (cases "\<not> is_missile ob \<or> coalition_of ob = ''Blue'' \<or> uv_of ob = None")
  case True
  with assms(1) show ?thesis
    by (auto simp: check_missile_birth_def Let_def set_add_def)
next
  case False
  with assms(2) obtain muv where muv: "uv_of ob = Some muv"
    and far: "\<forall>x \<in> set (blues (ws c)). \<forall>xq. uv_of x = Some xq
                   \<longrightarrow> MISSILE_ALERT_MAX_RANGE_NM < planar_range muv xq" by blast
  obtain b r where br: "nearest_from muv (blues (ws c)) = (b, r)"
    by (cases "nearest_from muv (blues (ws c))")
  have "b = None \<or> MISSILE_ALERT_MAX_RANGE_NM < r"
    using nearest_from_props [OF br] far by blast
  with False muv br assms(1) show ?thesis
    by (auto simp: check_missile_birth_def Let_def set_add_def split: option.splits)
qed

lemma birth_emits:
  assumes "object_id ob \<notin> set (known_ids c)" and "is_missile ob" and "coalition_of ob \<noteq> ''Blue''"
    and "uv_of ob = Some muv" and "b \<in> set (blues (ws c))" and "uv_of b = Some q"
    and "planar_range muv q \<le> MISSILE_ALERT_MAX_RANGE_NM"
  shows "\<exists>best \<in> set (blues (ws c)). \<exists>buv. uv_of best = Some buv
           \<and> planar_range muv buv \<le> MISSILE_ALERT_MAX_RANGE_NM
           \<and> (\<forall>x \<in> set (blues (ws c)). \<forall>xq. uv_of x = Some xq
                  \<longrightarrow> planar_range muv buv \<le> planar_range muv xq)
           \<and> check_missile_birth c ob =
               log (c\<lparr>known_ids := known_ids c @ [object_id ob]\<rparr>)
                 (friendly_label best @ '', DEFEND! Missile inbound, BRAA ''
                  @ fmt_03d (fst (brg_rng_from_xy (fst buv) (snd buv) (fst muv) (snd muv))) @ ''/''
                  @ str_int (py_round (snd (brg_rng_from_xy (fst buv) (snd buv) (fst muv) (snd muv))))
                  @ ''.'')"
proof -
  have "planar_range muv q < 10 ^ 18" using assms(7) by (simp add: MISSILE_ALERT_MAX_RANGE_NM_def)
  from nearest_from_finds [OF assms(5,6) this]
  obtain best r bq where n: "nearest_from muv (blues (ws c)) = (Some best, r)"
    and best: "best \<in> set (blues (ws c))" and bq: "uv_of best = Some bq" "r = planar_range muv bq"
    and mn: "\<forall>x \<in> set (blues (ws c)). \<forall>xq. uv_of x = Some xq \<longrightarrow> r \<le> planar_range muv xq"
    by blast
  have "r \<le> planar_range muv q" using mn assms(5,6) by blast
  with assms(7) have r30: "r \<le> MISSILE_ALERT_MAX_RANGE_NM" by linarith
  have "check_missile_birth c ob =
          log (c\<lparr>known_ids := known_ids c @ [object_id ob]\<rparr>)
            (friendly_label best @ '', DEFEND! Missile inbound, BRAA ''
             @ fmt_03d (fst (brg_rng_from_xy (fst bq) (snd bq) (fst muv) (snd muv))) @ ''/''
             @ str_int (py_round (snd (brg_rng_from_xy (fst bq) (snd bq) (fst muv) (snd muv))))
             @ ''.'')"
    using assms(1-4) n bq(1) r30 by (simp add: check_missile_birth_def Let_def set_add_def)
  with best bq mn r30 show ?thesis by blast
qed

lemma bearing_deg_east: "0 < d \<Longrightarrow> bearing_deg d 0 = 90"
  by (simp add: bearing_deg_def atan2_def degrees_def py_fmod_def)

lemma py_round_of_int [simp]: "py_round (of_int n) = n"
  by (simp add: py_round_def)

lemma brg_rng_east:
  "0 < d \<Longrightarrow> brg_rng_from_xy u v (u + d) v = (90, d / EARTH_M_PER_NM)"
  using py_round_of_int [of 90]
  by (simp add: brg_rng_from_xy_def Let_def bearing_deg_east hypot_zero del: py_round_of_int)

lemma friendly_label_blue: "friendly_label blue_fighter = ''Viper 1-1''"
  by (simp add: friendly_label_def nonblank_def stripped_def strip_def is_space_def blue_fighter_def)

lemma missile_fixture [simp]:
  "is_missile (missile_at oid u v)"
  "coalition_of (missile_at oid u v) = ''Red''"
  "object_id (missile_at oid u v) = oid"
  "u \<noteq> 0 \<or> v \<noteq> 0 \<Longrightarrow> uv_of (missile_at oid u v) = Some (u, v)"
  by (auto simp: is_missile_def missile_at_def str_or_def coalition_of_def BLUE_HINTS_def
      RED_HINTS_def uv_of_def get_xy_mode_def)

lemma defend_ctl_blues: "blues (ws defend_ctl) = [blue_fighter]"
  by (simp add: defend_ctl_def WorldState_def blues_def get_air_def dict_values_def)

lemma norm_heading_fields [simp]:
  "object_id (norm_heading_of ob) = object_id ob"
  "Type (norm_heading_of ob) = Type ob"
  "Name (norm_heading_of ob) = Name ob"
  "Coalition (norm_heading_of ob) = Coalition ob"
  "Color (norm_heading_of ob) = Color ob"
  by (simp_all add: norm_heading_of_def split: option.splits)

lemma norm_heading_xy [simp]: "get_xy_mode (norm_heading_of ob) = get_xy_mode ob"
  by (cases "T ob") (auto simp: norm_heading_of_def get_xy_mode_def)

lemma norm_heading_keeps [simp]:
  "is_missile (norm_heading_of ob) = is_missile ob"
  "coalition_of (norm_heading_of ob) = coalition_of ob"
  "uv_of (norm_heading_of ob) = uv_of ob"
  by (simp_all add: is_missile_def coalition_of_def uv_of_def Let_def)

lemma step_update_printed:
  "printed (fst (step c (ACTION_UPDATE ob))) = printed (check_missile_birth c (norm_heading_of ob))"
  by (simp add: step_def Let_def)

lemma step_update_quiet:
  "object_id ob \<in> set (known_ids c) \<Longrightarrow> printed (fst (step c (ACTION_UPDATE ob))) = printed c"
  by (simp add: step_update_printed birth_seen)

lemma step_update_returns: "snd (step c (ACTION_UPDATE ob)) = None"
  by (simp add: step_def Let_def)

lemma step_update_first_quiet:
  assumes "object_id ob \<notin> set (known_ids c)"
    and "\<not> is_missile ob \<or> coalition_of ob = ''Blue'' \<or> uv_of ob = None
         \<or> (\<exists>muv. uv_of ob = Some muv \<and>
               (\<forall>x \<in> set (blues (ws c)). \<forall>xq. uv_of x = Some xq
                   \<longrightarrow> MISSILE_ALERT_MAX_RANGE_NM < planar_range muv xq))"
  shows "printed (fst (step c (ACTION_UPDATE ob))) = printed c"
proof -
  have "check_missile_birth c (norm_heading_of ob)
          = c\<lparr>known_ids := known_ids c @ [object_id (norm_heading_of ob)]\<rparr>"
    by (rule birth_quiet) (use assms in simp_all)
  then show ?thesis by (simp add: step_update_printed)
qed

lemma step_update_emits:
  assumes "object_id ob \<notin> set (known_ids c)" and "is_missile ob" and "coalition_of ob \<noteq> ''Blue''"
    and "uv_of ob = Some muv" and "b \<in> set (blues (ws c))" and "uv_of b = Some q"
    and "planar_range muv q \<le> MISSILE_ALERT_MAX_RANGE_NM"
  shows "\<exists>best \<in> set (blues (ws c)). \<exists>buv. uv_of best = Some buv
           \<and> planar_range muv buv \<le> MISSILE_ALERT_MAX_RANGE_NM
           \<and> (\<forall>x \<in> set (blues (ws c)). \<forall>xq. uv_of x = Some xq
                  \<longrightarrow> planar_range muv buv \<le> planar_range muv xq)
           \<and> printed (fst (step c (ACTION_UPDATE ob))) =
               printed c @
                 [friendly_label best @ '', DEFEND! Missile inbound, BRAA ''
                  @ fmt_03d (fst (brg_rng_from_xy (fst buv) (snd buv) (fst muv) (snd muv))) @ ''/''
                  @ str_int (py_round (snd (brg_rng_from_xy (fst buv) (snd buv) (fst muv) (snd muv))))
                  @ ''.'']"
proof -
  have h: "object_id (norm_heading_of ob) \<notin> set (known_ids c)" "is_missile (norm_heading_of ob)"
    "coalition_of (norm_heading_of ob) \<noteq> ''Blue''" "uv_of (norm_heading_of ob) = Some muv"
    using assms(1-4) by simp_all
  from birth_emits [OF h assms(5-7)]
  obtain best buv where best: "best \<in> set (blues (ws c))" "uv_of best = Some buv"
      "planar_range muv buv \<le> MISSILE_ALERT_MAX_RANGE_NM"
      "\<forall>x \<in> set (blues (ws c)). \<forall>xq. uv_of x = Some xq \<longrightarrow> planar_range muv buv \<le> planar_range muv xq"
    and cm: "check_missile_birth c (norm_heading_of ob) =
               log (c\<lparr>known_ids := known_ids c @ [object_id (norm_heading_of ob)]\<rparr>)
                 (friendly_label best @ '', DEFEND! Missile inbound, BRAA ''
                  @ fmt_03d (fst (brg_rng_from_xy (fst buv) (snd buv) (fst muv) (snd muv))) @ ''/''
                  @ str_int (py_round (snd (brg_rng_from_xy (fst buv) (snd buv) (fst muv) (snd muv))))
                  @ ''.'')"
    by blast
  have "printed (fst (step c (ACTION_UPDATE ob))) =
               printed c @
                 [friendly_label best @ '', DEFEND! Missile inbound, BRAA ''
                  @ fmt_03d (fst (brg_rng_from_xy (fst buv) (snd buv) (fst muv) (snd muv))) @ ''/''
                  @ str_int (py_round (snd (brg_rng_from_xy (fst buv) (snd buv) (fst muv) (snd muv))))
                  @ ''.'']"
    by (simp add: step_update_printed cm)
  with best show ?thesis by blast
qed

lemma origin_within_30: "planar_range (0, 0) (9000, 9000) \<le> MISSILE_ALERT_MAX_RANGE_NM"
proof -
  have "sqrt (9000 * 9000 + 9000 * 9000) \<le> (55560 :: real)"
    by (rule real_le_lsqrt) simp_all
  then show ?thesis
    by (simp add: planar_range_def rng_of hypot_def EARTH_M_PER_NM_def MISSILE_ALERT_MAX_RANGE_NM_def)
qed

text \<open>
  C5 as stated fails for a missile born at the planar origin.  A hostile missile whose
  first update reports \<open>U = V = 0\<close> has no planar position, so the check returns before it
  looks for a friendly aircraft: with the friendly aircraft at (9000, 9000), less than
  7 NM away, the update logs nothing.
\<close>

theorem defend_origin_counterexample:
  "object_id (missile_at ''m01'' 0 0) \<notin> set (known_ids defend_ctl)
   \<and> is_missile (missile_at ''m01'' 0 0)
   \<and> coalition_of (missile_at ''m01'' 0 0) = ''Red''
   \<and> t_attr (missile_at ''m01'' 0 0) U = Some 0 \<and> t_attr (missile_at ''m01'' 0 0) V = Some 0
   \<and> blues (ws defend_ctl) = [blue_fighter]
   \<and> uv_of blue_fighter = Some (9000, 9000)
   \<and> planar_range (0, 0) (9000, 9000) \<le> MISSILE_ALERT_MAX_RANGE_NM
   \<and> printed defend_ctl = []
   \<and> printed (fst (step defend_ctl (ACTION_UPDATE (missile_at ''m01'' 0 0)))) = []"
proof -
  let ?m = "missile_at ''m01'' 0 0"
  have h1: "object_id ?m \<notin> set (known_ids defend_ctl)" by (simp add: defend_ctl_def)
  have h2: "is_missile ?m" "coalition_of ?m = ''Red''" by simp_all
  have h3: "t_attr ?m U = Some 0" "t_attr ?m V = Some 0" by (simp_all add: t_attr_def missile_at_def)
  have uv: "uv_of ?m = None" by (simp add: uv_of_def get_xy_mode_def missile_at_def)
  have p0: "printed defend_ctl = []" by (simp add: defend_ctl_def Controller_def)
  have "check_missile_birth defend_ctl (norm_heading_of ?m)
          = defend_ctl\<lparr>known_ids := known_ids defend_ctl @ [object_id (norm_heading_of ?m)]\<rparr>"
    by (rule birth_quiet) (use h1 uv in simp_all)
  then have pr: "printed (fst (step defend_ctl (ACTION_UPDATE ?m))) = []"
    by (simp add: step_update_printed p0)
  have u: "uv_of blue_fighter = Some (9000, 9000)" by simp
  from h1 h2 h3 defend_ctl_blues u origin_within_30 p0 pr show ?thesis by blast
qed

text \<open>
  C5, amended.  On an object update the loop tests the entity for a missile birth before
  it stores it, and at most once per identifier.  If the identifier is in the seen-set
  the update logs nothing; every update puts its identifier in the seen-set, which never
  shrinks over an event or a run, so after the first update for an identifier no later
  update with that identifier logs anything, whatever happened in between.  On the first
  update, if the entity is a missile, is not of the friendly coalition, has a planar
  position, and some friendly aircraft with a planar position is within 30 NM of it,
  exactly one line is logged: the label of a nearest such friendly aircraft, then
  "DEFEND! Missile inbound, BRAA" with the bearing and range from that aircraft to the
  missile.  A first update that fails one of these tests logs nothing; in particular a
  missile without a planar position never produces the call.  An update never raises.
\<close>

theorem defend_once_per_identifier:
  "(object_id ob \<in> set (known_ids c) \<longrightarrow> printed (fst (step c (ACTION_UPDATE ob))) = printed c)
   \<and> object_id ob \<in> set (known_ids (fst (step c (ACTION_UPDATE ob))))
   \<and> set (known_ids c) \<subseteq> set (known_ids (fst (step c ev)))
   \<and> set (known_ids c) \<subseteq> set (known_ids (run_loop c evs))
   \<and> (object_id ob' = object_id ob \<longrightarrow>
        printed (fst (step (run_loop (fst (step c (ACTION_UPDATE ob))) evs) (ACTION_UPDATE ob')))
          = printed (run_loop (fst (step c (ACTION_UPDATE ob))) evs))
   \<and> (object_id ob \<notin> set (known_ids c) \<and> is_missile ob \<and> coalition_of ob \<noteq> ''Blue''
        \<and> uv_of ob = Some muv \<and> b \<in> set (blues (ws c)) \<and> uv_of b = Some q
        \<and> planar_range muv q \<le> MISSILE_ALERT_MAX_RANGE_NM
        \<longrightarrow> (\<exists>best \<in> set (blues (ws c)). \<exists>buv. uv_of best = Some buv
               \<and> planar_range muv buv \<le> MISSILE_ALERT_MAX_RANGE_NM
               \<and> (\<forall>x \<in> set (blues (ws c)). \<forall>xq. uv_of x = Some xq
                      \<longrightarrow> planar_range muv buv \<le> planar_range muv xq)
               \<and> printed (fst (step c (ACTION_UPDATE ob))) =
                   printed c @
                     [friendly_label best @ '', DEFEND! Missile inbound, BRAA ''
                      @ fmt_03d (fst (brg_rng_from_xy (fst buv) (snd buv) (fst muv) (snd muv))) @ ''/''
                      @ str_int (py_round (snd (brg_rng_from_xy (fst buv) (snd buv) (fst muv) (snd muv))))
                      @ ''.'']))
   \<and> (object_id ob \<notin> set (known_ids c)
        \<and> (\<not> is_missile ob \<or> coalition_of ob = ''Blue'' \<or> uv_of ob = None
             \<or> (\<exists>muv. uv_of ob = Some muv \<and>
                   (\<forall>x \<in> set (blues (ws c)). \<forall>xq. uv_of x = Some xq
                       \<longrightarrow> MISSILE_ALERT_MAX_RANGE_NM < planar_range muv xq)))
        \<longrightarrow> printed (fst (step c (ACTION_UPDATE ob))) = printed c)
   \<and> snd (step c (ACTION_UPDATE ob)) = None"
proof -
  have one: "object_id ob \<in> set (known_ids c) \<longrightarrow> printed (fst (step c (ACTION_UPDATE ob))) = printed c"
    by (simp add: step_update_quiet)
  have two: "object_id ob \<in> set (known_ids (fst (step c (ACTION_UPDATE ob))))"
    by (rule step_update_known)
  have three: "set (known_ids c) \<subseteq> set (known_ids (fst (step c ev)))"
    by (rule step_known_ids)
  have four: "set (known_ids c) \<subseteq> set (known_ids (run_loop c evs))"
    by (rule run_loop_known_ids)
  have five: "object_id ob' = object_id ob \<longrightarrow>
        printed (fst (step (run_loop (fst (step c (ACTION_UPDATE ob))) evs) (ACTION_UPDATE ob')))
          = printed (run_loop (fst (step c (ACTION_UPDATE ob))) evs)"
  proof
    assume same: "object_id ob' = object_id ob"
    have "object_id ob \<in> set (known_ids (fst (step c (ACTION_UPDATE ob))))"
      by (rule step_update_known)
    then have "object_id ob' \<in> set (known_ids (run_loop (fst (step c (ACTION_UPDATE ob))) evs))"
      using run_loop_known_ids [of "fst (step c (ACTION_UPDATE ob))" evs] same by auto
    then show "printed (fst (step (run_loop (fst (step c (ACTION_UPDATE ob))) evs) (ACTION_UPDATE ob')))
          = printed (run_loop (fst (step c (ACTION_UPDATE ob))) evs)" by (rule step_update_quiet)
  qed
  have six: "object_id ob \<notin> set (known_ids c) \<and> is_missile ob \<and> coalition_of ob \<noteq> ''Blue''
        \<and> uv_of ob = Some muv \<and> b \<in> set (blues (ws c)) \<and> uv_of b = Some q
        \<and> planar_range muv q \<le> MISSILE_ALERT_MAX_RANGE_NM
        \<longrightarrow> (\<exists>best \<in> set (blues (ws c)). \<exists>buv. uv_of best = Some buv
               \<and> planar_range muv buv \<le> MISSILE_ALERT_MAX_RANGE_NM
               \<and> (\<forall>x \<in> set (blues (ws c)). \<forall>xq. uv_of x = Some xq
                      \<longrightarrow> planar_range muv buv \<le> planar_range muv xq)
               \<and> printed (fst (step c (ACTION_UPDATE ob))) =
                   printed c @
                     [friendly_label best @ '', DEFEND! Missile inbound, BRAA ''
                      @ fmt_03d (fst (brg_rng_from_xy (fst buv) (snd buv) (fst muv) (snd muv))) @ ''/''
                      @ str_int (py_round (snd (brg_rng_from_xy (fst buv) (snd buv) (fst muv) (snd muv))))
                      @ ''.''])"
    using step_update_emits [of ob c muv b q] by blast
  have seven: "object_id ob \<notin> set (known_ids c)
        \<and> (\<not> is_missile ob \<or> coalition_of ob = ''Blue'' \<or> uv_of ob = None
             \<or> (\<exists>muv. uv_of ob = Some muv \<and>
                   (\<forall>x \<in> set (blues (ws c)). \<forall>xq. uv_of x = Some xq
                       \<longrightarrow> MISSILE_ALERT_MAX_RANGE_NM < planar_range muv xq)))
        \<longrightarrow> printed (fst (step c (ACTION_UPDATE ob))) = printed c"
    using step_update_first_quiet [of ob c] by blast
  have eight: "snd (step c (ACTION_UPDATE ob)) = None" by (rule step_update_returns)
  from one two three four five six seven eight show ?thesis by blast
qed

theorem defend_once_per_identifier_witness:
  "object_id (missile_at ''m01'' 10852 9000) \<notin> set (known_ids defend_ctl)
   \<and> is_missile (missile_at ''m01'' 10852 9000)
   \<and> coalition_of (missile_at ''m01'' 10852 9000) \<noteq> ''Blue''
   \<and> uv_of (missile_at ''m01'' 10852 9000) = Some (10852, 9000)
   \<and> blue_fighter \<in> set (blues (ws defend_ctl))
   \<and> uv_of blue_fighter = Some (9000, 9000)
   \<and> planar_range (10852, 9000) (9000, 9000) \<le> MISSILE_ALERT_MAX_RANGE_NM
   \<and> printed (fst (step defend_ctl (ACTION_UPDATE (missile_at ''m01'' 10852 9000))))
       = [''Viper 1-1, DEFEND! Missile inbound, BRAA 090/1.'']
   \<and> printed (fst (step (fst (step defend_ctl (ACTION_UPDATE (missile_at ''m01'' 10852 9000))))
                         (ACTION_UPDATE (missile_at ''m01'' 12000 9000))))
       = [''Viper 1-1, DEFEND! Missile inbound, BRAA 090/1.'']"
proof -
  let ?m = "missile_at ''m01'' 10852 9000"
  let ?m' = "missile_at ''m01'' 12000 9000"
  have h1: "object_id ?m \<notin> set (known_ids defend_ctl)" by (simp add: defend_ctl_def)
  have h2: "is_missile ?m" by simp
  have h3: "coalition_of ?m \<noteq> ''Blue''" by simp
  have h4: "uv_of ?m = Some (10852, 9000)" by simp
  have h5: "blue_fighter \<in> set (blues (ws defend_ctl))" by (simp add: defend_ctl_blues)
  have h6: "uv_of blue_fighter = Some (9000, 9000)" by simp
  have h7: "planar_range (10852, 9000) (9000, 9000) \<le> MISSILE_ALERT_MAX_RANGE_NM"
    by (simp add: planar_range_def rng_of hypot_zero EARTH_M_PER_NM_def MISSILE_ALERT_MAX_RANGE_NM_def)
  note th = defend_once_per_identifier [of ?m defend_ctl "ACTION_REMOVE []" "[]" ?m'
      "(10852, 9000)" blue_fighter "(9000, 9000)"]
  note emit = th [THEN conjunct2, THEN conjunct2, THEN conjunct2, THEN conjunct2, THEN conjunct2,
      THEN conjunct1, THEN mp]
  from emit h1 h2 h3 h4 h5 h6 h7
  obtain best buv where best: "best \<in> set (blues (ws defend_ctl))" "uv_of best = Some buv"
    and cm: "printed (fst (step defend_ctl (ACTION_UPDATE ?m))) =
               printed defend_ctl @
                 [friendly_label best @ '', DEFEND! Missile inbound, BRAA ''
                  @ fmt_03d (fst (brg_rng_from_xy (fst buv) (snd buv) 10852 9000)) @ ''/''
                  @ str_int (py_round (snd (brg_rng_from_xy (fst buv) (snd buv) 10852 9000)))
                  @ ''.'']" by auto
  from best have b: "best = blue_fighter" "buv = (9000, 9000)" by (simp_all add: defend_ctl_blues)
  have east: "brg_rng_from_xy 9000 9000 10852 9000 = (90, 1)"
    using brg_rng_east [of 1852 9000 9000] by (simp add: EARTH_M_PER_NM_def)
  have lbl: "friendly_label blue_fighter @ '', DEFEND! Missile inbound, BRAA ''
               @ fmt_03d (fst (brg_rng_from_xy 9000 9000 10852 9000)) @ ''/''
               @ str_int (py_round (snd (brg_rng_from_xy 9000 9000 10852 9000))) @ ''.''
             = ''Viper 1-1, DEFEND! Missile inbound, BRAA 090/1.''"
    using py_round_of_int [of 1]
    by (simp add: east friendly_label_blue fmt_03d_def str_int_def digits.simps del: py_round_of_int)
  have "printed defend_ctl = []" by (simp add: defend_ctl_def Controller_def)
  then have line: "printed (fst (step defend_ctl (ACTION_UPDATE ?m)))
                = [''Viper 1-1, DEFEND! Missile inbound, BRAA 090/1.'']"
    using cm lbl by (simp add: b)
  have same: "object_id ?m' = object_id ?m" by simp
  from th [THEN conjunct2, THEN conjunct2, THEN conjunct2, THEN conjunct2, THEN conjunct1, THEN mp,
      OF same]
  have again: "printed (fst (step (fst (step defend_ctl (ACTION_UPDATE ?m))) (ACTION_UPDATE ?m')))
                 = printed (fst (step defend_ctl (ACTION_UPDATE ?m)))" by simp
  from h1 h2 h3 h4 h5 h6 h7 line again show ?thesis by simp
qed

section \<open>Bearing and range, and back\<close>

lemma hypot_nonneg [simp]: "0 \<le> hypot x y"
  by (simp add: hypot_def)

lemma hypot_scale:
  assumes "x \<noteq> 0"
  shows "hypot y x = \<bar>x\<bar> * sqrt (1 + (y / x)\<^sup>2)"
proof -
  have "y * y + x * x = x\<^sup>2 * (1 + (y / x)\<^sup>2)"
    using assms by (simp add: power2_eq_square field_simps)
  then have "hypot y x = sqrt (x\<^sup>2 * (1 + (y / x)\<^sup>2))" by (simp add: hypot_def)
  also have "\<dots> = \<bar>x\<bar> * sqrt (1 + (y / x)\<^sup>2)" by (simp add: real_sqrt_mult)
  finally show ?thesis .
qed

lemma sqrt_pos_aux: "0 < sqrt (1 + (t::real)\<^sup>2)"
  by (simp add: add_pos_nonneg)

lemma atan2_sin_cos:
  "sin (atan2 y x) * hypot y x = y \<and> cos (atan2 y x) * hypot y x = x"
proof -
  consider (pos) "0 < x" | (neg) "x < 0" | (zp) "x = 0" "0 < y" | (zn) "x = 0" "y < 0" | (zz) "x = 0" "y = 0"
    by linarith
  then show ?thesis
  proof cases
    case pos
    let ?s = "sqrt (1 + (y / x)\<^sup>2)"
    have s: "0 < ?s" by (rule sqrt_pos_aux)
    have h: "hypot y x = x * ?s" using pos hypot_scale [of x y] by simp
    have a: "atan2 y x = arctan (y / x)" using pos by (simp add: atan2_def)
    have "sin (arctan (y / x)) * (x * ?s) = y"
      using s pos by (simp add: sin_arctan)
    moreover have "cos (arctan (y / x)) * (x * ?s) = x"
      using s pos by (simp add: cos_arctan)
    ultimately show ?thesis by (simp add: a h)
  next
    case neg
    let ?s = "sqrt (1 + (y / x)\<^sup>2)"
    have s: "0 < ?s" by (rule sqrt_pos_aux)
    have h: "hypot y x = - x * ?s" using neg hypot_scale [of x y] by simp
    have sc: "sin (atan2 y x) = - sin (arctan (y / x)) \<and> cos (atan2 y x) = - cos (arctan (y / x))"
      using neg by (simp add: atan2_def)
    have "- sin (arctan (y / x)) * (- x * ?s) = y"
      using s neg by (simp add: sin_arctan)
    moreover have "- cos (arctan (y / x)) * (- x * ?s) = x"
      using s neg by (simp add: cos_arctan)
    ultimately show ?thesis by (simp add: sc h)
  next
    case zp
    then show ?thesis by (simp add: atan2_def hypot_def)
  next
    case zn
    then show ?thesis by (simp add: atan2_def hypot_def)
  next
    case zz
    then show ?thesis by (simp add: atan2_def hypot_def)
  qed
qed

lemma radians_bearing:
  "radians (bearing_deg dx dy)
     = atan2 dx dy + (2 * pi) * of_int (1 - \<lfloor>(degrees (atan2 dx dy) + 360) / 360\<rfloor>)"
  by (simp add: radians_def bearing_deg_def py_fmod_def degrees_def field_simps)

lemma sin_cos_bearing:
  "sin (radians (bearing_deg dx dy)) = sin (atan2 dx dy)
   \<and> cos (radians (bearing_deg dx dy)) = cos (atan2 dx dy)"
  unfolding radians_bearing by (simp only: sin_add cos_add sin_int_2pin cos_int_2pin) simp

lemma exact_bearing_roundtrip:
  "bulls_to_uv ou ov (bearing_deg (tu - ou) (tv - ov)) (hypot (tu - ou) (tv - ov) / EARTH_M_PER_NM)
     = (tu, tv)"
  using atan2_sin_cos [of "tu - ou" "tv - ov"]
  by (simp add: bulls_to_uv_def Let_def sin_cos_bearing EARTH_M_PER_NM_def)

lemma py_fmod_range: "0 < m \<Longrightarrow> 0 \<le> py_fmod x m \<and> py_fmod x m < m"
proof -
  assume m: "0 < m"
  have a: "of_int \<lfloor>x / m\<rfloor> * m \<le> x" using m by (rule floor_divide_lower)
  have b: "x < (of_int \<lfloor>x / m\<rfloor> + 1) * m" using m by (rule floor_divide_upper)
  from a b show ?thesis by (simp add: py_fmod_def algebra_simps)
qed

lemma bearing_deg_range: "0 \<le> bearing_deg dx dy \<and> bearing_deg dx dy < 360"
  unfolding bearing_deg_def by (rule py_fmod_range) simp

lemma hypot_unit_scale:
  assumes "s * s + c * c = 1"
  shows "hypot (s * m) (c * m) = \<bar>m\<bar>"
proof -
  have "s * m * (s * m) + c * m * (c * m) = (s * s + c * c) * (m * m)" by (simp add: algebra_simps)
  also have "\<dots> = m * m" using assms by simp
  finally show ?thesis by (simp add: hypot_def)
qed

lemma bulls_to_uv_range:
  assumes "0 \<le> r"
  shows "hypot (fst (bulls_to_uv ou ov b r) - ou) (snd (bulls_to_uv ou ov b r) - ov) = r * EARTH_M_PER_NM"
proof -
  have "sin (radians b) * sin (radians b) + cos (radians b) * cos (radians b) = 1"
    using sin_cos_squared_add [of "radians b"] by (simp add: power2_eq_square)
  from hypot_unit_scale [OF this, of "r * EARTH_M_PER_NM"] assms
  show ?thesis by (simp add: bulls_to_uv_def Let_def EARTH_M_PER_NM_def)
qed

lemma py_round_error: "\<bar>of_int (py_round x) - x\<bar> \<le> 1 / 2"
proof -
  have "of_int \<lfloor>x\<rfloor> \<le> x" "x < of_int \<lfloor>x\<rfloor> + 1" by linarith+
  then show ?thesis by (auto simp: py_round_def Let_def)
qed

lemma arctan_le_self:
  assumes "0 \<le> (x::real)"
  shows "arctan x \<le> x"
proof -
  have "(\<lambda>t. t - arctan t) 0 \<le> (\<lambda>t. t - arctan t) x"
  proof (rule DERIV_nonneg_imp_nondecreasing [OF assms])
    fix t :: real
    have d: "((\<lambda>t. t - arctan t) has_real_derivative (1 - inverse (1 + t\<^sup>2))) (at t)"
      by (auto intro!: derivative_eq_intros)
    have "1 \<le> 1 + t\<^sup>2" by simp
    then have "inverse (1 + t\<^sup>2) \<le> 1" by (rule inverse_le_1_iff [THEN iffD2, OF disjI2])
    then have "0 \<le> 1 - inverse (1 + t\<^sup>2)" by simp
    with d show "\<exists>y. ((\<lambda>t. t - arctan t) has_real_derivative y) (at t) \<and> 0 \<le> y" by blast
  qed
  then show ?thesis by simp
qed

lemma small_bearing:
  "0 < degrees (arctan (5 / 1000)) \<and> degrees (arctan (5 / 1000)) < 1 / 2"
proof -
  have pos: "0 < arctan (5 / 1000 :: real)" by (simp add: zero_less_arctan_iff)
  have le: "arctan (5 / 1000 :: real) \<le> 5 / 1000" by (rule arctan_le_self) simp
  have "arctan (5 / 1000 :: real) * 360 < pi" using le pi_ge_two by linarith
  then have "arctan (5 / 1000 :: real) * 180 / pi < 1 / 2" by (simp add: field_simps)
  with pos show ?thesis by (simp add: degrees_def)
qed

lemma bearing_5_1000: "py_round (bearing_deg 5 1000) = 0"
proof -
  let ?d = "degrees (arctan (5 / 1000))"
  have d: "0 < ?d" "?d < 1 / 2" using small_bearing by simp_all
  have "\<lfloor>(?d + 360) / 360\<rfloor> = 1" using d by (simp add: floor_eq_iff)
  then have b: "bearing_deg 5 1000 = ?d" by (simp add: bearing_deg_def atan2_def py_fmod_def)
  have "\<lfloor>?d\<rfloor> = 0" using d by (simp add: floor_eq_iff)
  with d show ?thesis by (simp add: b py_round_def Let_def)
qed

text \<open>
  C6 as stated fails, and not by a floating-point margin: \<open>brg_rng_from_xy\<close> rounds the
  bearing to a whole degree.  From the origin, the point (5, 1000) has a bearing below
  half a degree, reported as 0, and the reconstruction lands on the V axis, 5 m from the
  point (at a range of 1 km).
\<close>

theorem roundtrip_counterexample:
  "fst (brg_rng_from_xy 0 0 5 1000) = 0
   \<and> fst (bulls_to_uv 0 0 (of_int (fst (brg_rng_from_xy 0 0 5 1000))) (snd (brg_rng_from_xy 0 0 5 1000))) = 0
   \<and> \<bar>fst (bulls_to_uv 0 0 (of_int (fst (brg_rng_from_xy 0 0 5 1000))) (snd (brg_rng_from_xy 0 0 5 1000))) - 5\<bar> = 5"
proof -
  have b: "fst (brg_rng_from_xy 0 0 5 1000) = 0"
    by (simp add: brg_rng_from_xy_def Let_def bearing_5_1000)
  have "fst (bulls_to_uv 0 0 0 r) = 0" for r
    by (simp add: bulls_to_uv_def Let_def radians_def)
  with b show ?thesis by simp
qed

text \<open>
  C6, amended.  The reconstruction from the reported bearing (a whole number of degrees)
  and range reproduces the range exactly: the reconstructed point is as far from the
  origin as the target.  The reported bearing differs from the exact one by the rounding,
  at most half a degree; the reconstruction from the exact bearing is the target, and so
  is the reconstruction from the reported bearing whenever the exact bearing is a whole
  number of degrees.  (In real arithmetic; floating point adds its own tolerance.)
\<close>

theorem roundtrip_up_to_rounding:
  assumes "brg_rng_from_xy ou ov tu tv = (b, r)"
  shows "hypot (fst (bulls_to_uv ou ov (of_int b) r) - ou) (snd (bulls_to_uv ou ov (of_int b) r) - ov)
           = hypot (tu - ou) (tv - ov)
       \<and> bulls_to_uv ou ov (bearing_deg (tu - ou) (tv - ov)) r = (tu, tv)
       \<and> b = py_round (bearing_deg (tu - ou) (tv - ov)) mod 360
       \<and> \<bar>of_int (py_round (bearing_deg (tu - ou) (tv - ov))) - bearing_deg (tu - ou) (tv - ov)\<bar> \<le> 1 / 2
       \<and> (bearing_deg (tu - ou) (tv - ov) = of_int k \<longrightarrow> bulls_to_uv ou ov (of_int b) r = (tu, tv))"
proof -
  let ?dx = "tu - ou" and ?dy = "tv - ov"
  have r: "r = hypot ?dx ?dy / EARTH_M_PER_NM" and b: "b = py_round (bearing_deg ?dx ?dy) mod 360"
    using assms by (simp_all add: brg_rng_from_xy_def Let_def)
  have r0: "0 \<le> r" by (simp add: r EARTH_M_PER_NM_def)
  have one: "hypot (fst (bulls_to_uv ou ov (of_int b) r) - ou) (snd (bulls_to_uv ou ov (of_int b) r) - ov)
           = hypot ?dx ?dy"
    using bulls_to_uv_range [OF r0, of ou ov "of_int b"] by (simp add: r EARTH_M_PER_NM_def)
  have two: "bulls_to_uv ou ov (bearing_deg ?dx ?dy) r = (tu, tv)"
    unfolding r by (rule exact_bearing_roundtrip)
  have four: "\<bar>of_int (py_round (bearing_deg ?dx ?dy)) - bearing_deg ?dx ?dy\<bar> \<le> 1 / 2"
    by (rule py_round_error)
  have five: "bearing_deg ?dx ?dy = of_int k \<longrightarrow> bulls_to_uv ou ov (of_int b) r = (tu, tv)"
  proof
    assume k: "bearing_deg ?dx ?dy = of_int k"
    with bearing_deg_range [of ?dx ?dy] have "0 \<le> k" "k < 360" by simp_all
    then have "b = k" by (simp add: b k)
    with two k show "bulls_to_uv ou ov (of_int b) r = (tu, tv)" by simp
  qed
  from one two b four five show ?thesis by blast
qed

theorem roundtrip_up_to_rounding_witness:
  "brg_rng_from_xy 0 0 1852 0 = (90, 1)
   \<and> bearing_deg (1852 - 0) (0 - 0) = of_int 90
   \<and> bulls_to_uv 0 0 (of_int 90) 1 = (1852, 0)"
proof -
  have a: "brg_rng_from_xy 0 0 1852 0 = (90, 1)"
    using brg_rng_east [of 1852 0 0] by (simp add: EARTH_M_PER_NM_def)
  have k: "bearing_deg (1852 - 0) (0 - 0) = of_int 90" by (simp add: bearing_deg_east)
  from roundtrip_up_to_rounding [OF a, of 90] k
  have "bulls_to_uv 0 0 (of_int 90) 1 = (1852, 0)" by blast
  with a k show ?thesis by blast
qed

section \<open>The picture of a single hostile contact\<close>

definition bullseye_at :: "real \<Rightarrow> real \<Rightarrow> acmi_object" where
  \<comment> \<open>a bullseye navaid of the friendly coalition at a planar point\<close>
  "bullseye_at u v =
     \<lparr>object_id = ''bull'', Type = Some ''Navaid+Static+Bullseye'', Coalition = Some ''Allies'',
      Color = Some ''Blue'', Name = Some ''Bullseye'', Callsign = None, Pilot = None, Group = None,
      Unit = None,
      T = Some \<lparr>U = Some u, V = Some v, Longitude = None, Latitude = None,
               Altitude = Some 0, Heading = None\<rparr>\<rparr>"

definition inbound_hostile :: "real \<Rightarrow> real \<Rightarrow> acmi_object" where
  \<comment> \<open>a hostile aircraft at a planar point, at 7620 m (25,000 ft), heading 270\<close>
  "inbound_hostile u v =
     \<lparr>object_id = ''r01'', Type = Some ''Air+FixedWing'', Coalition = Some ''Enemies'',
      Color = Some ''Red'', Name = Some ''MiG-29'', Callsign = None, Pilot = None, Group = None,
      Unit = None,
      T = Some \<lparr>U = Some u, V = Some v, Longitude = None, Latitude = None,
               Altitude = Some 7620, Heading = Some 270\<rparr>\<rparr>"

definition picture_ctl :: "real \<Rightarrow> real \<Rightarrow> controller" where
  \<comment> \<open>the bullseye at \<open>(bu, bv)\<close> and one hostile aircraft 20 NM due east of it\<close>
  "picture_ctl bu bv =
     Controller
       \<lparr>ws := WorldState
                \<lparr>time := 100,
                 objects := [(''bull'', bullseye_at bu bv), (''r01'', inbound_hostile (bu + 37040) bv)],
                 tracks := [(''bull'', TrackWrap (bullseye_at bu bv)),
                            (''r01'', TrackWrap (inbound_hostile (bu + 37040) bv))],
                 last_seen := [(''bull'', 100), (''r01'', 100)],
                 bullseye_by_coal := [(''Allies'', ''bull'')]\<rparr>,
        last_emit_tick := 100, known_ids := [''bull'', ''r01'']\<rparr>"

lemma grow_single: "grow [it] r a [0] = [0]"
  by (simp add: grow.simps [of "[it]" r a "[0]"] sweep_def near_def)

lemma group_indices_single: "group_indices [it] r a = [[0]]"
  by (simp add: group_indices_def grow_single)

lemma make_items_single:
  assumes "uv_of e = Some (u, v)"
  shows "make_items [e] = [\<lparr>it_o = e, it_u = u, it_v = v,
                            it_alt_ft = map_option (\<lambda>alt_m. alt_m * M_TO_FT) (t_attr e Altitude)\<rparr>]"
  using assms
  by (auto simp: make_items_def uv_of_def split: option.splits xy_mode.splits)

lemma group_contacts_single:
  assumes "uv_of e = Some (u, v)"
  shows "group_contacts [e] r a = [[\<lparr>it_o = e, it_u = u, it_v = v,
                            it_alt_ft = map_option (\<lambda>alt_m. alt_m * M_TO_FT) (t_attr e Altitude)\<rparr>]]"
  by (simp add: group_contacts_def make_items_single [OF assms] group_indices_single)

lemma angels_25: "py_round (7620 * M_TO_FT / 1000) = 25"
  by (simp add: M_TO_FT_def py_round_def Let_def)

lemma norm_head_270: "norm_head (Some 270) = Some 270"
  by (simp add: norm_head_def py_fmod_def)

lemma aspect_270_090: "aspect_word (Some 270) (Some 90) = ''COLD''"
  by (simp add: aspect_word_def py_fmod_def BEAM_MIN_def BEAM_MAX_def HOT_MAX_def COLD_MIN_def Let_def)

lemma aspect_090_090: "aspect_word (Some 90) (Some 90) = ''HOT''"
  by (simp add: aspect_word_def py_fmod_def BEAM_MIN_def BEAM_MAX_def HOT_MAX_def COLD_MIN_def Let_def)

lemma summarize_single:
  assumes "uv_of e = Some (bu + 37040, bv)" and "t_attr e Altitude = Some 7620"
    and "t_attr e Heading = Some 270" and "coalition_of e = ''Red''"
  shows "summarize_group (bu, bv) wfree
           [\<lparr>it_o = e, it_u = bu + 37040, it_v = bv,
             it_alt_ft = map_option (\<lambda>alt_m. alt_m * M_TO_FT) (t_attr e Altitude)\<rparr>]
         = \<lparr>s_size = 1, s_brg = 90, s_rng_nm = 20, s_lo_ang = Some 25, s_hi_ang = Some 25,
            s_aspect = aspect_word (Some 270) (Some 90),
            s_id = (if wfree then ''Hostile'' else ''Bandit''),
            s_centroid_uv = (bu + 37040, bv)\<rparr>"
  using brg_rng_east [of 37040 bu bv] angels_25
  by (simp add: summarize_group_def Let_def assms norm_head_270 ident_of_def count_ident_def
      dict_get_def EARTH_M_PER_NM_def)

lemma strip_line: "strip (''PICTURE: '' @ xs @ ''. '') = ''PICTURE: '' @ xs @ ''.''"
  by (simp add: strip_def is_space_def)

lemma format_single:
  "format_picture
     [\<lparr>s_size = 1, s_brg = 90, s_rng_nm = 20, s_lo_ang = Some 25, s_hi_ang = Some 25,
       s_aspect = asp, s_id = (if wfree then ''Hostile'' else ''Bandit''),
       s_centroid_uv = cuv\<rparr>]
   = ''PICTURE: single group. Nearest group BULLS 090 for 20, single, ''
     @ (if wfree then ''hostile'' else ''bandit'') @ '', angels 25, '' @ asp @ ''.''"
proof -
  have r: "py_round 20 = 20" using py_round_of_int [of 20] by simp
  have l: "lower ''Hostile'' = ''hostile''" "lower ''Bandit'' = ''bandit''"
    by (simp_all add: lower_def lower_char_def)
  have "strip (''PICTURE: '' @ (''single group. Nearest group BULLS 090 for 20, single, ''
          @ (if wfree then ''hostile'' else ''bandit'') @ '', angels 25, '' @ asp) @ ''. '')
        = ''PICTURE: '' @ (''single group. Nearest group BULLS 090 for 20, single, ''
          @ (if wfree then ''hostile'' else ''bandit'') @ '', angels 25, '' @ asp) @ ''.''"
    by (rule strip_line)
  then show ?thesis
    by (cases wfree)
       (simp_all add: format_picture_def group_line_def labels_def size_word_def fmt_03d_def
          str_int_def digits.simps r l Let_def)
qed

text \<open>
  C1 as stated fails.  An entity at the planar origin has no planar position, so with the
  bullseye at (0,0) and one hostile aircraft at bearing 090, 20 NM, 25,000 ft, heading 270,
  the reply is that no bullseye is available.
\<close>

theorem picture_origin_counterexample:
  "find_bull (ws (picture_ctl 0 0)) = Some (bullseye_at 0 0)
   \<and> t_attr (bullseye_at 0 0) U = Some 0 \<and> t_attr (bullseye_at 0 0) V = Some 0
   \<and> reds (ws (picture_ctl 0 0)) = [inbound_hostile 37040 0]
   \<and> unks (ws (picture_ctl 0 0)) = []
   \<and> uv_of (inbound_hostile 37040 0) = Some (37040, 0)
   \<and> snd (handle_text (picture_ctl 0 0) (Picture None)) = Inr ''PICTURE: no bullseye available yet.''"
proof -
  have lists: "reds (ws (picture_ctl 0 0)) = [inbound_hostile 37040 0]"
    "unks (ws (picture_ctl 0 0)) = []" "blues (ws (picture_ctl 0 0)) = []"
    by (simp_all add: picture_ctl_def WorldState_def reds_def unks_def blues_def get_air_def
        dict_values_def bullseye_at_def inbound_hostile_def str_or_def coalition_of_def
        BLUE_HINTS_def RED_HINTS_def)
  have fb: "find_bull (ws (picture_ctl 0 0)) = Some (bullseye_at 0 0)"
    by (simp add: find_bull_def picture_ctl_def WorldState_def dict_get_def)
  have uvb: "uv_of (bullseye_at 0 0) = None"
    by (simp add: uv_of_def get_xy_mode_def bullseye_at_def)
  have uve: "uv_of (inbound_hostile 37040 0) = Some (37040, 0)"
    by (simp add: uv_of_def get_xy_mode_def inbound_hostile_def)
  have "snd (handle_text (picture_ctl 0 0) (Picture None)) = Inr ''PICTURE: no bullseye available yet.''"
    by (simp add: handle_text_def picture_line_def buv_of_def fb uvb lists with_cs_def Let_def)
  with lists fb uve show ?thesis by (simp add: t_attr_def bullseye_at_def)
qed

text \<open>
  C1, amended.  Let the bullseye reference resolve to an entity and let there be exactly
  one non-friendly air contact, a hostile one at 7620 m (25,000 ft) heading 270.  If the
  bullseye entity is at the planar origin (its \<open>U\<close> and \<open>V\<close> absent or zero), the reply of
  \<open>picture\<close> is "PICTURE: no bullseye available yet.".  If the bullseye has a planar
  position and the contact is 20 NM due east of it, the reply is "PICTURE: single group.
  Nearest group BULLS 090 for 20, single, bandit, angels 25, <aspect>." with "hostile" for
  "bandit" when weapons are free, where <aspect> is what \<open>aspect_word\<close> gives for heading
  270 and bearing 090.  A callsign, when given, is put in front.
\<close>

theorem picture_single_group:
  assumes "find_bull (ws c) = Some bull"
    and "reds (ws c) = [e]" and "unks (ws c) = []"
    and "t_attr e Altitude = Some 7620" and "t_attr e Heading = Some 270"
  shows "(T bull = Some t \<and> U t \<in> {None, Some 0} \<and> V t \<in> {None, Some 0}
            \<longrightarrow> snd (handle_text c (Picture cs))
                  = Inr (with_cs cs ''PICTURE: no bullseye available yet.''))
       \<and> (uv_of bull = Some (bu, bv) \<and> uv_of e = Some (bu + 37040, bv)
            \<longrightarrow> snd (handle_text c (Picture cs))
                  = Inr (with_cs cs
                          (''PICTURE: single group. Nearest group BULLS 090 for 20, single, ''
                           @ (if weapons_free c then ''hostile'' else ''bandit'')
                           @ '', angels 25, '' @ aspect_word (Some 270) (Some 90) @ ''.'')))"
proof -
  have red: "coalition_of e = ''Red''"
  proof -
    have "e \<in> set (reds (ws c))" using assms(2) by simp
    then show ?thesis by (simp add: reds_def)
  qed
  have one: "T bull = Some t \<and> U t \<in> {None, Some 0} \<and> V t \<in> {None, Some 0}
            \<longrightarrow> snd (handle_text c (Picture cs))
                  = Inr (with_cs cs ''PICTURE: no bullseye available yet.'')"
  proof
    assume "T bull = Some t \<and> U t \<in> {None, Some 0} \<and> V t \<in> {None, Some 0}"
    then have "uv_of bull = None" by (intro uv_of_origin [of bull t]) simp_all
    then show "snd (handle_text c (Picture cs))
                  = Inr (with_cs cs ''PICTURE: no bullseye available yet.'')"
      by (simp add: handle_text_def picture_line_def buv_of_def assms(1,2,3) Let_def)
  qed
  have two: "uv_of bull = Some (bu, bv) \<and> uv_of e = Some (bu + 37040, bv)
            \<longrightarrow> snd (handle_text c (Picture cs))
                  = Inr (with_cs cs
                          (''PICTURE: single group. Nearest group BULLS 090 for 20, single, ''
                           @ (if weapons_free c then ''hostile'' else ''bandit'')
                           @ '', angels 25, '' @ aspect_word (Some 270) (Some 90) @ ''.''))"
  proof
    assume h: "uv_of bull = Some (bu, bv) \<and> uv_of e = Some (bu + 37040, bv)"
    then have uvb: "uv_of bull = Some (bu, bv)" and uve: "uv_of e = Some (bu + 37040, bv)" by simp_all
    have g: "group_contacts [e] (grp_range_nm c) (grp_alt_ft c)
               = [[\<lparr>it_o = e, it_u = bu + 37040, it_v = bv,
                     it_alt_ft = map_option (\<lambda>alt_m. alt_m * M_TO_FT) (t_attr e Altitude)\<rparr>]]"
      using uve by (rule group_contacts_single)
    have sm: "summarize_groups (group_contacts [e] (grp_range_nm c) (grp_alt_ft c)) (bu, bv) (weapons_free c)
               = [\<lparr>s_size = 1, s_brg = 90, s_rng_nm = 20, s_lo_ang = Some 25, s_hi_ang = Some 25,
                   s_aspect = aspect_word (Some 270) (Some 90),
                   s_id = (if weapons_free c then ''Hostile'' else ''Bandit''),
                   s_centroid_uv = (bu + 37040, bv)\<rparr>]"
      unfolding g summarize_groups_def
      using summarize_single [OF uve assms(4,5) red, of "weapons_free c"] by simp
    have "picture_line c
            = ''PICTURE: single group. Nearest group BULLS 090 for 20, single, ''
              @ (if weapons_free c then ''hostile'' else ''bandit'')
              @ '', angels 25, '' @ aspect_word (Some 270) (Some 90) @ ''.''"
      unfolding picture_line_def Let_def buv_of_def assms(1,2,3)
      using sm format_single [of "aspect_word (Some 270) (Some 90)" "weapons_free c" "(bu + 37040, bv)"]
      by (simp add: uvb)
    then show "snd (handle_text c (Picture cs))
                  = Inr (with_cs cs
                          (''PICTURE: single group. Nearest group BULLS 090 for 20, single, ''
                           @ (if weapons_free c then ''hostile'' else ''bandit'')
                           @ '', angels 25, '' @ aspect_word (Some 270) (Some 90) @ ''.''))"
      by (simp add: handle_text_def)
  qed
  from one two show ?thesis by blast
qed

theorem picture_single_group_witness:
  "find_bull (ws (picture_ctl 1000 2000)) = Some (bullseye_at 1000 2000)
   \<and> reds (ws (picture_ctl 1000 2000)) = [inbound_hostile 38040 2000]
   \<and> unks (ws (picture_ctl 1000 2000)) = []
   \<and> uv_of (bullseye_at 1000 2000) = Some (1000, 2000)
   \<and> uv_of (inbound_hostile 38040 2000) = Some (38040, 2000)
   \<and> snd (handle_text (picture_ctl 1000 2000) (Picture None))
       = Inr ''PICTURE: single group. Nearest group BULLS 090 for 20, single, bandit, angels 25, COLD.''"
proof -
  let ?c = "picture_ctl 1000 2000"
  have lists: "reds (ws ?c) = [inbound_hostile (1000 + 37040) 2000]" "unks (ws ?c) = []"
    by (simp_all add: picture_ctl_def WorldState_def reds_def unks_def get_air_def
        dict_values_def bullseye_at_def inbound_hostile_def str_or_def coalition_of_def
        BLUE_HINTS_def RED_HINTS_def)
  have fb: "find_bull (ws ?c) = Some (bullseye_at 1000 2000)"
    by (simp add: find_bull_def picture_ctl_def WorldState_def dict_get_def)
  have uvb: "uv_of (bullseye_at 1000 2000) = Some (1000, 2000)"
    by (simp add: uv_of_def get_xy_mode_def bullseye_at_def)
  have uve: "uv_of (inbound_hostile (1000 + 37040) 2000) = Some (1000 + 37040, 2000)"
    by (simp add: uv_of_def get_xy_mode_def inbound_hostile_def)
  have alt: "t_attr (inbound_hostile (1000 + 37040) 2000) Altitude = Some 7620"
    and hdg: "t_attr (inbound_hostile (1000 + 37040) 2000) Heading = Some 270"
    by (simp_all add: t_attr_def inbound_hostile_def)
  have wf: "\<not> weapons_free ?c" by (simp add: picture_ctl_def Controller_def)
  from picture_single_group [OF fb lists alt hdg, of _ None 1000 2000, THEN conjunct2] uvb uve
  have "snd (handle_text ?c (Picture None))
          = Inr (with_cs None
                  (''PICTURE: single group. Nearest group BULLS 090 for 20, single, ''
                   @ (if weapons_free ?c then ''hostile'' else ''bandit'')
                   @ '', angels 25, '' @ aspect_word (Some 270) (Some 90) @ ''.''))"
    by blast
  then have "snd (handle_text ?c (Picture None))
       = Inr ''PICTURE: single group. Nearest group BULLS 090 for 20, single, bandit, angels 25, COLD.''"
    by (simp add: wf with_cs_def aspect_270_090)
  with lists fb uvb uve show ?thesis by simp
qed

section \<open>The PUSH plan\<close>

lemma parse_in_30s: "parse_time_offset (Some ''in 30s'') = Some 30"
  by (simp add: parse_time_offset_def strip_def is_space_def lower_def lower_char_def digits_then_def
      is_digit_def Let_def)

lemma push_plan_remove [simp]: "push_plan (remove w k) = push_plan w"
  by (simp add: remove_def)

lemma push_plan_upsert [simp]: "push_plan (upsert w ob now) = push_plan w"
  by (simp add: upsert_def Let_def)

lemma push_plan_cull_fold:
  "push_plan (fold (\<lambda>(k, t) w. if ttl w < now - t then remove w k else w) snap w) = push_plan w"
  by (induction snap arbitrary: w) (auto split: prod.splits)

lemma push_plan_cull [simp]: "push_plan (cull_stale w now) = push_plan w"
  by (simp add: cull_stale_def push_plan_cull_fold)

lemma step_inactive:
  assumes "\<not> active (push_plan (ws c))"
  shows "\<not> active (push_plan (ws (fst (step c ev)))) \<and> snd (step c ev) = None"
proof (cases ev)
  case (ACTION_TIME ts)
  define t where "t = (case ts of None \<Rightarrow> time (ws c) | Some x \<Rightarrow> if x = 0 then time (ws c) else x)"
  define c1 where "c1 = c\<lparr>ws := cull_stale ((ws c)\<lparr>time := t,
      tracks := map (\<lambda>(k, tr). (k, update_speed tr t)) (tracks (ws c))\<rparr>) t\<rparr>"
  define c2 where "c2 = check_merged (c1\<lparr>last_emit_tick := py_int (t * hz c1)\<rparr>) (py_int (t * hz c1))"
  have i1: "\<not> active (push_plan (ws c1))" using assms by (simp add: c1_def)
  have i2: "\<not> active (push_plan (ws c2))" using i1 by (simp add: c2_def)
  have tp: "try_execute_push c2 = (c2, None)" using i2 by (rule try_execute_push_inactive)
  have "step c ev = (if py_int (t * hz c1) \<noteq> last_emit_tick c1 then (c2, None) else (c1, None))"
    using ACTION_TIME tp by (simp add: step_def on_time_def Let_def t_def c1_def c2_def)
  with i1 i2 show ?thesis by simp
next
  case (ACTION_GLOBAL props)
  with assms show ?thesis by (simp add: step_def split: option.splits)
next
  case (ACTION_REMOVE k)
  with assms show ?thesis by (simp add: step_def)
next
  case (ACTION_UPDATE ent0)
  with assms show ?thesis by (simp add: step_def Let_def)
qed

lemma handle_text_inactive:
  assumes "\<not> active (push_plan (ws c))"
  shows "\<not> active (push_plan (ws (fst (handle_text c p))))"
proof (cases p)
  case (CapAddBulls cs b r radius alt)
  with assms show ?thesis
    by (simp add: handle_text_def on_ws_def cap_add_bulls_def Let_def split: option.splits)
next
  case (CapAddAtFighter cs fcs radius alt)
  with assms show ?thesis
    by (simp add: handle_text_def on_ws_def cap_add_at_fighter_def Let_def split: option.splits)
next
  case (CapAssign cs target)
  with assms show ?thesis
    by (simp add: handle_text_def on_ws_def cap_assign_def split: option.splits)
next
  case (CapStatus cs)
  with assms show ?thesis
    by (simp add: handle_text_def on_ws_def cap_status_line_def split: option.splits)
next
  case (CapClear cs)
  with assms show ?thesis by (simp add: handle_text_def on_ws_def cap_clear_def)
next
  case (PushSet cs target)
  with assms show ?thesis by (simp add: handle_text_def push_set_def split: option.splits)
next
  case PushCancel
  then show ?thesis by (simp add: handle_text_def PushPlan_def)
next
  case PushExecute
  with assms show ?thesis by (simp add: handle_text_def push_execute_def)
qed (use assms in \<open>simp_all add: handle_text_def\<close>)

lemma run_loop_inactive:
  "\<not> active (push_plan (ws c)) \<Longrightarrow> \<not> active (push_plan (ws (run_loop c evs)))"
proof (induction evs arbitrary: c)
  case Nil
  then show ?case by simp
next
  case (Cons ev evs)
  obtain c1 e where s: "step c ev = (c1, e)" by (cases "step c ev")
  from step_inactive [OF Cons.prems, of ev] s
  have "\<not> active (push_plan (ws c1))" "e = None" by simp_all
  with Cons.IH [of c1] s show ?case by simp
qed

lemma scheduler_waits:
  "time (ws c) < or0 (exec_time (push_plan (ws c))) \<Longrightarrow> try_execute_push c = (c, None)"
  by (simp add: try_execute_push_def Let_def)

lemma scheduler_same_tick:
  "py_int ((case ts of None \<Rightarrow> time (ws c) | Some x \<Rightarrow> if x = 0 then time (ws c) else x) * hz c)
     = last_emit_tick c
   \<Longrightarrow> push_plan (ws (fst (on_time c ts))) = push_plan (ws c)
       \<and> printed (fst (on_time c ts)) = printed c"
  by (simp add: on_time_def Let_def)

lemma log_all_printed:
  "log_all c ls = Inr c' \<Longrightarrow> printed c' = printed c @ map projr ls \<and> ws c' = ws c"
  by (induction c ls rule: log_all.induct) auto

lemma scheduler_fires:
  assumes "active (push_plan (ws c))" and "or0 (exec_time (push_plan (ws c))) \<le> time (ws c)"
    and "brg (push_plan (ws c)) = Some b" and "rng (push_plan (ws c)) = Some r"
    and "recipients (ws c) \<noteq> []"
  shows "\<not> active (push_plan (ws (fst (try_execute_push c))))
       \<and> snd (try_execute_push c) = None
       \<and> printed (fst (try_execute_push c))
           = printed c
             @ concat (map (\<lambda>oid. case dict_get (objects (ws c)) oid of
                                     None \<Rightarrow> []
                                   | Some o' \<Rightarrow>
                                       [friendly_label o' @ '', PUSH, BULLS '' @ fmt_03d b
                                        @ '' for '' @ str_int r @ ''.''])
                           (recipients (ws c)))"
proof -
  let ?ls = "concat (map (\<lambda>oid. case dict_get (objects (ws c)) oid of
                                   None \<Rightarrow> []
                                 | Some o' \<Rightarrow> [push_line (push_plan (ws c)) o'])
                         (recipients (ws c)))"
  let ?txt = "concat (map (\<lambda>oid. case dict_get (objects (ws c)) oid of
                                     None \<Rightarrow> []
                                   | Some o' \<Rightarrow>
                                       [friendly_label o' @ '', PUSH, BULLS '' @ fmt_03d b
                                        @ '' for '' @ str_int r @ ''.''])
                           (recipients (ws c)))"
  have pl: "push_line (push_plan (ws c)) o' =
              Inr (friendly_label o' @ '', PUSH, BULLS '' @ fmt_03d b @ '' for '' @ str_int r @ ''.'')" for o'
    using assms(3,4) by (simp add: push_line_def)
  have "concat (map (\<lambda>oid. case dict_get (objects (ws c)) oid of
                                   None \<Rightarrow> []
                                 | Some o' \<Rightarrow> [push_line (push_plan (ws c)) o']) xs)
        = map Inr (concat (map (\<lambda>oid. case dict_get (objects (ws c)) oid of
                                     None \<Rightarrow> []
                                   | Some o' \<Rightarrow>
                                       [friendly_label o' @ '', PUSH, BULLS '' @ fmt_03d b
                                        @ '' for '' @ str_int r @ ''.'']) xs))" for xs
    by (induction xs) (auto simp: pl split: option.splits)
  then have ls: "?ls = map Inr ?txt" .
  have ex: "\<exists>c1. log_all c0 (map Inr xs) = Inr c1" for c0 xs
    by (induction xs arbitrary: c0) auto
  then obtain c1 where c1: "log_all c ?ls = Inr c1" unfolding ls by blast
  from log_all_printed [OF c1] have p: "printed c1 = printed c @ map projr ?ls" and w: "ws c1 = ws c"
    by simp_all
  have "map projr ?ls = ?txt" unfolding ls by (simp add: comp_def)
  with p have p': "printed c1 = printed c @ ?txt" by simp
  have "try_execute_push c
          = (c1\<lparr>ws := (ws c1)\<lparr>push_plan := (push_plan (ws c))\<lparr>active := False\<rparr>\<rparr>\<rparr>, None)"
    using assms(1,2,5) c1 by (simp add: try_execute_push_def Let_def)
  with p' show ?thesis by simp
qed

text \<open>
  C2.  The code cannot arm a push plan.  For the \<open>push set\<close> command \<open>parse_command\<close>
  returns the pair (bearing, range) in the second slot and the time phrase in the third,
  and \<open>handle_text\<close> reads them the other way round: with a bullseye available, unpacking
  the phrase into bearing and range raises (a phrase such as "in 30s" has more than two
  characters), before any field of the plan is written.  Nothing else sets the active
  flag, so from the initial controller the plan is inactive after every event and every
  command, the scheduler never executes, and \<open>push execute\<close> answers "PUSH: no plan.".
\<close>

theorem push_plan_never_armed:
  "\<not> active (push_plan (ws Controller))
   \<and> (buv_of (ws c) \<noteq> None \<and> length phrase \<noteq> 2
        \<longrightarrow> handle_text c (PushSet br phrase) = (c, Inl ValueError))
   \<and> (buv_of (ws c) \<noteq> None \<longrightarrow> (\<exists>e. handle_text c (PushSet br phrase) = (c, Inl e)))
   \<and> (\<not> active (push_plan (ws c))
        \<longrightarrow> \<not> active (push_plan (ws (fst (handle_text c p))))
            \<and> \<not> active (push_plan (ws (fst (step c ev))))
            \<and> \<not> active (push_plan (ws (run_loop c evs)))
            \<and> try_execute_push c = (c, None)
            \<and> handle_text c PushExecute = (c, Inr ''PUSH: no plan.''))"
proof -
  have one: "\<not> active (push_plan (ws Controller))"
    by (simp add: Controller_def WorldState_def PushPlan_def)
  have two: "buv_of (ws c) \<noteq> None \<and> length phrase \<noteq> 2
        \<longrightarrow> handle_text c (PushSet br phrase) = (c, Inl ValueError)"
    by (auto simp: handle_text_def push_set_def split: option.splits)
  have three: "buv_of (ws c) \<noteq> None \<longrightarrow> (\<exists>e. handle_text c (PushSet br phrase) = (c, Inl e))"
    by (auto simp: handle_text_def push_set_def split: option.splits)
  have four: "\<not> active (push_plan (ws c))
        \<longrightarrow> \<not> active (push_plan (ws (fst (handle_text c p))))
            \<and> \<not> active (push_plan (ws (fst (step c ev))))
            \<and> \<not> active (push_plan (ws (run_loop c evs)))
            \<and> try_execute_push c = (c, None)
            \<and> handle_text c PushExecute = (c, Inr ''PUSH: no plan.'')"
  proof
    assume i: "\<not> active (push_plan (ws c))"
    have a: "\<not> active (push_plan (ws (fst (handle_text c p))))" using i by (rule handle_text_inactive)
    have b: "\<not> active (push_plan (ws (fst (step c ev))))" using step_inactive [OF i] by simp
    have d: "\<not> active (push_plan (ws (run_loop c evs)))" using i by (rule run_loop_inactive)
    have e: "try_execute_push c = (c, None)" using i by (rule try_execute_push_inactive)
    have f: "handle_text c PushExecute = (c, Inr ''PUSH: no plan.'')"
      using i by (simp add: handle_text_def push_execute_def)
    from a b d e f show "\<not> active (push_plan (ws (fst (handle_text c p))))
            \<and> \<not> active (push_plan (ws (fst (step c ev))))
            \<and> \<not> active (push_plan (ws (run_loop c evs)))
            \<and> try_execute_push c = (c, None)
            \<and> handle_text c PushExecute = (c, Inr ''PUSH: no plan.'')" by blast
  qed
  from one two three four show ?thesis by blast
qed

theorem push_plan_never_armed_witness:
  "buv_of (ws (picture_ctl 1000 2000)) = Some (1000, 2000)
   \<and> parse_time_offset (Some ''in 30s'') = Some 30
   \<and> handle_text (picture_ctl 1000 2000) (PushSet (330, 35) ''in 30s'')
       = (picture_ctl 1000 2000, Inl ValueError)
   \<and> \<not> active (push_plan (ws (picture_ctl 1000 2000)))
   \<and> handle_text (picture_ctl 1000 2000) PushExecute = (picture_ctl 1000 2000, Inr ''PUSH: no plan.'')"
proof -
  let ?c = "picture_ctl 1000 2000"
  have fb: "find_bull (ws ?c) = Some (bullseye_at 1000 2000)"
    by (simp add: find_bull_def picture_ctl_def WorldState_def dict_get_def)
  have uvb: "uv_of (bullseye_at 1000 2000) = Some (1000, 2000)"
    by (simp add: uv_of_def get_xy_mode_def bullseye_at_def)
  have buv: "buv_of (ws ?c) = Some (1000, 2000)" by (simp add: buv_of_def fb uvb)
  have len: "length ''in 30s'' \<noteq> 2" by simp
  have ina: "\<not> active (push_plan (ws ?c))"
    by (simp add: picture_ctl_def WorldState_def PushPlan_def)
  note th = push_plan_never_armed [of ?c "''in 30s''" "(330, 35)" PushExecute "ACTION_REMOVE []" "[]"]
  have a: "handle_text ?c (PushSet (330, 35) ''in 30s'') = (?c, Inl ValueError)"
    using th buv len by simp
  have b: "handle_text ?c PushExecute = (?c, Inr ''PUSH: no plan.'')"
    using th ina by blast
  from buv parse_in_30s a ina b show ?thesis by blast
qed

section \<open>Replies when data is missing\<close>

definition lone_ctl :: controller where
  \<comment> \<open>the friendly aircraft alone: no hostile, no bullseye object, no CAP site\<close>
  "lone_ctl =
     Controller
       \<lparr>ws := WorldState
                \<lparr>time := 100,
                 objects := [(''b01'', blue_fighter)],
                 tracks := [(''b01'', TrackWrap blue_fighter)],
                 last_seen := [(''b01'', 100)]\<rparr>\<rparr>"

lemma on_ws_same [simp]: "on_ws c (ws c, s) = (c, Inr s)"
  by (simp add: on_ws_def)

lemma snd_on_ws [simp]: "snd (on_ws c r) = Inr (snd r)"
  by (simp add: on_ws_def)

lemma reply_unless_push:
  assumes "\<not> active (push_plan (ws c))"
    and "\<And>br ph. p \<noteq> PushSet br ph"
  shows "\<exists>s. snd (handle_text c p) = Inr s"
proof (cases p)
  case (PushSet br ph)
  with assms(2) [of br ph] show ?thesis by simp
next
  case PushStatus
  with assms(1) show ?thesis by (simp add: handle_text_def push_status_line_def)
next
  case PushExecute
  with assms(1) show ?thesis by (simp add: handle_text_def push_execute_def)
qed (simp_all add: handle_text_def)

lemma no_bullseye_replies:
  assumes "buv_of (ws c) = None"
  shows "handle_text c (DeclareBulls cs b r) = (c, Inr ''DECLARE: no bullseye available.'')"
    and "handle_text c (Alpha cs tgt) = (c, Inr ''ALPHA CHECK: no bullseye available.'')"
    and "handle_text c (CapAddBulls nm b r rad alt)
           = (c, Inr (''CAP: UNABLE '' @ em_dash @ '' no bullseye.''))"
    and "handle_text c (PushSet br ph) = (c, Inr (''PUSH: UNABLE '' @ em_dash @ '' no bullseye.''))"
    and "handle_text c (Picture cs)
           = (c, Inr (with_cs cs (if reds (ws c) @ unks (ws c) = [] then ''PICTURE: CLEAN.''
                                  else ''PICTURE: no bullseye available yet.'')))"
  using assms
  by (simp_all add: handle_text_def declare_bulls_reply_def alpha_reply_def cap_add_bulls_def
      push_set_def picture_line_def Let_def)

lemma no_friendly_replies:
  assumes "pick_friendly (ws c) cs = None"
  shows "handle_text c (BogeyDope cs)
           = (c, Inr (cs_or_fighter cs @ '', UNABLE: no friendly reference available.''))"
    and "handle_text c (Declare cs)
           = (c, Inr (cs_or_fighter cs @ '', UNABLE: declare (no friendly reference).''))"
    and "handle_text c (Snap cs)
           = (c, Inr (cs_or_fighter cs @ '', UNABLE: snap (no friendly reference).''))"
    and "handle_text c (Vector cs tn)
           = (c, Inr (cs_or_fighter cs @ '', UNABLE: vector (no friendly reference).''))"
  using assms
  by (simp_all add: handle_text_def bogeydope_reply_def declare_reply_def snap_reply_def
      vector_reply_def)

lemma no_target_replies:
  "pick_friendly (ws c) cs \<noteq> None \<Longrightarrow> \<not> py_in ''home'' (lower (strip tn))
   \<Longrightarrow> \<not> py_in ''tanker'' (lower (strip tn))
   \<Longrightarrow> find_callsign (blues (ws c)) (Some tn) = None
   \<Longrightarrow> handle_text c (Vector cs tn) = (c, Inr ''UNABLE: target not found.'')"
  "find_callsign (blues (ws c)) (Some fcs) = None
   \<Longrightarrow> handle_text c (CapAssign fcs site) = (c, Inr (''CAP: UNABLE '' @ em_dash @ '' fighter not found.''))"
  "find_callsign (blues (ws c)) (Some fcs) = None
   \<Longrightarrow> handle_text c (CapAddAtFighter nm fcs rad alt)
       = (c, Inr (''CAP: UNABLE '' @ em_dash @ '' fighter not found.''))"
  by (auto simp: handle_text_def vector_reply_def cap_assign_def cap_add_at_fighter_def Let_def)

lemma empty_world_lists:
  "blues (ws Controller) = []" "reds (ws Controller) = []" "unks (ws Controller) = []"
  by (simp_all add: Controller_def WorldState_def blues_def reds_def unks_def get_air_def
      dict_values_def)

lemma empty_world_no_bullseye: "buv_of (ws Controller) = None"
proof -
  have "find_bull (ws Controller) = None"
    using empty_world_lists(1)
    by (simp add: find_bull_def Controller_def WorldState_def dict_get_def dict_values_def)
  then show ?thesis by (simp add: buv_of_def)
qed

lemma lone_ctl_blues: "blues (ws lone_ctl) = [blue_fighter]"
  by (simp add: lone_ctl_def WorldState_def blues_def get_air_def dict_values_def)

lemma norm_ghost: "py_norm ''ghost'' = ''ghost''"
  by (simp add: py_norm_def lower_def lower_char_def is_lower_def is_digit_def)

lemma norm_airframe: "py_norm ''F-16C'' = ''f16c''"
  by (simp add: py_norm_def lower_def lower_char_def is_lower_def is_digit_def)

lemma norm_callsign: "py_norm ''Viper 1-1'' = ''viper11''"
  by (simp add: py_norm_def lower_def lower_char_def is_lower_def is_digit_def)

lemma ghost_not_found: "find_callsign [blue_fighter] (Some ''ghost'') = None"
proof -
  have "Name blue_fighter = Some ''F-16C''" "Callsign blue_fighter = Some ''Viper 1-1''"
    "Pilot blue_fighter = None" "Unit blue_fighter = None" "Group blue_fighter = None"
    by (simp_all add: blue_fighter_def)
  then show ?thesis
    by (simp add: find_callsign_def fields_of_def str_or_def norm_ghost norm_airframe norm_callsign)
qed

lemma ghost_is_a_name:
  "\<not> py_in ''home'' (lower (strip ''ghost''))" "\<not> py_in ''tanker'' (lower (strip ''ghost''))"
  by (simp_all add: strip_def is_space_def lower_def lower_char_def)

text \<open>
  C7 as stated fails on the wording of the replies: with no object at all in the world
  state no bullseye resolves and there is no friendly aircraft, and the replies to
  \<open>declare bulls\<close> and \<open>alpha check\<close> do not contain the word UNABLE, while the reply to
  \<open>bogey dope\<close> begins with "Fighter, ".
\<close>

theorem unable_literal_counterexample:
  "buv_of (ws Controller) = None
   \<and> pick_friendly (ws Controller) None = None
   \<and> handle_text Controller (DeclareBulls None 90 20)
       = (Controller, Inr ''DECLARE: no bullseye available.'')
   \<and> handle_text Controller (Alpha None None)
       = (Controller, Inr ''ALPHA CHECK: no bullseye available.'')
   \<and> handle_text Controller (BogeyDope None)
       = (Controller, Inr ''Fighter, UNABLE: no friendly reference available.'')
   \<and> \<not> py_in ''UNABLE'' ''DECLARE: no bullseye available.''
   \<and> \<not> py_in ''UNABLE'' ''ALPHA CHECK: no bullseye available.''
   \<and> \<not> startswith ''Fighter, UNABLE: no friendly reference available.'' ''UNABLE: ''"
proof -
  have pf: "pick_friendly (ws Controller) None = None"
    by (simp add: pick_friendly_def truthy_def empty_world_lists)
  have a: "handle_text Controller (DeclareBulls None 90 20)
             = (Controller, Inr ''DECLARE: no bullseye available.'')"
    by (simp add: handle_text_def declare_bulls_reply_def empty_world_no_bullseye)
  have b: "handle_text Controller (Alpha None None)
             = (Controller, Inr ''ALPHA CHECK: no bullseye available.'')"
    by (simp add: handle_text_def alpha_reply_def empty_world_no_bullseye)
  have d: "handle_text Controller (BogeyDope None)
             = (Controller, Inr ''Fighter, UNABLE: no friendly reference available.'')"
    by (simp add: handle_text_def bogeydope_reply_def pf cs_or_fighter_def)
  have e: "\<not> py_in ''UNABLE'' ''DECLARE: no bullseye available.''"
    "\<not> py_in ''UNABLE'' ''ALPHA CHECK: no bullseye available.''"
    "\<not> startswith ''Fighter, UNABLE: no friendly reference available.'' ''UNABLE: ''"
    by simp_all
  from empty_world_no_bullseye pf a b d e show ?thesis by blast
qed

text \<open>
  C7, amended.  Every command other than \<open>push set\<close> returns a reply, in every state whose
  push plan is not active, whatever data is missing; \<open>push set\<close> returns one when no
  bullseye resolves.  The reply depends on the command.  With no bullseye:
  "DECLARE: no bullseye available.", "ALPHA CHECK: no bullseye available.",
  "CAP: UNABLE - no bullseye.", "PUSH: UNABLE - no bullseye." (with a dash U+2014), and for
  the picture "PICTURE: no bullseye available yet.", or "PICTURE: CLEAN." when there is no
  hostile or unknown aircraft, after the callsign if one was given.  With no friendly
  reference, bogey dope, declare, snap and vector answer the callsign, or "Fighter", then
  ", UNABLE: " and a reason.  A vector to a name that is neither home nor tanker and
  matches no friendly aircraft answers "UNABLE: target not found.", and the CAP commands
  that name a fighter answer "CAP: UNABLE - fighter not found.".
\<close>

theorem missing_data_replies:
  "((\<forall>br ph. p \<noteq> PushSet br ph) \<and> \<not> active (push_plan (ws c))
      \<longrightarrow> (\<exists>s. snd (handle_text c p) = Inr s))
   \<and> (buv_of (ws c) = None
        \<longrightarrow> handle_text c (DeclareBulls cs b r) = (c, Inr ''DECLARE: no bullseye available.'')
            \<and> handle_text c (Alpha cs tgt) = (c, Inr ''ALPHA CHECK: no bullseye available.'')
            \<and> handle_text c (CapAddBulls nm b r rad alt)
                = (c, Inr (''CAP: UNABLE '' @ em_dash @ '' no bullseye.''))
            \<and> handle_text c (PushSet br' ph') = (c, Inr (''PUSH: UNABLE '' @ em_dash @ '' no bullseye.''))
            \<and> handle_text c (Picture cs)
                = (c, Inr (with_cs cs (if reds (ws c) @ unks (ws c) = [] then ''PICTURE: CLEAN.''
                                       else ''PICTURE: no bullseye available yet.''))))
   \<and> (pick_friendly (ws c) cs = None
        \<longrightarrow> handle_text c (BogeyDope cs)
              = (c, Inr (cs_or_fighter cs @ '', UNABLE: no friendly reference available.''))
            \<and> handle_text c (Declare cs)
              = (c, Inr (cs_or_fighter cs @ '', UNABLE: declare (no friendly reference).''))
            \<and> handle_text c (Snap cs)
              = (c, Inr (cs_or_fighter cs @ '', UNABLE: snap (no friendly reference).''))
            \<and> handle_text c (Vector cs tn)
              = (c, Inr (cs_or_fighter cs @ '', UNABLE: vector (no friendly reference).'')))
   \<and> (pick_friendly (ws c) cs \<noteq> None \<and> \<not> py_in ''home'' (lower (strip tn))
        \<and> \<not> py_in ''tanker'' (lower (strip tn)) \<and> find_callsign (blues (ws c)) (Some tn) = None
        \<longrightarrow> handle_text c (Vector cs tn) = (c, Inr ''UNABLE: target not found.''))
   \<and> (find_callsign (blues (ws c)) (Some fcs) = None
        \<longrightarrow> handle_text c (CapAssign fcs site)
              = (c, Inr (''CAP: UNABLE '' @ em_dash @ '' fighter not found.''))
            \<and> handle_text c (CapAddAtFighter nm fcs rad alt)
              = (c, Inr (''CAP: UNABLE '' @ em_dash @ '' fighter not found.'')))"
proof -
  have one: "(\<forall>br ph. p \<noteq> PushSet br ph) \<and> \<not> active (push_plan (ws c))
      \<longrightarrow> (\<exists>s. snd (handle_text c p) = Inr s)"
    using reply_unless_push [of c p] by blast
  have two: "buv_of (ws c) = None
        \<longrightarrow> handle_text c (DeclareBulls cs b r) = (c, Inr ''DECLARE: no bullseye available.'')
            \<and> handle_text c (Alpha cs tgt) = (c, Inr ''ALPHA CHECK: no bullseye available.'')
            \<and> handle_text c (CapAddBulls nm b r rad alt)
                = (c, Inr (''CAP: UNABLE '' @ em_dash @ '' no bullseye.''))
            \<and> handle_text c (PushSet br' ph') = (c, Inr (''PUSH: UNABLE '' @ em_dash @ '' no bullseye.''))
            \<and> handle_text c (Picture cs)
                = (c, Inr (with_cs cs (if reds (ws c) @ unks (ws c) = [] then ''PICTURE: CLEAN.''
                                       else ''PICTURE: no bullseye available yet.'')))"
    using no_bullseye_replies [of c] by blast
  have three: "pick_friendly (ws c) cs = None
        \<longrightarrow> handle_text c (BogeyDope cs)
              = (c, Inr (cs_or_fighter cs @ '', UNABLE: no friendly reference available.''))
            \<and> handle_text c (Declare cs)
              = (c, Inr (cs_or_fighter cs @ '', UNABLE: declare (no friendly reference).''))
            \<and> handle_text c (Snap cs)
              = (c, Inr (cs_or_fighter cs @ '', UNABLE: snap (no friendly reference).''))
            \<and> handle_text c (Vector cs tn)
              = (c, Inr (cs_or_fighter cs @ '', UNABLE: vector (no friendly reference).''))"
    using no_friendly_replies [of c cs] by blast
  have four: "pick_friendly (ws c) cs \<noteq> None \<and> \<not> py_in ''home'' (lower (strip tn))
        \<and> \<not> py_in ''tanker'' (lower (strip tn)) \<and> find_callsign (blues (ws c)) (Some tn) = None
        \<longrightarrow> handle_text c (Vector cs tn) = (c, Inr ''UNABLE: target not found.'')"
    using no_target_replies(1) [of c cs tn] by blast
  have five: "find_callsign (blues (ws c)) (Some fcs) = None
        \<longrightarrow> handle_text c (CapAssign fcs site)
              = (c, Inr (''CAP: UNABLE '' @ em_dash @ '' fighter not found.''))
            \<and> handle_text c (CapAddAtFighter nm fcs rad alt)
              = (c, Inr (''CAP: UNABLE '' @ em_dash @ '' fighter not found.''))"
    using no_target_replies(2,3) [of c fcs] by blast
  from one two three four five show ?thesis by blast
qed

theorem missing_data_replies_witness:
  "(\<exists>s. snd (handle_text Controller PushStatus) = Inr s)
   \<and> snd (handle_text Controller (Snap None)) = Inr ''Fighter, UNABLE: snap (no friendly reference).''
   \<and> handle_text Controller (CapAddBulls ''alpha'' 90 20 10 ''20-30'')
       = (Controller, Inr (''CAP: UNABLE '' @ em_dash @ '' no bullseye.''))
   \<and> handle_text Controller (PushSet (330, 35) ''in 30s'')
       = (Controller, Inr (''PUSH: UNABLE '' @ em_dash @ '' no bullseye.''))
   \<and> handle_text Controller (Picture (Some ''Viper'')) = (Controller, Inr ''Viper, PICTURE: CLEAN.'')
   \<and> handle_text Controller (Declare None)
       = (Controller, Inr ''Fighter, UNABLE: declare (no friendly reference).'')
   \<and> pick_friendly (ws lone_ctl) None = Some blue_fighter
   \<and> handle_text lone_ctl (Vector None ''ghost'') = (lone_ctl, Inr ''UNABLE: target not found.'')
   \<and> handle_text lone_ctl (CapAssign ''ghost'' ''alpha'')
       = (lone_ctl, Inr (''CAP: UNABLE '' @ em_dash @ '' fighter not found.''))"
proof -
  note e = missing_data_replies [where c = Controller and p = PushStatus and cs = None
      and b = 90 and r = 20 and nm = "''alpha''" and rad = 10 and alt = "''20-30''"
      and br' = "(330, 35)" and ph' = "''in 30s''" and tn = "''ghost''" and fcs = "''ghost''"
      and site = "''alpha''" and tgt = None]
  note v = missing_data_replies [where c = Controller and p = "Snap None" and cs = "Some ''Viper''"
      and b = 90 and r = 20 and nm = "''alpha''" and rad = 10 and alt = "''20-30''"
      and br' = "(330, 35)" and ph' = "''in 30s''" and tn = "''ghost''" and fcs = "''ghost''"
      and site = "''alpha''" and tgt = None]
  note l = missing_data_replies [where c = lone_ctl and p = "Snap None" and cs = None
      and b = 90 and r = 20 and nm = "''alpha''" and rad = 10 and alt = "''20-30''"
      and br' = "(330, 35)" and ph' = "''in 30s''" and tn = "''ghost''" and fcs = "''ghost''"
      and site = "''alpha''" and tgt = None]
  have pf: "pick_friendly (ws Controller) None = None"
    by (simp add: pick_friendly_def truthy_def empty_world_lists)
  have ina: "\<not> active (push_plan (ws Controller))"
    by (simp add: Controller_def WorldState_def PushPlan_def)
  have lf: "pick_friendly (ws lone_ctl) None = Some blue_fighter"
    by (simp add: pick_friendly_def truthy_def lone_ctl_blues)
  have gh: "find_callsign (blues (ws lone_ctl)) (Some ''ghost'') = None"
    by (simp add: lone_ctl_blues ghost_not_found)
  have fighter: "cs_or_fighter None = ''Fighter''" by (simp add: cs_or_fighter_def)
  have w1: "snd (handle_text Controller (Snap None)) = Inr ''Fighter, UNABLE: snap (no friendly reference).''"
    using e [THEN conjunct2, THEN conjunct2, THEN conjunct1, THEN mp, OF pf] fighter by simp
  have w5: "handle_text Controller (Declare None)
              = (Controller, Inr ''Fighter, UNABLE: declare (no friendly reference).'')"
    using e [THEN conjunct2, THEN conjunct2, THEN conjunct1, THEN mp, OF pf] fighter by simp
  note nb = e [THEN conjunct2, THEN conjunct1, THEN mp, OF empty_world_no_bullseye]
  have w2: "handle_text Controller (CapAddBulls ''alpha'' 90 20 10 ''20-30'')
              = (Controller, Inr (''CAP: UNABLE '' @ em_dash @ '' no bullseye.''))"
    using nb by blast
  have w3: "handle_text Controller (PushSet (330, 35) ''in 30s'')
              = (Controller, Inr (''PUSH: UNABLE '' @ em_dash @ '' no bullseye.''))"
    using nb by blast
  have w4: "handle_text Controller (Picture (Some ''Viper'')) = (Controller, Inr ''Viper, PICTURE: CLEAN.'')"
    using v [THEN conjunct2, THEN conjunct1, THEN mp, OF empty_world_no_bullseye]
    by (simp add: empty_world_lists with_cs_def)
  have w6: "handle_text lone_ctl (Vector None ''ghost'') = (lone_ctl, Inr ''UNABLE: target not found.'')"
    using l [THEN conjunct2, THEN conjunct2, THEN conjunct2, THEN conjunct1, THEN mp]
      lf gh ghost_is_a_name by simp
  have w7: "handle_text lone_ctl (CapAssign ''ghost'' ''alpha'')
              = (lone_ctl, Inr (''CAP: UNABLE '' @ em_dash @ '' fighter not found.''))"
    using l [THEN conjunct2, THEN conjunct2, THEN conjunct2, THEN conjunct2, THEN mp, OF gh]
    by blast
  have w0: "\<exists>s. snd (handle_text Controller PushStatus) = Inr s"
    using e [THEN conjunct1, THEN mp] ina by simp
  from w0 w1 w2 w3 w4 w5 lf w6 w7 show ?thesis by blast
qed

section \<open>The MERGED alert in the ingest loop\<close>

definition time_of :: "controller \<Rightarrow> real option \<Rightarrow> real" where
  \<comment> \<open>\<open>ent.timestamp or self.ws.time\<close>\<close>
  "time_of c ts = (case ts of None \<Rightarrow> time (ws c) | Some x \<Rightarrow> if x = 0 then time (ws c) else x)"

definition aged :: "controller \<Rightarrow> real option \<Rightarrow> controller" where
  \<comment> \<open>the controller after the first three statements of the \<open>ACTION_TIME\<close> branch: the
      clock is set, the speeds are updated and stale entities are evicted\<close>
  "aged c ts =
     (let t = time_of c ts;
          w1 = (ws c)\<lparr>time := t\<rparr>;
          w2 = w1\<lparr>tracks := map (\<lambda>(k, tr). (k, update_speed tr t)) (tracks w1)\<rparr>
      in c\<lparr>ws := cull_stale w2 t\<rparr>)"


definition friendly_at :: "string \<Rightarrow> real \<Rightarrow> real \<Rightarrow> acmi_object" where
  \<comment> \<open>a friendly aircraft at a planar point\<close>
  "friendly_at oid u v =
     \<lparr>object_id = oid, Type = Some ''Air+FixedWing'', Coalition = Some ''Allies'',
      Color = Some ''Blue'', Name = Some ''F-16C'', Callsign = Some ''Viper 1-2'', Pilot = None,
      Group = None, Unit = None,
      T = Some \<lparr>U = Some u, V = Some v, Longitude = None, Latitude = None,
               Altitude = Some 7000, Heading = Some 90\<rparr>\<rparr>"




lemma aged_fields [simp]:
  "hz (aged c ts) = hz c"
  "last_emit_tick (aged c ts) = last_emit_tick c"
  "last_merged_tick (aged c ts) = last_merged_tick c"
  "merged_cooldown (aged c ts) = merged_cooldown c"
  "printed (aged c ts) = printed c"
  "known_ids (aged c ts) = known_ids c"
  by (simp_all add: aged_def Let_def)

lemma aged_plan [simp]: "push_plan (ws (aged c ts)) = push_plan (ws c)"
  by (simp add: aged_def Let_def)









lemma friendly_at_facts [simp]:
  "coalition_of (friendly_at oid u v) = ''Blue''"
  "py_in ''Air'' (str_or (Type (friendly_at oid u v)) [])"
  "u \<noteq> 0 \<or> v \<noteq> 0 \<Longrightarrow> uv_of (friendly_at oid u v) = Some (u, v)"
  by (auto simp: coalition_of_def friendly_at_def str_or_def BLUE_HINTS_def RED_HINTS_def
      uv_of_def get_xy_mode_def)













end
